(* ===== verification/Go_Prelude.thy ===== *)
theory Go_Prelude
  imports Main "HOL-Library.Word" "HOL-Library.Sublist" "HOL-Library.Monad_Syntax"
begin

text \<open>
  What every component shares: the parts of the Go language and of its standard library that
  the program uses (nil-able slices, iteration over a map, strings, decimal numbers, times),
  with the generic lemmas about them. A Go string is a byte sequence, here a \<^typ>\<open>string\<close>.
\<close>

named_theorems go_string "facts on Go's string functions"
named_theorems go_number "facts on decimal conversion"

section \<open>Slices and map iteration\<close>

text \<open>
  A Go slice is nil or a sequence. \<open>reflect.DeepEqual\<close> tells a nil slice from an empty one, so
  nil is kept as \<^term>\<open>None\<close>; equality on this type is \<open>DeepEqual\<close>.
\<close>

type_synonym 'a slice = "'a list option"

definition elems :: "'a slice \<Rightarrow> 'a list" where
  "elems s = (case s of None \<Rightarrow> [] | Some xs \<Rightarrow> xs)"

definition append_slice :: "'a slice \<Rightarrow> 'a \<Rightarrow> 'a slice" where
  "append_slice s x = Some (elems s @ [x])"

lemma elems_simps [simp]: "elems None = []" "elems (Some xs) = xs"
  by (simp_all add: elems_def)

lemma elems_append_slice [simp]: "elems (append_slice s x) = elems s @ [x]"
  by (simp add: append_slice_def)

lemma append_slice_not_nil [simp]: "append_slice s x \<noteq> None"
  by (simp add: append_slice_def)

text \<open>Appending the images of a list one by one, as the loops of the program do.\<close>

lemma elems_foldl_append: "elems (foldl (\<lambda>acc x. append_slice acc (f x)) s xs) = elems s @ map f xs"
  by (induction xs arbitrary: s) auto

lemma foldl_append_nil_iff: "foldl (\<lambda>acc x. append_slice acc (f x)) s xs = None \<longleftrightarrow> s = None \<and> xs = []"
  by (induction xs arbitrary: s) auto

text \<open>
  Ranging over a Go map visits each key once, in an order the language leaves open. The model
  takes the order as an argument; an order is possible when it lists the map's keys once each.
\<close>

definition map_order :: "'k list \<Rightarrow> ('k \<rightharpoonup> 'v) \<Rightarrow> bool" where
  "map_order ks m \<longleftrightarrow> distinct ks \<and> set ks = dom m"

lemma map_orderD: "map_order ks m \<Longrightarrow> distinct ks" "map_order ks m \<Longrightarrow> set ks = dom m"
  by (simp_all add: map_order_def)

text \<open>The last element that satisfies a test, as a loop without \<open>break\<close> finds it.\<close>

definition last_match :: "('a \<Rightarrow> bool) \<Rightarrow> ('a \<Rightarrow> 'b) \<Rightarrow> 'a list \<Rightarrow> 'b option" where
  "last_match p f xs = foldl (\<lambda>acc x. if p x then Some (f x) else acc) None xs"

lemma foldl_last_match:
  "foldl (\<lambda>acc x. if p x then Some (f x) else acc) a xs =
     (case last_match p f xs of None \<Rightarrow> a | Some y \<Rightarrow> Some y)"
proof (induction xs arbitrary: a)
  case Nil
  show ?case by (simp add: last_match_def)
next
  case (Cons x xs)
  show ?case
    using Cons [of "if p x then Some (f x) else a"] Cons [of "if p x then Some (f x) else None"]
    by (simp add: last_match_def split: option.splits)
qed

lemma last_match_Nil [simp]: "last_match p f [] = None"
  by (simp add: last_match_def)

lemma last_match_Cons:
  "last_match p f (x # xs) =
     (case last_match p f xs of None \<Rightarrow> (if p x then Some (f x) else None) | Some y \<Rightarrow> Some y)"
  using foldl_last_match [of p f "if p x then Some (f x) else None" xs]
  by (simp add: last_match_def)

lemma last_match_None_iff: "last_match p f xs = None \<longleftrightarrow> (\<forall>x\<in>set xs. \<not> p x)"
  by (induction xs) (auto simp: last_match_Cons split: option.splits)

lemma last_match_SomeD: "last_match p f xs = Some y \<Longrightarrow> \<exists>x\<in>set xs. p x \<and> y = f x"
  by (induction xs) (auto simp: last_match_Cons split: option.splits if_splits)

text \<open>Where all matches agree, the loop finds their common value.\<close>

lemma last_match_unique:
  assumes "x \<in> set xs" and "p x" and "\<And>y. y \<in> set xs \<Longrightarrow> p y \<Longrightarrow> f y = f x"
  shows "last_match p f xs = Some (f x)"
proof (cases "last_match p f xs")
  case None
  with assms(1,2) show ?thesis by (simp add: last_match_None_iff)
next
  case (Some z)
  then obtain y where "y \<in> set xs" "p y" "z = f y" by (blast dest: last_match_SomeD)
  with assms(3) Some show ?thesis by simp
qed

lemma find_skip: "\<forall>v\<in>set vs. \<not> p v \<Longrightarrow> p b \<Longrightarrow> find p (vs @ b # ws) = Some b"
  by (induction vs) auto

section \<open>Strings\<close>

text \<open>\<open>strings.HasPrefix\<close>, \<open>strings.Contains\<close>, \<open>strings.Split\<close> on a one-byte separator, \<open>strings.Join\<close>.\<close>

definition HasPrefix :: "string \<Rightarrow> string \<Rightarrow> bool" where
  "HasPrefix s p \<longleftrightarrow> take (length p) s = p"

lemma HasPrefix_iff: "HasPrefix s p \<longleftrightarrow> (\<exists>r. s = p @ r)"
  unfolding HasPrefix_def by (metis append_eq_conv_conj append_take_drop_id)

fun Contains :: "string \<Rightarrow> string \<Rightarrow> bool" where
  "Contains [] p = (p = [])"
| "Contains (c # s) p = (HasPrefix (c # s) p \<or> Contains s p)"

lemma Contains_iff: "Contains s p \<longleftrightarrow> (\<exists>a b. s = a @ p @ b)"
proof (induction s)
  case Nil
  show ?case by auto
next
  case (Cons c s)
  have "(\<exists>a b. c # s = a @ p @ b) \<longleftrightarrow> (\<exists>b. c # s = p @ b) \<or> (\<exists>a b. s = a @ p @ b)"
    by (metis append_Cons append_Nil append_eq_Cons_conv)
  with Cons show ?case by (simp add: HasPrefix_iff)
qed

fun Split :: "char \<Rightarrow> string \<Rightarrow> string list" where
  "Split sep [] = [[]]"
| "Split sep (c # s) =
     (if c = sep then [] # Split sep s
      else (case Split sep s of [] \<Rightarrow> [[c]] | p # ps \<Rightarrow> (c # p) # ps))"

fun Join :: "string \<Rightarrow> string list \<Rightarrow> string" where
  "Join sep [] = []"
| "Join sep [p] = p"
| "Join sep (p # ps) = p @ sep @ Join sep ps"

lemma Split_not_Nil [simp]: "Split sep s \<noteq> []"
  by (induction s) (auto split: list.splits)

lemma length_Split_pos [simp]: "0 < length (Split sep s)" "Suc 0 \<le> length (Split sep s)"
  by (simp_all add: Suc_le_eq)

lemma Split_no_sep [go_string]: "sep \<notin> set s \<Longrightarrow> Split sep s = [s]"
  by (induction s) auto

lemma Split_append_sep [go_string]:
  "sep \<notin> set p \<Longrightarrow> Split sep (p @ sep # s) = p # Split sep s"
  by (induction p) auto

lemma Split_pieces_no_sep: "p \<in> set (Split sep s) \<Longrightarrow> sep \<notin> set p"
  by (induction s arbitrary: p) (auto split: if_splits list.splits)

lemma Join_Split: "Join [sep] (Split sep s) = s"
proof (induction s)
  case Nil
  show ?case by simp
next
  case (Cons c s)
  show ?case
  proof (cases "Split sep s")
    case Nil
    then show ?thesis by simp
  next
    case (Cons q qs)
    with Cons.IH show ?thesis by (cases qs) auto
  qed
qed

lemma Split_Join:
  "ps \<noteq> [] \<Longrightarrow> \<forall>p\<in>set ps. sep \<notin> set p \<Longrightarrow> Split sep (Join [sep] ps) = ps"
  by (induction "[sep]" ps rule: Join.induct) (simp_all add: go_string)

text \<open>\<open>strings.LastIndex\<close> of a one-byte string: \<open>-1\<close> where there is none.\<close>

definition LastIndex :: "char \<Rightarrow> string \<Rightarrow> int" where
  "LastIndex sep s =
     (let n = length (takeWhile (\<lambda>c. c \<noteq> sep) (rev s))
      in if n = length s then - 1 else int (length s - n - 1))"

lemma LastIndex_append [go_string]:
  assumes "sep \<notin> set t"
  shows "LastIndex sep (s @ sep # t) = int (length s)"
proof -
  have "takeWhile (\<lambda>c. c \<noteq> sep) (rev t @ sep # rev s) = rev t"
    using assms by (subst takeWhile_append2) auto
  then show ?thesis by (simp add: LastIndex_def)
qed

lemma LastIndex_none [go_string]:
  assumes "sep \<notin> set s"
  shows "LastIndex sep s = - 1"
proof -
  have "takeWhile (\<lambda>c. c \<noteq> sep) (rev s) = rev s" using assms by (auto simp: takeWhile_eq_all_conv)
  then show ?thesis unfolding LastIndex_def Let_def by (simp only: length_rev if_True refl)
qed

section \<open>Decimal numbers\<close>

text \<open>
  \<open>strconv.Itoa\<close> and \<open>strconv.Atoi\<close> for the 64-bit \<open>int\<close>. \<open>Atoi\<close> returns a value and an error: 0
  on a syntax error, the nearest bound on a range error. Digits are read left to right and the
  scan stops where the value no longer fits an unsigned 64-bit integer.
\<close>

datatype num_error = ErrSyntax | ErrRange

definition digit_char :: "nat \<Rightarrow> char" where
  "digit_char d = char_of (48 + d)"

definition digit_val :: "char \<Rightarrow> nat option" where
  "digit_val c = (let n = (of_char c :: nat) in if 48 \<le> n \<and> n \<le> 57 then Some (n - 48) else None)"

fun itoa_nat :: "nat \<Rightarrow> string" where
  "itoa_nat n = (if n < 10 then [digit_char n] else itoa_nat (n div 10) @ [digit_char (n mod 10)])"

declare itoa_nat.simps [simp del]

definition Itoa :: "int \<Rightarrow> string" where
  "Itoa i = (if i < 0 then CHR ''-'' # itoa_nat (nat (- i)) else itoa_nat (nat i))"

fun scan_digits :: "nat \<Rightarrow> string \<Rightarrow> num_error + nat" where
  "scan_digits acc [] = Inr acc"
| "scan_digits acc (c # s) =
     (case digit_val c of
        None \<Rightarrow> Inl ErrSyntax
      | Some d \<Rightarrow> (let n = 10 * acc + d in if n \<ge> 2 ^ 64 then Inl ErrRange else scan_digits n s))"

definition int_min :: int where "int_min = - (2 ^ 63)"
definition int_max :: int where "int_max = 2 ^ 63 - 1"

definition ParseInt :: "bool \<Rightarrow> string \<Rightarrow> int \<times> num_error option" where
  "ParseInt neg s =
     (if s = [] then (0, Some ErrSyntax)
      else case scan_digits 0 s of
          Inl ErrSyntax \<Rightarrow> (0, Some ErrSyntax)
        | Inl ErrRange \<Rightarrow> (if neg then int_min else int_max, Some ErrRange)
        | Inr n \<Rightarrow>
            (if \<not> neg \<and> int n > int_max then (int_max, Some ErrRange)
             else if neg \<and> - int n < int_min then (int_min, Some ErrRange)
             else (if neg then - int n else int n, None)))"

definition Atoi :: "string \<Rightarrow> int \<times> num_error option" where
  "Atoi s =
     (case s of
        [] \<Rightarrow> (0, Some ErrSyntax)
      | c # r \<Rightarrow> if c = CHR ''-'' then ParseInt True r
                else if c = CHR ''+'' then ParseInt False r
                else ParseInt False s)"

text \<open>The text of a conversion error of \<open>strconv.Atoi\<close>; \<open>Quote\<close> stands for \<open>strconv.Quote\<close>.\<close>

definition atoi_error :: "(string \<Rightarrow> string) \<Rightarrow> string \<Rightarrow> num_error \<Rightarrow> string" where
  "atoi_error Quote s e =
     ''strconv.Atoi: parsing '' @ Quote s @ '': '' @
     (case e of ErrSyntax \<Rightarrow> ''invalid syntax'' | ErrRange \<Rightarrow> ''value out of range'')"

lemma digit_val_digit_char [go_number]: "d < 10 \<Longrightarrow> digit_val (digit_char d) = Some d"
  by (simp add: digit_val_def digit_char_def)

lemma digit_char_simps [simp]:
  "digit_char 0 = CHR ''0''" "digit_char 1 = CHR ''1''" "digit_char (Suc 0) = CHR ''1''"
  "digit_char 2 = CHR ''2''" "digit_char 3 = CHR ''3''" "digit_char 4 = CHR ''4''"
  "digit_char 5 = CHR ''5''" "digit_char 6 = CHR ''6''" "digit_char 7 = CHR ''7''"
  "digit_char 8 = CHR ''8''" "digit_char 9 = CHR ''9''"
  by (simp_all add: digit_char_def char_of_def bit_Suc_0_iff)

lemma digit_val_digits:
  "digit_val CHR ''0'' = Some 0" "digit_val CHR ''1'' = Some 1" "digit_val CHR ''2'' = Some 2"
  "digit_val CHR ''3'' = Some 3" "digit_val CHR ''4'' = Some 4" "digit_val CHR ''5'' = Some 5"
  "digit_val CHR ''6'' = Some 6" "digit_val CHR ''7'' = Some 7" "digit_val CHR ''8'' = Some 8"
  "digit_val CHR ''9'' = Some 9" "digit_val CHR ''.'' = None" "digit_val CHR ''/'' = None"
  by (simp_all add: digit_val_def)

lemma digit_char_code: "d < 10 \<Longrightarrow> of_char (digit_char d) = 48 + d"
  by (simp add: digit_char_def)

lemma itoa_nat_not_Nil [simp]: "itoa_nat n \<noteq> []"
  by (subst itoa_nat.simps) simp

lemma itoa_nat_digits: "c \<in> set (itoa_nat n) \<Longrightarrow> \<exists>d<10. c = digit_char d"
proof (induction n rule: itoa_nat.induct)
  case (1 n)
  show ?case
  proof (cases "n < 10")
    case True
    with "1.prems" show ?thesis by (subst (asm) itoa_nat.simps) auto
  next
    case False
    with "1.prems" have "c \<in> set (itoa_nat (n div 10)) \<or> c = digit_char (n mod 10)"
      by (subst (asm) itoa_nat.simps) auto
    with "1.IH" False show ?thesis by (metis mod_less_divisor zero_less_numeral)
  qed
qed

lemma itoa_nat_no_char:
  assumes "of_char c < (48::nat) \<or> 57 < (of_char c :: nat)"
  shows "c \<notin> set (itoa_nat n)"
proof
  assume "c \<in> set (itoa_nat n)"
  then obtain d where "d < 10" "c = digit_char d" by (blast dest: itoa_nat_digits)
  then have "of_char c = 48 + d" by (simp add: digit_char_code)
  with assms \<open>d < 10\<close> show False by simp
qed

text \<open>Reading back what was printed, with any rest after it.\<close>

lemma scan_digits_append:
  "scan_digits acc (s @ t) =
     (case scan_digits acc s of Inl e \<Rightarrow> Inl e | Inr n \<Rightarrow> scan_digits n t)"
  by (induction s arbitrary: acc) (auto simp: Let_def split: option.splits)

lemma scan_digits_itoa_nat [go_number]: "n < 2 ^ 64 \<Longrightarrow> scan_digits 0 (itoa_nat n) = Inr n"
proof (induction n rule: itoa_nat.induct)
  case (1 n)
  show ?case
  proof (cases "n < 10")
    case True
    with "1.prems" show ?thesis by (subst itoa_nat.simps) (simp add: go_number)
  next
    case False
    with "1" have "scan_digits 0 (itoa_nat (n div 10)) = Inr (n div 10)" by simp
    moreover have "10 * (n div 10) + n mod 10 = n" by simp
    ultimately show ?thesis using False "1.prems"
      by (subst itoa_nat.simps) (simp add: scan_digits_append digit_val_digit_char Let_def)
  qed
qed

lemma Atoi_Itoa:
  assumes "int_min \<le> i" and "i \<le> int_max"
  shows "Atoi (Itoa i) = (i, None)"
proof (cases "i < 0")
  case True
  then have "nat (- i) < 2 ^ 64" using assms by (simp add: int_min_def nat_less_iff)
  then show ?thesis using True assms
    by (simp add: Itoa_def Atoi_def ParseInt_def scan_digits_itoa_nat)
next
  case False
  then have lt: "nat i < 2 ^ 64" using assms by (simp add: int_max_def nat_less_iff)
  obtain c r where cr: "itoa_nat (nat i) = c # r" by (cases "itoa_nat (nat i)") auto
  have "CHR ''-'' \<notin> set (itoa_nat (nat i))" "CHR ''+'' \<notin> set (itoa_nat (nat i))"
    by (rule itoa_nat_no_char, simp)+
  with cr have "c \<noteq> CHR ''-''" "c \<noteq> CHR ''+''" by auto
  then show ?thesis using False assms lt cr scan_digits_itoa_nat [OF lt]
    by (simp add: Itoa_def Atoi_def ParseInt_def)
qed

lemma itoa_nat_inj: "m < 2 ^ 64 \<Longrightarrow> n < 2 ^ 64 \<Longrightarrow> itoa_nat m = itoa_nat n \<Longrightarrow> m = n"
  by (metis scan_digits_itoa_nat sum.inject(2))

text \<open>\<open>strconv.ParseBool\<close>; \<^term>\<open>None\<close> is its error, with which it returns false.\<close>

definition ParseBool :: "string \<Rightarrow> bool option" where
  "ParseBool s =
     (if s \<in> set [''1'', ''t'', ''T'', ''TRUE'', ''true'', ''True''] then Some True
      else if s \<in> set [''0'', ''f'', ''F'', ''FALSE'', ''false'', ''False''] then Some False
      else None)"

section \<open>Times\<close>

text \<open>
  A \<open>time.Time\<close> is its distance in nanoseconds from the zero time (year 1), so the zero value is
  0 and \<open>IsZero\<close> compares with it. \<open>Sub\<close> saturates at the bounds of the 64-bit \<open>Duration\<close>.
\<close>

type_synonym gotime = int

definition IsZero :: "gotime \<Rightarrow> bool" where
  "IsZero t \<longleftrightarrow> t = 0"

definition time_Sub :: "gotime \<Rightarrow> gotime \<Rightarrow> int" where
  "time_Sub t u = max int_min (min int_max (t - u))"

text \<open>\<open>time.NewTicker\<close>, here its interval; \<^term>\<open>None\<close> is the panic on one that is not positive.\<close>

definition NewTicker :: "int \<Rightarrow> int option" where
  "NewTicker d = (if d \<le> 0 then None else Some d)"

lemma time_Sub_exact: "int_min \<le> t - u \<Longrightarrow> t - u \<le> int_max \<Longrightarrow> time_Sub t u = t - u"
  by (simp add: time_Sub_def)

lemma finite_order: "finite (dom m) \<Longrightarrow> \<exists>xs. map_order xs m"
  using finite_distinct_list [of "dom m"] by (auto simp: map_order_def)

text \<open>\<open>strings.ToLower\<close> of an ASCII text.\<close>

definition ToLower :: "string \<Rightarrow> string" where
  "ToLower s =
     map (\<lambda>c. let n = of_char c :: nat in if 65 \<le> n \<and> n \<le> 90 then char_of (n + 32) else c) s"

end
