(* ===== verification/Comm.thy ===== *)
theory Comm
  imports Go_Prelude
begin

text \<open>
  \<open>src/comm/message.go\<close>: the messages that the core, the providers and the provisioners
  exchange, and the service definitions they carry. The fields that hold a Go slice are nil-able
  (\<^typ>\<open>'a slice\<close>), so equality on them is \<open>reflect.DeepEqual\<close>.
\<close>

section \<open>Data\<close>

definition AddAction :: string where "AddAction = ''add''"
definition UpdateAction :: string where "UpdateAction = ''update''"
definition DeleteAction :: string where "DeleteAction = ''delete''"
definition RefreshAction :: string where "RefreshAction = ''refresh''"

lemmas action_defs = AddAction_def UpdateAction_def DeleteAction_def RefreshAction_def

lemma action_distinct [simp]:
  "AddAction \<noteq> UpdateAction" "AddAction \<noteq> DeleteAction" "AddAction \<noteq> RefreshAction"
  "UpdateAction \<noteq> AddAction" "UpdateAction \<noteq> DeleteAction" "UpdateAction \<noteq> RefreshAction"
  "DeleteAction \<noteq> AddAction" "DeleteAction \<noteq> UpdateAction" "DeleteAction \<noteq> RefreshAction"
  "RefreshAction \<noteq> AddAction" "RefreshAction \<noteq> UpdateAction" "RefreshAction \<noteq> DeleteAction"
  by (simp_all add: action_defs)

record Target =
  tgt_Host :: string
  tgt_Port :: "32 word"
  tgt_Weight :: int

record Service =
  svc_Provider :: string
  svc_Name :: string
  svc_Targets :: "Target slice"
  svc_TLS :: bool
  svc_PublicIP :: string
  svc_DNSAliases :: "string slice"

record Message =
  msg_Action :: string
  msg_Sender :: string
  msg_Destination :: string
  msg_Error :: string
  msg_Service :: Service

text \<open>The zero values of the Go structs.\<close>

definition zero_Service :: Service where
  "zero_Service = \<lparr>svc_Provider = '''', svc_Name = '''', svc_Targets = None, svc_TLS = False,
     svc_PublicIP = '''', svc_DNSAliases = None\<rparr>"

definition zero_Message :: Message where
  "zero_Message = \<lparr>msg_Action = '''', msg_Sender = '''', msg_Destination = '''', msg_Error = '''',
     msg_Service = zero_Service\<rparr>"

section \<open>Operations\<close>

text \<open>
  \<open>SetTargetWeight\<close> counts how often each \<open>host:port\<close> occurs and replaces the targets by one per
  key, in the iteration order of the count map. \<open>hp[1]\<close> exists because a key holds a colon
  (lemma \<open>target_key_pieces\<close>).
\<close>

definition target_key :: "Target \<Rightarrow> string" where
  "target_key t = tgt_Host t @ '':'' @ Itoa (uint (tgt_Port t))"

definition count_key :: "(string \<rightharpoonup> int) \<Rightarrow> string \<Rightarrow> (string \<rightharpoonup> int)" where
  "count_key wl k = wl(k \<mapsto> (case wl k of None \<Rightarrow> 0 | Some w \<Rightarrow> w) + 1)"

definition weight_map :: "Target list \<Rightarrow> (string \<rightharpoonup> int)" where
  "weight_map ts = foldl (\<lambda>wl t. count_key wl (target_key t)) Map.empty ts"

definition target_of_key :: "string \<Rightarrow> int \<Rightarrow> Target" where
  "target_of_key h w =
     (let hp = Split CHR '':'' h; p = fst (Atoi (hp ! 1))
      in \<lparr>tgt_Host = hp ! 0, tgt_Port = word_of_int p, tgt_Weight = w\<rparr>)"

definition SetTargetWeight :: "string list \<Rightarrow> Message \<Rightarrow> Message" where
  "SetTargetWeight order m =
     (let wl = weight_map (elems (svc_Targets (msg_Service m)));
          wt = foldl (\<lambda>wt h. append_slice wt (target_of_key h (the (wl h)))) None order
      in m\<lparr>msg_Service := (msg_Service m)\<lparr>svc_Targets := wt\<rparr>\<rparr>)"

definition target_orders :: "Message \<Rightarrow> string list \<Rightarrow> bool" where
  "target_orders m order = map_order order (weight_map (elems (svc_Targets (msg_Service m))))"

definition BuildMessage :: "Service \<Rightarrow> bool \<Rightarrow> Message" where
  "BuildMessage service reverse =
     (let msg = zero_Message\<lparr>msg_Action := (if reverse then DeleteAction else AddAction)\<rparr>
      in msg\<lparr>msg_Service := service\<rparr>)"

definition IsSameThan :: "Service \<Rightarrow> Service \<Rightarrow> bool \<times> string slice" where
  "IsSameThan s target =
     (let diff = None;
          diff = (if svc_DNSAliases s \<noteq> svc_DNSAliases target
                  then append_slice diff ''DNSNames'' else diff);
          diff = (if svc_TLS s \<noteq> svc_TLS target then append_slice diff ''TLS'' else diff);
          diff = (if svc_Targets s \<noteq> svc_Targets target
                  then append_slice diff ''Targets'' else diff)
      in if length (elems diff) > 0 then (False, diff) else (True, None))"

definition BuildDeleteMessage :: "string \<Rightarrow> Message" where
  "BuildDeleteMessage svcName =
     zero_Message\<lparr>msg_Action := DeleteAction, msg_Service := zero_Service\<lparr>svc_Name := svcName\<rparr>\<rparr>"

section \<open>Comparison and construction\<close>

lemma IsSameThan_fst [simp]:
  "fst (IsSameThan s t) \<longleftrightarrow>
     svc_DNSAliases s = svc_DNSAliases t \<and> svc_TLS s = svc_TLS t \<and> svc_Targets s = svc_Targets t"
  by (simp add: IsSameThan_def Let_def)

lemma IsSameThan_snd:
  "set (elems (snd (IsSameThan s t))) =
     {f. f = ''DNSNames'' \<and> svc_DNSAliases s \<noteq> svc_DNSAliases t \<or>
         f = ''TLS'' \<and> svc_TLS s \<noteq> svc_TLS t \<or>
         f = ''Targets'' \<and> svc_Targets s \<noteq> svc_Targets t}"
  by (auto simp: IsSameThan_def Let_def)

lemma BuildMessage_simps [simp]:
  "msg_Action (BuildMessage s r) = (if r then DeleteAction else AddAction)"
  "msg_Service (BuildMessage s r) = s"
  "msg_Sender (BuildMessage s r) = ''''"
  "msg_Destination (BuildMessage s r) = ''''"
  "msg_Error (BuildMessage s r) = ''''"
  by (simp_all add: BuildMessage_def Let_def zero_Message_def)

lemma BuildDeleteMessage_simps [simp]:
  "msg_Action (BuildDeleteMessage n) = DeleteAction"
  "svc_Name (msg_Service (BuildDeleteMessage n)) = n"
  "msg_Error (BuildDeleteMessage n) = ''''"
  "svc_Targets (msg_Service (BuildDeleteMessage n)) = None"
  "svc_DNSAliases (msg_Service (BuildDeleteMessage n)) = None"
  by (simp_all add: BuildDeleteMessage_def zero_Message_def zero_Service_def)

section \<open>Target weights\<close>

text \<open>Keys: a port prints to digits only, so a colon-free host is read back, and so is the port.\<close>

lemma colon_notin_Itoa_port [simp]: "CHR '':'' \<notin> set (Itoa (uint (p :: 32 word)))"
  by (simp add: Itoa_def itoa_nat_no_char)

lemma Atoi_port [simp]: "fst (Atoi (Itoa (uint (p :: 32 word)))) = uint p"
proof -
  have "uint p < 2 ^ 32" using uint_lt2p [of p] by simp
  then have "int_min \<le> uint p" "uint p \<le> int_max" by (simp_all add: int_min_def int_max_def order_trans [OF _ uint_ge_0])
  then show ?thesis by (simp add: Atoi_Itoa)
qed

lemma target_key_pieces: "length (Split CHR '':'' (target_key t)) \<ge> 2"
proof -
  have "length (Split CHR '':'' (h @ CHR '':'' # s)) \<ge> 2" for h s
  proof (induction h)
    case Nil
    show ?case by (simp add: Suc_le_eq)
  next
    case (Cons c h)
    then show ?case by (auto split: list.splits)
  qed
  then show ?thesis by (simp add: target_key_def)
qed

lemma target_of_key_target_key:
  assumes "CHR '':'' \<notin> set (tgt_Host t)"
  shows "target_of_key (target_key t) w = t\<lparr>tgt_Weight := w\<rparr>"
proof -
  have "Split CHR '':'' (target_key t) = [tgt_Host t, Itoa (uint (tgt_Port t))]"
    using assms by (simp add: target_key_def Split_append_sep Split_no_sep)
  then show ?thesis by (simp add: target_of_key_def)
qed

lemma target_key_inj:
  assumes "CHR '':'' \<notin> set (tgt_Host t)" "CHR '':'' \<notin> set (tgt_Host u)"
  shows "target_key t = target_key u \<longleftrightarrow> tgt_Host t = tgt_Host u \<and> tgt_Port t = tgt_Port u"
proof
  assume "target_key t = target_key u"
  then have "t\<lparr>tgt_Weight := 0\<rparr> = u\<lparr>tgt_Weight := 0\<rparr>"
    using assms target_of_key_target_key by metis
  then show "tgt_Host t = tgt_Host u \<and> tgt_Port t = tgt_Port u"
    by (metis Target.select_convs(1,2) Target.surjective Target.update_convs(3))
qed (simp add: target_key_def)

lemma weight_map_snoc:
  "weight_map (ts @ [t]) = count_key (weight_map ts) (target_key t)"
  by (simp add: weight_map_def)

lemma weight_map_count:
  "weight_map ts k =
     (if k \<in> target_key ` set ts then Some (int (count_list (map target_key ts) k)) else None)"
proof (induction ts rule: rev_induct)
  case Nil
  show ?case by (simp add: weight_map_def)
next
  case (snoc t ts)
  then show ?case
    by (auto simp: weight_map_snoc count_key_def count_list_0_iff)
qed

lemma dom_weight_map [simp]: "dom (weight_map ts) = target_key ` set ts"
  by (auto simp: dom_def weight_map_count)

lemma finite_weight_map: "finite (dom (weight_map ts))"
  by simp

lemma target_orders_exist: "\<exists>order. target_orders m order"
  unfolding target_orders_def by (rule finite_order [OF finite_weight_map])

lemma SetTargetWeight_targets:
  "elems (svc_Targets (msg_Service (SetTargetWeight order m))) =
     map (\<lambda>h. target_of_key h (the (weight_map (elems (svc_Targets (msg_Service m))) h))) order"
  by (simp add: SetTargetWeight_def Let_def elems_foldl_append)

text \<open>Only the targets change.\<close>

lemma SetTargetWeight_frame [simp]:
  "msg_Action (SetTargetWeight order m) = msg_Action m"
  "msg_Sender (SetTargetWeight order m) = msg_Sender m"
  "msg_Destination (SetTargetWeight order m) = msg_Destination m"
  "msg_Error (SetTargetWeight order m) = msg_Error m"
  "svc_Name (msg_Service (SetTargetWeight order m)) = svc_Name (msg_Service m)"
  "svc_TLS (msg_Service (SetTargetWeight order m)) = svc_TLS (msg_Service m)"
  "svc_DNSAliases (msg_Service (SetTargetWeight order m)) = svc_DNSAliases (msg_Service m)"
  "svc_PublicIP (msg_Service (SetTargetWeight order m)) = svc_PublicIP (msg_Service m)"
  by (simp_all add: SetTargetWeight_def Let_def)

section \<open>Properties\<close>

definition same_endpoint :: "Target \<Rightarrow> Target \<Rightarrow> bool" where
  "same_endpoint t u \<longleftrightarrow> tgt_Host u = tgt_Host t \<and> tgt_Port u = tgt_Port t"

definition plain_hosts :: "Message \<Rightarrow> bool" where
  "plain_hosts m \<longleftrightarrow> (\<forall>t\<in>set (elems (svc_Targets (msg_Service m))). CHR '':'' \<notin> set (tgt_Host t))"

lemma plain_hostsD:
  "plain_hosts m \<Longrightarrow> t \<in> set (elems (svc_Targets (msg_Service m))) \<Longrightarrow> CHR '':'' \<notin> set (tgt_Host t)"
  by (simp add: plain_hosts_def)

lemma count_key_endpoint:
  assumes "plain_hosts m" and "t \<in> set (elems (svc_Targets (msg_Service m)))"
  defines "ts \<equiv> elems (svc_Targets (msg_Service m))"
  shows "weight_map ts (target_key t) = Some (int (length (filter (same_endpoint t) ts)))"
proof -
  have "filter (\<lambda>u. target_key u = target_key t) ts = filter (same_endpoint t) ts"
  proof (rule filter_cong [OF refl])
    fix u assume "u \<in> set ts"
    then show "target_key u = target_key t \<longleftrightarrow> same_endpoint t u"
      using target_key_inj plain_hostsD [OF assms(1)] assms(2)
      by (simp add: ts_def same_endpoint_def)
  qed
  moreover have "count_list (map target_key ts) k = length (filter (\<lambda>u. target_key u = k) ts)" for k
    by (induction ts) auto
  ultimately show ?thesis using assms(2) by (auto simp: weight_map_count ts_def)
qed

lemma SetTargetWeight_set:
  assumes "plain_hosts m" and "target_orders m order"
  defines "ts \<equiv> elems (svc_Targets (msg_Service m))"
  shows "set (elems (svc_Targets (msg_Service (SetTargetWeight order m)))) =
     (\<lambda>t. t\<lparr>tgt_Weight := int (length (filter (same_endpoint t) ts))\<rparr>) ` set ts"
proof -
  have "set order = target_key ` set ts"
    using assms(2) by (simp add: target_orders_def map_order_def ts_def)
  moreover have "target_of_key (target_key t) (the (weight_map ts (target_key t))) =
      t\<lparr>tgt_Weight := int (length (filter (same_endpoint t) ts))\<rparr>" if "t \<in> set ts" for t
    using that assms(1) count_key_endpoint [of m t]
    by (simp add: target_of_key_target_key plain_hostsD ts_def)
  ultimately show ?thesis
    by (simp add: SetTargetWeight_targets image_image flip: ts_def)
qed

lemma SetTargetWeight_keys:
  assumes "plain_hosts m" and "target_orders m order"
  shows "map target_key (elems (svc_Targets (msg_Service (SetTargetWeight order m)))) = order"
proof -
  have "target_key (target_of_key h w) = h" if "h \<in> set order" for h w
  proof -
    from that assms(2) obtain t
      where "t \<in> set (elems (svc_Targets (msg_Service m)))" "h = target_key t"
      by (auto simp: target_orders_def map_order_def)
    then show ?thesis using assms(1)
      by (simp add: target_of_key_target_key plain_hostsD) (simp add: target_key_def)
  qed
  then show ?thesis by (simp add: SetTargetWeight_targets o_def map_idI)
qed

text \<open>
  C17. \<open>SetTargetWeight\<close> on targets whose hosts hold no colon: whatever order the count map is
  iterated in, the resulting targets have pairwise different keys, and they are the message's
  targets without duplicates, each with the number of its occurrences as its weight.
\<close>

theorem SetTargetWeight_counts:
  assumes "plain_hosts m" and "target_orders m order"
  defines "ts \<equiv> elems (svc_Targets (msg_Service m))"
    and "ts' \<equiv> elems (svc_Targets (msg_Service (SetTargetWeight order m)))"
  shows "distinct (map target_key ts') \<and>
    set ts' = (\<lambda>t. t\<lparr>tgt_Weight := int (length (filter (same_endpoint t) ts))\<rparr>) ` set ts"
  using assms(2) SetTargetWeight_set [OF assms(1,2)] SetTargetWeight_keys [OF assms(1,2)]
  by (simp add: ts_def ts'_def target_orders_def map_order_def)

definition two_targets :: Message where
  "two_targets = zero_Message\<lparr>msg_Service := zero_Service\<lparr>svc_Targets := Some
     [\<lparr>tgt_Host = ''a'', tgt_Port = 8080, tgt_Weight = 0\<rparr>,
      \<lparr>tgt_Host = ''b'', tgt_Port = 8080, tgt_Weight = 0\<rparr>,
      \<lparr>tgt_Host = ''a'', tgt_Port = 8080, tgt_Weight = 0\<rparr>]\<rparr>\<rparr>"

lemma two_targets_ok:
  "plain_hosts two_targets" "target_orders two_targets [''b:8080'', ''a:8080'']"
  "target_orders two_targets [''a:8080'', ''b:8080'']"
proof -
  have "itoa_nat 8080 = ''8080''" by (simp add: itoa_nat.simps)
  then show "target_orders two_targets [''b:8080'', ''a:8080'']"
    "target_orders two_targets [''a:8080'', ''b:8080'']"
    by (auto simp: two_targets_def target_orders_def map_order_def target_key_def Itoa_def)
qed (simp add: two_targets_def plain_hosts_def)

theorem SetTargetWeight_counts_witness:
  "set (elems (svc_Targets (msg_Service (SetTargetWeight [''b:8080'', ''a:8080''] two_targets)))) =
     {\<lparr>tgt_Host = ''a'', tgt_Port = 8080, tgt_Weight = 2\<rparr>,
      \<lparr>tgt_Host = ''b'', tgt_Port = 8080, tgt_Weight = 1\<rparr>}"
proof -
  note c = SetTargetWeight_counts [OF two_targets_ok(1,2), THEN conjunct2]
  show ?thesis unfolding c by (auto simp: two_targets_def same_endpoint_def)
qed

text \<open>
  The iteration order of the count map is unspecified, and \<open>IsSameThan\<close> compares target lists
  position by position: for a service with at least two endpoints, one and the same definition
  sent twice can be normalised to two messages that \<open>IsSameThan\<close> reports as different.
\<close>

theorem SetTargetWeight_order_visible:
  assumes "plain_hosts m" and "target_orders m order" and "length order \<ge> 2"
  shows "target_orders m (rev order) \<and>
    \<not> fst (IsSameThan (msg_Service (SetTargetWeight order m))
                       (msg_Service (SetTargetWeight (rev order) m)))"
proof -
  have rev: "target_orders m (rev order)" using assms(2) by (simp add: target_orders_def map_order_def)
  obtain x y zs where o: "order = x # y # zs" using assms(3)
    by (metis Suc_le_length_iff numeral_2_eq_2)
  have "rev order \<noteq> order"
  proof
    assume "rev order = order"
    then have "last order = x" using o by (metis last_rev list.sel(1))
    moreover have "x \<notin> set (y # zs)" using assms(2) o by (auto simp: target_orders_def map_order_def)
    ultimately show False using o by (metis last.simps last_in_set list.distinct(1))
  qed
  then show ?thesis using rev SetTargetWeight_keys [OF assms(1,2)] SetTargetWeight_keys [OF assms(1) rev]
    by auto
qed

theorem SetTargetWeight_order_visible_witness:
  "\<not> fst (IsSameThan (msg_Service (SetTargetWeight [''a:8080'', ''b:8080''] two_targets))
                      (msg_Service (SetTargetWeight (rev [''a:8080'', ''b:8080'']) two_targets)))"
  using SetTargetWeight_order_visible [OF two_targets_ok(1,3)] by simp

text \<open>
  A host that holds a colon (an IPv6 address) is cut at its first colon: no target of the
  normalised message has that host, so the backend is lost.
\<close>

theorem SetTargetWeight_colon_host_lost:
  assumes "target_orders m order" and "CHR '':'' \<in> set h"
  shows "\<forall>t'\<in>set (elems (svc_Targets (msg_Service (SetTargetWeight order m)))). tgt_Host t' \<noteq> h"
proof
  fix t' assume "t' \<in> set (elems (svc_Targets (msg_Service (SetTargetWeight order m))))"
  then obtain k w where "t' = target_of_key k w" by (auto simp: SetTargetWeight_targets)
  then have "tgt_Host t' = Split CHR '':'' k ! 0" by (simp add: target_of_key_def Let_def)
  moreover have "Split CHR '':'' k ! 0 \<in> set (Split CHR '':'' k)"
    by (intro nth_mem) simp
  ultimately have "CHR '':'' \<notin> set (tgt_Host t')" by (metis Split_pieces_no_sep)
  with assms(2) show "tgt_Host t' \<noteq> h" by auto
qed

definition ipv6_target :: Message where
  "ipv6_target = zero_Message\<lparr>msg_Service := zero_Service\<lparr>svc_Targets := Some
     [\<lparr>tgt_Host = ''::1'', tgt_Port = 80, tgt_Weight = 0\<rparr>]\<rparr>\<rparr>"

theorem SetTargetWeight_colon_host_lost_witness:
  "''::1'' \<in> tgt_Host ` set (elems (svc_Targets (msg_Service ipv6_target))) \<and>
   ''::1'' \<notin> tgt_Host ` set (elems (svc_Targets (msg_Service (SetTargetWeight [''::1:80''] ipv6_target))))"
proof -
  have "itoa_nat 80 = ''80''" by (simp add: itoa_nat.simps)
  then have "target_orders ipv6_target [''::1:80'']"
    by (auto simp: ipv6_target_def target_orders_def map_order_def target_key_def Itoa_def)
  from SetTargetWeight_colon_host_lost [OF this, of "''::1''"] show ?thesis
    by (auto simp: ipv6_target_def)
qed

end
