(* ===== verification/Workflow.thy ===== *)
theory Workflow
  imports Comm
begin

text \<open>
  \<open>src/core/workflow.go\<close>: the sequence of steps a service follows (\<open>workflowSteps\<close>) and the
  tracked service (\<open>workflowEntry\<close>). \<open>getNextStep\<close> calls itself to skip providers and does not
  return on some step lists, so it is a partial function: \<^term>\<open>None\<close> is a call that never returns.
  The second half relates the step list of a configuration to the plain list of its names
  (\<open>chain\<close>) and states the navigation over it as an interface.
\<close>

section \<open>Workflow steps\<close>

definition deployedState :: string where "deployedState = ''deployed''"
definition undeployedState :: string where "undeployedState = ''undeployed''"

lemma state_distinct [simp]:
  "deployedState \<noteq> undeployedState" "undeployedState \<noteq> deployedState"
  "deployedState \<noteq> ''''" "undeployedState \<noteq> ''''"
  by (simp_all add: deployedState_def undeployedState_def)

text \<open>
  The implementations of the interface \<open>transition\<close> (\<open>src/core/transition.go\<close>). A value of the
  interface may be nil, which is \<^term>\<open>None\<close>.
\<close>

datatype transition =
  providerState | providerAddState | providerDeleteState | provisionerState | closeState

record workflowStep =
  step_ID :: int
  step_Name :: string
  step_Transition :: "transition option"

type_synonym workflowSteps = "workflowStep list"

fun config_steps :: "int \<Rightarrow> string list \<Rightarrow> workflowSteps" where
  "config_steps k [] = []"
| "config_steps k (v # vs) =
     (let extType = Split CHR ''.'' v ! 0
      in \<lparr>step_ID = k + 1, step_Name = v,
          step_Transition = Some (if extType = ''provider'' then providerState else provisionerState)\<rparr>
         # config_steps (k + 1) vs)"

definition initWorkflow :: "string \<Rightarrow> workflowSteps" where
  "initWorkflow workflowConfig =
     (let wf = config_steps 0 (Split CHR '','' workflowConfig);
          wf = wf @ [\<lparr>step_ID = 0, step_Name = undeployedState, step_Transition = Some closeState\<rparr>]
      in wf @ [\<lparr>step_ID = int (length wf), step_Name = deployedState, step_Transition = Some closeState\<rparr>])"

definition isLastStep :: "workflowSteps \<Rightarrow> string \<Rightarrow> bool \<Rightarrow> bool" where
  "isLastStep w step reverse =
     (let i = (if \<not> reverse then int (length w) - 1 else 0);
          lastStep = (case last_match (\<lambda>s. step_ID s = i) step_Name w of None \<Rightarrow> '''' | Some n \<Rightarrow> n)
      in step = lastStep)"

definition getTransition :: "workflowSteps \<Rightarrow> string \<Rightarrow> transition option" where
  "getTransition w step =
     (case find (\<lambda>s. step_Name s = step) w of None \<Rightarrow> None | Some s \<Rightarrow> step_Transition s)"

text \<open>The result is Go's triple of the step's name, its transition and an error.\<close>

type_synonym next_result = "string \<times> transition option \<times> string option"

partial_function (option) getNextStep :: "workflowSteps \<Rightarrow> string \<Rightarrow> bool \<Rightarrow> next_result option" where
  "getNextStep w currentStep reverse =
     (case last_match (\<lambda>v. step_Name v = currentStep) step_ID w of
        None \<Rightarrow> Some ('''', None, Some ''could not find currentStep in workflow'')
      | Some stepID \<Rightarrow>
          (case last_match (\<lambda>s. step_ID s = (if reverse then stepID - 1 else stepID + 1))
                  (\<lambda>s. (step_Name s, step_Transition s)) w of
             None \<Rightarrow> Some ('''', None, Some ''could not find nextStep currentStep in workflow'')
           | Some (nextStep, next) \<Rightarrow>
               if HasPrefix nextStep ''provider.'' then
                 Option.bind (getNextStep w nextStep reverse) (\<lambda>(n, t, e). Some (n, t, None))
               else Some (nextStep, next, None)))"

section \<open>Tracked services\<close>

record workflowEntry =
  we_WorkInProgress :: bool
  we_WIPTime :: gotime
  we_State :: string
  we_ExpectedState :: string
  we_Info :: string
  we_Error :: string
  we_TimeDetected :: gotime
  we_LastUpdate :: gotime
  we_Service :: Service
  we_CloseTime :: gotime
  we_transition :: "transition option"

definition zero_entry :: workflowEntry where
  "zero_entry = \<lparr>we_WorkInProgress = False, we_WIPTime = 0, we_State = '''', we_ExpectedState = '''',
     we_Info = '''', we_Error = '''', we_TimeDetected = 0, we_LastUpdate = 0,
     we_Service = zero_Service, we_CloseTime = 0, we_transition = None\<rparr>"

definition isReverse :: "workflowEntry \<Rightarrow> bool" where
  "isReverse e = (if we_ExpectedState e = undeployedState then True else False)"

definition setError :: "string \<Rightarrow> workflowEntry \<Rightarrow> workflowEntry" where
  "setError err e = e\<lparr>we_Error := err\<rparr>"

definition setWIP :: "gotime \<Rightarrow> bool \<Rightarrow> workflowEntry \<Rightarrow> workflowEntry" where
  "setWIP now wip e =
     (let e = (if wip then e\<lparr>we_WIPTime := now\<rparr> else e\<lparr>we_WIPTime := 0\<rparr>)
      in e\<lparr>we_WorkInProgress := wip\<rparr>)"

definition setTargetState :: "string \<Rightarrow> workflowEntry \<Rightarrow> workflowEntry" where
  "setTargetState state e = e\<lparr>we_ExpectedState := state\<rparr>"

definition setLastUpdate :: "gotime \<Rightarrow> workflowEntry \<Rightarrow> workflowEntry" where
  "setLastUpdate now e = e\<lparr>we_LastUpdate := now\<rparr>"

definition setTransition :: "workflowSteps \<Rightarrow> string \<Rightarrow> workflowEntry \<Rightarrow> workflowEntry" where
  "setTransition w state e = e\<lparr>we_transition := getTransition w state\<rparr>"

definition setNextStep :: "workflowSteps \<Rightarrow> workflowEntry \<Rightarrow> workflowEntry option" where
  "setNextStep w e =
     Option.bind (getNextStep w (we_State e) (isReverse e))
       (\<lambda>(nextStep, next, err).
          Some (if err \<noteq> None then e
                else e\<lparr>we_State := nextStep, we_transition := next, we_WorkInProgress := False,
                       we_WIPTime := 0, we_CloseTime := 0\<rparr>))"

definition makeNewFlowEntry :: "workflowSteps \<Rightarrow> gotime \<Rightarrow> workflowEntry option" where
  "makeNewFlowEntry w now =
     setNextStep w (zero_entry\<lparr>we_TimeDetected := now, we_State := undeployedState,
                               we_ExpectedState := deployedState\<rparr>)"

definition setState :: "Message \<Rightarrow> bool \<Rightarrow> workflowEntry \<Rightarrow> workflowEntry" where
  "setState msg wip e =
     e\<lparr>we_State := msg_Sender msg, we_WorkInProgress := wip, we_Error := msg_Error msg,
       we_CloseTime := 0\<rparr>"

definition updateService :: "Message \<Rightarrow> workflowEntry \<Rightarrow> workflowEntry" where
  "updateService msg e =
     (let s = we_Service e; m = msg_Service msg;
          s = (if HasPrefix (msg_Sender msg) ''provider.'' \<and> msg_Action msg \<noteq> DeleteAction
               then s\<lparr>svc_Targets := svc_Targets m, svc_TLS := svc_TLS m,
                      svc_DNSAliases := svc_DNSAliases m\<rparr>
               else s);
          s = (if HasPrefix (msg_Sender msg) ''ipam.''
               then s\<lparr>svc_PublicIP := svc_PublicIP m\<rparr> else s);
          s = s\<lparr>svc_Name := svc_Name m\<rparr>
      in e\<lparr>we_Service := s\<rparr>)"

text \<open>\<open>sendToExtension\<close> gives the entry and the message written to the channel \<open>msgToExtension\<close>.\<close>

definition sendToExtension :: "gotime \<Rightarrow> workflowEntry \<Rightarrow> workflowEntry \<times> Message" where
  "sendToExtension now e =
     (let e = setWIP now True e;
          msg = BuildMessage (we_Service e) (isReverse e);
          msg = msg\<lparr>msg_Destination := we_State e\<rparr>
      in (e, msg))"

definition close_entry :: "gotime \<Rightarrow> string \<Rightarrow> workflowEntry \<Rightarrow> workflowEntry" where
  "close_entry now errorMessage e =
     (let e = setWIP now False e;
          e = (if errorMessage \<noteq> '''' then setError errorMessage e else e);
          e = (if isReverse e then e\<lparr>we_State := undeployedState\<rparr> else e\<lparr>we_State := deployedState\<rparr>)
      in e\<lparr>we_CloseTime := now\<rparr>)"

definition isStateAsWanted :: "string \<Rightarrow> workflowEntry \<Rightarrow> bool" where
  "isStateAsWanted action e =
     (if we_ExpectedState e = we_State e \<and>
         (we_State e = deployedState \<and> action = AddAction \<or>
          we_State e = undeployedState \<and> action = DeleteAction)
      then True else False)"

lemmas entry_defs =
  setError_def setWIP_def setTargetState_def setLastUpdate_def setTransition_def setState_def
  sendToExtension_def close_entry_def isStateAsWanted_def isReverse_def Let_def

section \<open>The steps of a configuration\<close>

text \<open>
  \<open>chain\<close> lists the step names by their identifiers, from undeployed to deployed; \<open>kind_of\<close> is the
  transition of a name. A configuration is well formed when these names are pairwise different and
  none is the bare word \<open>provider\<close>, which \<open>initWorkflow\<close> takes for a provider and \<open>getNextStep\<close>
  does not.
\<close>

definition chain :: "string \<Rightarrow> string list" where
  "chain cfg = undeployedState # Split CHR '','' cfg @ [deployedState]"

definition wf_config :: "string \<Rightarrow> bool" where
  "wf_config cfg \<longleftrightarrow> distinct (chain cfg) \<and> ''provider'' \<notin> set (chain cfg)"

definition kind_of :: "string \<Rightarrow> transition" where
  "kind_of s =
     (if s = undeployedState \<or> s = deployedState then closeState
      else if Split CHR ''.'' s ! 0 = ''provider'' then providerState else provisionerState)"

definition is_provider :: "string \<Rightarrow> bool" where
  "is_provider s \<longleftrightarrow> HasPrefix s ''provider.''"

lemma not_provider_states [simp]: "\<not> is_provider deployedState" "\<not> is_provider undeployedState"
  by (simp_all add: is_provider_def HasPrefix_def deployedState_def undeployedState_def)

lemma kind_of_states [simp]:
  "kind_of deployedState = closeState" "kind_of undeployedState = closeState"
  by (simp_all add: kind_of_def)

lemma kind_of_provider: "is_provider s \<Longrightarrow> kind_of s = providerState"
proof -
  assume "is_provider s"
  then obtain r where "s = ''provider'' @ CHR ''.'' # r"
    by (auto simp: is_provider_def HasPrefix_iff)
  moreover from this have "Split CHR ''.'' s = ''provider'' # Split CHR ''.'' r"
    by (simp only:) (rule Split_append_sep, simp)
  ultimately show ?thesis
    by (simp add: kind_of_def deployedState_def undeployedState_def)
qed

lemma length_config_steps [simp]: "length (config_steps k ns) = length ns"
  by (induction ns arbitrary: k) (auto simp: Let_def)

lemma config_steps_nth:
  "i < length ns \<Longrightarrow> config_steps k ns ! i =
     \<lparr>step_ID = k + 1 + int i, step_Name = ns ! i,
      step_Transition = Some (if Split CHR ''.'' (ns ! i) ! 0 = ''provider'' then providerState
                              else provisionerState)\<rparr>"
proof (induction ns arbitrary: k i)
  case Nil
  then show ?case by simp
next
  case (Cons n ns)
  then show ?case by (cases i) (auto simp: Let_def)
qed

lemma length_chain: "length (chain cfg) = length (Split CHR '','' cfg) + 2"
  by (simp add: chain_def)

lemma chain_nth_0 [simp]: "chain cfg ! 0 = undeployedState"
  by (simp add: chain_def)

lemma last_chain [simp]: "last (chain cfg) = deployedState"
  by (simp add: chain_def)

lemma length_initWorkflow: "length (initWorkflow cfg) = length (chain cfg)"
  by (simp add: initWorkflow_def chain_def Let_def)

text \<open>The steps are exactly the chain's names with their positions and kinds.\<close>

definition chain_step :: "string \<Rightarrow> nat \<Rightarrow> workflowStep" where
  "chain_step cfg i =
     \<lparr>step_ID = int i, step_Name = chain cfg ! i, step_Transition = Some (kind_of (chain cfg ! i))\<rparr>"

lemma chain_step_simps [simp]:
  "step_ID (chain_step cfg i) = int i"
  "step_Name (chain_step cfg i) = chain cfg ! i"
  "step_Transition (chain_step cfg i) = Some (kind_of (chain cfg ! i))"
  by (simp_all add: chain_step_def)

lemma config_steps_chain:
  assumes "wf_config cfg"
  shows "config_steps 0 (Split CHR '','' cfg) = map (chain_step cfg) [1..<Suc (length (Split CHR '','' cfg))]"
proof (rule nth_equalityI)
  fix i assume "i < length (config_steps 0 (Split CHR '','' cfg))"
  then have i: "i < length (Split CHR '','' cfg)" by simp
  then have "Split CHR '','' cfg ! i \<in> set (Split CHR '','' cfg)" by simp
  then have "Split CHR '','' cfg ! i \<noteq> undeployedState" "Split CHR '','' cfg ! i \<noteq> deployedState"
    using assms by (auto simp: wf_config_def chain_def)
  then show "config_steps 0 (Split CHR '','' cfg) ! i =
      map (chain_step cfg) [1..<Suc (length (Split CHR '','' cfg))] ! i"
    using i by (simp add: config_steps_nth chain_step_def chain_def nth_append kind_of_def del: upt_Suc)
qed simp

lemma set_initWorkflow:
  assumes "wf_config cfg"
  shows "v \<in> set (initWorkflow cfg) \<longleftrightarrow> (\<exists>i<length (chain cfg). v = chain_step cfg i)"
proof -
  let ?m = "length (Split CHR '','' cfg)"
  have "set (initWorkflow cfg) = chain_step cfg ` ({1..<Suc ?m} \<union> {0, Suc ?m})"
    using assms
    by (simp add: initWorkflow_def Let_def config_steps_chain del: upt_Suc)
      (simp add: chain_step_def chain_def insert_commute)
  moreover have "{1..<Suc ?m} \<union> {0, Suc ?m} = {..<length (chain cfg)}"
    by (auto simp: length_chain)
  ultimately have "set (initWorkflow cfg) = chain_step cfg ` {..<length (chain cfg)}"
    by (simp only:)
  then show ?thesis by (auto simp del: Un_insert_left)
qed

lemma chain_step_in: "wf_config cfg \<Longrightarrow> i < length (chain cfg) \<Longrightarrow> chain_step cfg i \<in> set (initWorkflow cfg)"
  by (auto simp: set_initWorkflow)

lemma workflow_names: "wf_config cfg \<Longrightarrow> step_Name ` set (initWorkflow cfg) = set (chain cfg)"
  unfolding set_eq_iff image_iff Bex_def by (auto simp: set_initWorkflow in_set_conv_nth [of _ "chain cfg"])

lemma chain_nth_inject:
  "wf_config cfg \<Longrightarrow> i < length (chain cfg) \<Longrightarrow> j < length (chain cfg) \<Longrightarrow>
     chain cfg ! i = chain cfg ! j \<longleftrightarrow> i = j"
  by (simp add: wf_config_def nth_eq_iff_index_eq)

lemma step_by_name:
  assumes "wf_config cfg" and "i < length (chain cfg)"
  shows "last_match (\<lambda>v. step_Name v = chain cfg ! i) step_ID (initWorkflow cfg) = Some (int i)"
proof -
  have "last_match (\<lambda>v. step_Name v = chain cfg ! i) step_ID (initWorkflow cfg) =
      Some (step_ID (chain_step cfg i))"
    by (rule last_match_unique)
      (use assms chain_step_in in \<open>auto simp: set_initWorkflow chain_nth_inject\<close>)
  then show ?thesis by simp
qed

lemma no_step_by_name:
  assumes "wf_config cfg" and "s \<notin> set (chain cfg)"
  shows "last_match (\<lambda>v. step_Name v = s) step_ID (initWorkflow cfg) = None"
  using assms by (auto simp: last_match_None_iff set_initWorkflow)

lemma step_by_id:
  assumes "wf_config cfg" and "i < length (chain cfg)"
  shows "last_match (\<lambda>s. step_ID s = int i) f (initWorkflow cfg) = Some (f (chain_step cfg i))"
  by (rule last_match_unique) (use assms chain_step_in in \<open>auto simp: set_initWorkflow\<close>)

lemma no_step_by_id:
  assumes "wf_config cfg" and "i < 0 \<or> i \<ge> int (length (chain cfg))"
  shows "last_match (\<lambda>s. step_ID s = i) f (initWorkflow cfg) = None"
  using assms by (auto simp: last_match_None_iff set_initWorkflow)

lemma getTransition_chain:
  assumes "wf_config cfg"
  shows "getTransition (initWorkflow cfg) s = (if s \<in> set (chain cfg) then Some (kind_of s) else None)"
proof (cases "s \<in> set (chain cfg)")
  case True
  then obtain i where i: "i < length (chain cfg)" "s = chain cfg ! i" by (auto simp: in_set_conv_nth)
  obtain v where v: "find (\<lambda>v. step_Name v = s) (initWorkflow cfg) = Some v"
    using chain_step_in [OF assms i(1)] i(2)
    by (cases "find (\<lambda>v. step_Name v = s) (initWorkflow cfg)") (auto simp: find_None_iff)
  then have "v \<in> set (initWorkflow cfg)" and name: "step_Name v = s"
    by (auto simp: find_Some_iff)
  then obtain j where "v = chain_step cfg j" using assms by (auto simp: set_initWorkflow)
  with name v True show ?thesis by (simp add: getTransition_def)
next
  case False
  then have "find (\<lambda>v. step_Name v = s) (initWorkflow cfg) = None"
    using assms by (auto simp: find_None_iff set_initWorkflow)
  with False show ?thesis by (simp add: getTransition_def)
qed

lemma isLastStep_chain:
  assumes "wf_config cfg"
  shows "isLastStep (initWorkflow cfg) s reverse \<longleftrightarrow>
     s = (if reverse then undeployedState else deployedState)"
proof -
  let ?n = "length (chain cfg) - 1"
  have n: "?n < length (chain cfg)" by (simp add: length_chain)
  moreover have "int (length (initWorkflow cfg)) - 1 = int ?n"
    by (simp add: length_initWorkflow length_chain)
  moreover have "chain cfg ! ?n = deployedState"
    by (metis last_chain last_conv_nth length_0_conv n not_less_zero)
  ultimately show ?thesis
    using step_by_id [OF assms n, of step_Name] step_by_id [OF assms, of 0 step_Name]
    by (auto simp: isLastStep_def Let_def length_chain)
qed

section \<open>Navigation\<close>

text \<open>One call of \<open>getNextStep\<close> at a position of the chain, in each direction.\<close>

lemma getNextStep_succ:
  assumes "wf_config cfg" and "Suc i < length (chain cfg)"
  shows "getNextStep (initWorkflow cfg) (chain cfg ! i) False =
    (if is_provider (chain cfg ! Suc i)
     then Option.bind (getNextStep (initWorkflow cfg) (chain cfg ! Suc i) False)
            (\<lambda>(n, t, e). Some (n, t, None))
     else Some (chain cfg ! Suc i, Some (kind_of (chain cfg ! Suc i)), None))"
  using step_by_name [OF assms(1), of i] step_by_id [OF assms, of "\<lambda>s. (step_Name s, step_Transition s)"] assms(2)
  by (subst getNextStep.simps) (simp add: is_provider_def add.commute)

lemma getNextStep_pred:
  assumes "wf_config cfg" and "Suc i < length (chain cfg)"
  shows "getNextStep (initWorkflow cfg) (chain cfg ! Suc i) True =
    (if is_provider (chain cfg ! i)
     then Option.bind (getNextStep (initWorkflow cfg) (chain cfg ! i) True)
            (\<lambda>(n, t, e). Some (n, t, None))
     else Some (chain cfg ! i, Some (kind_of (chain cfg ! i)), None))"
  using step_by_name [OF assms] step_by_id [OF assms(1), of i "\<lambda>s. (step_Name s, step_Transition s)"] assms(2)
  by (subst getNextStep.simps) (simp add: is_provider_def)

definition no_next :: next_result where
  "no_next = ('''', None, Some ''could not find nextStep currentStep in workflow'')"

definition no_current :: next_result where
  "no_current = ('''', None, Some ''could not find currentStep in workflow'')"

lemma getNextStep_deployed:
  assumes "wf_config cfg"
  shows "getNextStep (initWorkflow cfg) deployedState False = Some no_next"
proof -
  let ?n = "length (chain cfg) - 1"
  have "chain cfg ! ?n = deployedState" by (simp add: chain_def nth_append)
  then show ?thesis
    using step_by_name [OF assms, of ?n] no_step_by_id [OF assms, of "int ?n + 1" "\<lambda>s. (step_Name s, step_Transition s)"]
    by (subst getNextStep.simps) (simp add: length_chain no_next_def)
qed

lemma getNextStep_undeployed:
  assumes "wf_config cfg"
  shows "getNextStep (initWorkflow cfg) undeployedState True = Some no_next"
  using step_by_name [OF assms, of 0] no_step_by_id [OF assms, of "-1" "\<lambda>s. (step_Name s, step_Transition s)"]
  by (subst getNextStep.simps) (simp add: length_chain no_next_def)

lemma getNextStep_unknown:
  assumes "wf_config cfg" and "s \<notin> set (chain cfg)"
  shows "getNextStep (initWorkflow cfg) s reverse = Some no_current"
  using no_step_by_name [OF assms] by (subst getNextStep.simps) (simp add: no_current_def)

text \<open>The first name that is not a provider, after or before the current one.\<close>

lemma getNextStep_forward:
  assumes "wf_config cfg" and "chain cfg = xs @ cur # ys"
    and "find (\<lambda>s. \<not> is_provider s) ys = Some s"
  shows "getNextStep (initWorkflow cfg) cur False = Some (s, Some (kind_of s), None)"
  using assms(2,3)
proof (induction ys arbitrary: xs cur)
  case Nil
  then show ?case by simp
next
  case (Cons y ys)
  have nth: "chain cfg ! length xs = cur" "chain cfg ! Suc (length xs) = y"
    "Suc (length xs) < length (chain cfg)"
    using Cons.prems(1) by (simp_all add: nth_append)
  show ?case
  proof (cases "is_provider y")
    case True
    then have "getNextStep (initWorkflow cfg) y False = Some (s, Some (kind_of s), None)"
      using Cons.IH [of "xs @ [cur]" y] Cons.prems by simp
    then show ?thesis using getNextStep_succ [OF assms(1) nth(3)] nth True by simp
  next
    case False
    then show ?thesis using getNextStep_succ [OF assms(1) nth(3)] nth Cons.prems(2) by simp
  qed
qed

lemma getNextStep_backward:
  assumes "wf_config cfg" and "chain cfg = xs @ cur # ys"
    and "find (\<lambda>s. \<not> is_provider s) (rev xs) = Some s"
  shows "getNextStep (initWorkflow cfg) cur True = Some (s, Some (kind_of s), None)"
  using assms(2,3)
proof (induction xs arbitrary: cur ys rule: rev_induct)
  case Nil
  then show ?case by simp
next
  case (snoc x xs)
  have nth: "chain cfg ! Suc (length xs) = cur" "chain cfg ! length xs = x"
    "Suc (length xs) < length (chain cfg)"
    using snoc.prems(1) by (simp_all add: nth_append)
  show ?case
  proof (cases "is_provider x")
    case True
    then have "getNextStep (initWorkflow cfg) x True = Some (s, Some (kind_of s), None)"
      using snoc.IH [of x "cur # ys"] snoc.prems by simp
    then show ?thesis using getNextStep_pred [OF assms(1) nth(3)] nth True by simp
  next
    case False
    then show ?thesis using getNextStep_pred [OF assms(1) nth(3)] nth snoc.prems(2) by simp
  qed
qed

lemma find_some_if_last: "xs \<noteq> [] \<Longrightarrow> p (last xs) \<Longrightarrow> \<exists>x. find p xs = Some x"
  by (induction xs) (auto split: if_splits)

lemma find_SomeD: "find p xs = Some x \<Longrightarrow> x \<in> set xs \<and> p x"
  by (induction xs) (auto split: if_splits)

lemma chain_tail_next:
  assumes "chain cfg = xs @ cur # ys" and "ys \<noteq> []"
  obtains s where "find (\<lambda>s. \<not> is_provider s) ys = Some s"
proof -
  have "last ys = deployedState" using last_chain [of cfg] assms by simp
  then show ?thesis using find_some_if_last [of ys "\<lambda>s. \<not> is_provider s"] assms(2) that by auto
qed

lemma chain_head_next:
  assumes "chain cfg = xs @ cur # ys" and "xs \<noteq> []"
  obtains s where "find (\<lambda>s. \<not> is_provider s) (rev xs) = Some s"
proof -
  have "hd xs = undeployedState" using assms by (cases xs) (auto simp: chain_def)
  then show ?thesis using find_some_if_last [of "rev xs" "\<lambda>s. \<not> is_provider s"] assms(2) that
    by (auto simp: last_rev)
qed

text \<open>On a well-formed configuration every call returns, and only to steps that are no providers.\<close>

lemma getNextStep_total:
  assumes "wf_config cfg"
  shows "getNextStep (initWorkflow cfg) cur reverse = Some no_current \<or>
    getNextStep (initWorkflow cfg) cur reverse = Some no_next \<or>
    (\<exists>s\<in>set (chain cfg). \<not> is_provider s \<and>
       getNextStep (initWorkflow cfg) cur reverse = Some (s, Some (kind_of s), None))"
proof (cases "cur \<in> set (chain cfg)")
  case False
  then show ?thesis using getNextStep_unknown [OF assms] by simp
next
  case True
  then obtain xs ys where c: "chain cfg = xs @ cur # ys" by (meson split_list)
  have ends: "xs = [] \<Longrightarrow> cur = undeployedState" "ys = [] \<Longrightarrow> cur = deployedState"
    using c last_chain [of cfg] by (auto simp: chain_def Cons_eq_append_conv)
  show ?thesis
  proof (cases reverse)
    case True
    show ?thesis
    proof (cases "xs = []")
      case False
      then obtain s where s: "find (\<lambda>s. \<not> is_provider s) (rev xs) = Some s" using c chain_head_next by blast
      then show ?thesis using getNextStep_backward [OF assms c s] find_SomeD [OF s] c True by auto
    qed (use ends getNextStep_undeployed [OF assms] True in simp)
  next
    case False
    show ?thesis
    proof (cases "ys = []")
      case False
      then obtain s where s: "find (\<lambda>s. \<not> is_provider s) ys = Some s" using c chain_tail_next by blast
      then show ?thesis using getNextStep_forward [OF assms c s] find_SomeD [OF s] c \<open>\<not> reverse\<close> by auto
    qed (use ends getNextStep_deployed [OF assms] False in simp)
  qed
qed

section \<open>The step order as an interface\<close>

text \<open>
  What the handlers of an entry need of the navigation: a route without repetitions whose
  neighbours are each other's successor and predecessor, with no step beyond either end.
  Walking it in one direction and then in the other is proved here once.
\<close>

fun walk :: "nat \<Rightarrow> ('s \<Rightarrow> 's option) \<Rightarrow> 's \<Rightarrow> 's list" where
  "walk 0 f s = [s]"
| "walk (Suc n) f s = s # (case f s of None \<Rightarrow> [] | Some t \<Rightarrow> walk n f t)"

locale step_order =
  fixes valid :: "'c \<Rightarrow> bool"
    and route :: "'c \<Rightarrow> 's list"
    and next_in :: "'c \<Rightarrow> 's \<Rightarrow> bool \<Rightarrow> 's option"
  assumes route_distinct: "valid c \<Longrightarrow> distinct (route c)"
    and route_nonempty: "valid c \<Longrightarrow> route c \<noteq> []"
    and next_forward: "valid c \<Longrightarrow> route c = xs @ a # b # ys \<Longrightarrow> next_in c a False = Some b"
    and next_backward: "valid c \<Longrightarrow> route c = xs @ a # b # ys \<Longrightarrow> next_in c b True = Some a"
    and next_end: "valid c \<Longrightarrow> next_in c (last (route c)) False = None"
    and next_start: "valid c \<Longrightarrow> next_in c (hd (route c)) True = None"
begin

lemma forward_iff:
  assumes "valid c" and "a \<in> set (route c)"
  shows "next_in c a False = Some b \<longleftrightarrow> (\<exists>xs ys. route c = xs @ a # b # ys)"
proof
  assume b: "next_in c a False = Some b"
  obtain xs ys where r: "route c = xs @ a # ys" using assms(2) by (meson split_list)
  show "\<exists>xs ys. route c = xs @ a # b # ys"
  proof (cases ys)
    case Nil
    then show ?thesis using r b next_end [OF assms(1)] by simp
  next
    case (Cons d zs)
    then show ?thesis using r b next_forward [OF assms(1), of xs a d zs] by auto
  qed
qed (use assms next_forward in auto)

lemma backward_iff:
  assumes "valid c" and "b \<in> set (route c)"
  shows "next_in c b True = Some a \<longleftrightarrow> (\<exists>xs ys. route c = xs @ a # b # ys)"
proof
  assume a: "next_in c b True = Some a"
  obtain xs ys where r: "route c = xs @ b # ys" using assms(2) by (meson split_list)
  show "\<exists>xs ys. route c = xs @ a # b # ys"
  proof (cases xs rule: rev_cases)
    case Nil
    then show ?thesis using r a next_start [OF assms(1)] by simp
  next
    case (snoc zs d)
    then show ?thesis using r a next_backward [OF assms(1), of zs d b ys] by auto
  qed
qed (use assms next_backward in auto)

lemma undo_step:
  assumes "valid c" and "a \<in> set (route c)" and "b \<in> set (route c)"
  shows "next_in c a False = Some b \<longleftrightarrow> next_in c b True = Some a"
  using forward_iff [OF assms(1,2)] backward_iff [OF assms(1,3)] by simp

lemma walk_forward_from:
  "valid c \<Longrightarrow> route c = xs @ a # ys \<Longrightarrow> walk (length ys) (\<lambda>s. next_in c s False) a = a # ys"
proof (induction ys arbitrary: xs a)
  case (Cons b ys)
  then show ?case using next_forward [of c xs a b ys] Cons.IH [of "xs @ [a]" b] by simp
qed simp

lemma walk_backward_from:
  "valid c \<Longrightarrow> route c = xs @ a # ys \<Longrightarrow> walk (length xs) (\<lambda>s. next_in c s True) a = a # rev xs"
proof (induction xs arbitrary: a ys rule: rev_induct)
  case (snoc b xs)
  then show ?case using next_backward [of c xs b a ys] snoc.IH [of b "a # ys"] by simp
qed simp

lemma walk_route:
  assumes "valid c"
  shows "walk (length (route c) - 1) (\<lambda>s. next_in c s False) (hd (route c)) = route c"
    and "walk (length (route c) - 1) (\<lambda>s. next_in c s True) (last (route c)) = rev (route c)"
proof -
  obtain a ys where "route c = a # ys" using route_nonempty [OF assms] by (cases "route c") auto
  then show "walk (length (route c) - 1) (\<lambda>s. next_in c s False) (hd (route c)) = route c"
    using walk_forward_from [OF assms, of "[]" a ys] by simp
  obtain xs b where "route c = xs @ [b]" using route_nonempty [OF assms] by (cases "route c" rule: rev_cases) auto
  then show "walk (length (route c) - 1) (\<lambda>s. next_in c s True) (last (route c)) = rev (route c)"
    using walk_backward_from [OF assms, of xs b "[]"] by simp
qed

end

text \<open>The route of a configuration: its chain without the providers.\<close>

definition visited :: "string \<Rightarrow> string list" where
  "visited cfg = filter (\<lambda>s. \<not> is_provider s) (chain cfg)"

definition next_name :: "string \<Rightarrow> string \<Rightarrow> bool \<Rightarrow> string option" where
  "next_name cfg cur reverse =
     (case getNextStep (initWorkflow cfg) cur reverse of
        Some (s, t, None) \<Rightarrow> Some s | _ \<Rightarrow> None)"

lemma visited_ends [simp]:
  "visited cfg \<noteq> []" "hd (visited cfg) = undeployedState" "last (visited cfg) = deployedState"
  by (simp_all add: visited_def chain_def)

lemma filter_eq_appendE:
  assumes "filter p zs = xs @ ys"
  obtains us vs where "zs = us @ vs" "filter p us = xs" "filter p vs = ys"
proof -
  have "\<exists>us vs. zs = us @ vs \<and> filter p us = xs \<and> filter p vs = ys"
    using assms
  proof (induction zs arbitrary: xs)
    case (Cons z zs)
    show ?case
    proof (cases "xs = [] \<or> \<not> p z")
      case True
      with Cons.prems have "xs = [] \<and> filter p (z # zs) = ys \<or> \<not> p z \<and> filter p zs = xs @ ys"
        by auto
      with Cons.IH [of xs] show ?thesis by (metis append_Cons append_Nil filter.simps)
    next
      case False
      with Cons.prems obtain xs' where "xs = z # xs'" "filter p zs = xs' @ ys" by (cases xs) auto
      with Cons.IH [of xs'] False show ?thesis by (metis append_Cons filter.simps(2))
    qed
  qed simp
  then show ?thesis using that by blast
qed

lemma filter_adjacent:
  assumes "filter p zs = xs @ a # b # ys"
  shows "\<exists>us vs ws. zs = us @ a # vs @ b # ws \<and> (\<forall>v\<in>set vs. \<not> p v) \<and> p a \<and> p b"
proof -
  obtain us rest where zs: "zs = us @ rest" and rest: "filter p rest = a # b # ys"
    using assms by (blast elim: filter_eq_appendE)
  then obtain us' rest' where r: "rest = us' @ a # rest'" "p a" "filter p rest' = b # ys"
    using filter_eq_ConsD by metis
  then obtain vs ws where "rest' = vs @ b # ws" "\<forall>v\<in>set vs. \<not> p v" "p b"
    using filter_eq_ConsD by metis
  with zs r show ?thesis by (metis append.assoc)
qed

lemma visited_adjacent:
  assumes "visited cfg = xs @ a # b # ys"
  shows "\<exists>us vs ws. chain cfg = us @ a # vs @ b # ws \<and>
    find (\<lambda>s. \<not> is_provider s) (vs @ b # ws) = Some b \<and>
    find (\<lambda>s. \<not> is_provider s) (rev (us @ a # vs)) = Some a"
proof -
  obtain us vs ws where c: "chain cfg = us @ a # vs @ b # ws"
    and v: "\<forall>v\<in>set vs. \<not> \<not> is_provider v" "\<not> is_provider a" "\<not> is_provider b"
    using filter_adjacent [OF assms [unfolded visited_def]] by blast
  moreover have "find (\<lambda>s. \<not> is_provider s) (vs @ b # ws) = Some b"
    using v by (intro find_skip) auto
  moreover have "find (\<lambda>s. \<not> is_provider s) (rev vs @ a # rev us) = Some a"
    using v by (intro find_skip) auto
  ultimately show ?thesis by auto
qed

interpretation nav: step_order wf_config visited next_name
proof unfold_locales
  fix c xs a b ys
  assume c: "wf_config c"
  show "distinct (visited c)" using c by (simp add: visited_def wf_config_def)
  show "visited c \<noteq> []" by simp
  show "next_name c (last (visited c)) False = None"
    using c by (simp add: next_name_def getNextStep_deployed no_next_def)
  show "next_name c (hd (visited c)) True = None"
    using c by (simp add: next_name_def getNextStep_undeployed no_next_def)
  assume v: "visited c = xs @ a # b # ys"
  obtain us vs ws where ch: "chain c = us @ a # vs @ b # ws"
    and f: "find (\<lambda>s. \<not> is_provider s) (vs @ b # ws) = Some b"
      "find (\<lambda>s. \<not> is_provider s) (rev (us @ a # vs)) = Some a"
    using visited_adjacent [OF v] by blast
  show "next_name c a False = Some b"
    using getNextStep_forward [OF c ch f(1)] by (simp add: next_name_def)
  have "chain c = (us @ a # vs) @ b # ws" using ch by simp
  from getNextStep_backward [OF c this f(2)] show "next_name c b True = Some a"
    by (simp add: next_name_def)
qed

lemma getNextStep_next_name:
  assumes "wf_config cfg"
  shows "getNextStep (initWorkflow cfg) cur reverse = Some (s, Some (kind_of s), None) \<longleftrightarrow>
    next_name cfg cur reverse = Some s"
  using getNextStep_total [OF assms, of cur reverse]
  by (auto simp: next_name_def no_next_def no_current_def)

lemma next_name_visited:
  assumes "wf_config cfg" and "next_name cfg cur reverse = Some s"
  shows "s \<in> set (visited cfg)"
  using getNextStep_total [OF assms(1), of cur reverse] assms(2)
  by (auto simp: next_name_def no_next_def no_current_def visited_def)

lemma kind_of_visited:
  assumes "wf_config cfg" and "s \<in> set (visited cfg)"
  shows "kind_of s = (if s = undeployedState \<or> s = deployedState then closeState else provisionerState)"
proof -
  have "Split CHR ''.'' s ! 0 \<noteq> ''provider''"
  proof
    assume a: "Split CHR ''.'' s ! 0 = ''provider''"
    have "s = ''provider'' \<or> is_provider s"
    proof (cases "Split CHR ''.'' s")
      case (Cons q qs)
      then have "s = Join ''.'' (''provider'' # qs)" using a Join_Split [of "CHR ''.''" s] by simp
      then show ?thesis by (cases qs) (auto simp: is_provider_def HasPrefix_def)
    qed simp
    then show False using assms by (auto simp: visited_def wf_config_def)
  qed
  then show ?thesis by (simp add: kind_of_def)
qed

text \<open>Where the providers of a configuration lead to.\<close>

definition route_after :: "string \<Rightarrow> string \<Rightarrow> string list" where
  "route_after cfg p = filter (\<lambda>s. \<not> is_provider s) (tl (dropWhile (\<lambda>s. s \<noteq> p) (chain cfg)))"

section \<open>Properties of the navigation\<close>

text \<open>The configuration of the documentation, used by the witnesses.\<close>

definition doc_config :: string where
  "doc_config = ''provider.swarm,ipam.ipalloc,lb.f5ltm''"

lemma doc_config_chain:
  "chain doc_config = [''undeployed'', ''provider.swarm'', ''ipam.ipalloc'', ''lb.f5ltm'', ''deployed'']"
  by (simp add: chain_def doc_config_def deployedState_def undeployedState_def)

lemma doc_config_wf: "wf_config doc_config"
  by (simp add: wf_config_def doc_config_chain)

lemma doc_config_visited: "visited doc_config = [''undeployed'', ''ipam.ipalloc'', ''lb.f5ltm'', ''deployed'']"
  by (simp add: visited_def doc_config_chain is_provider_def HasPrefix_def)

text \<open>
  On a well-formed configuration \<open>getNextStep\<close> always returns, from any step and in both
  directions; when it reports no error, the next step is a step of the workflow that is not a
  provider, and its transition is the one \<open>getTransition\<close> finds for it.
\<close>

theorem getNextStep_returns:
  assumes "wf_config cfg"
  shows "\<exists>n t e. getNextStep (initWorkflow cfg) cur reverse = Some (n, t, e) \<and>
    (e \<noteq> None \<or> n \<in> set (visited cfg) \<and> t = getTransition (initWorkflow cfg) n)"
  using getNextStep_total [OF assms, of cur reverse]
  by (auto simp: no_current_def no_next_def visited_def getTransition_chain [OF assms])

theorem getNextStep_returns_witness:
  "\<exists>n t e. getNextStep (initWorkflow doc_config) ''undeployed'' False = Some (n, t, e) \<and>
    (e \<noteq> None \<or> n \<in> set (visited doc_config) \<and> t = getTransition (initWorkflow doc_config) n)"
  using getNextStep_returns [OF doc_config_wf] .

text \<open>
  C16. Following \<open>getNextStep\<close> from \<open>undeployed\<close> passes every provisioner once, in the configured
  order, and ends in \<open>deployed\<close>; following it in reverse from \<open>deployed\<close> passes the same steps in
  the opposite order and ends in \<open>undeployed\<close>.
\<close>

theorem workflow_walks:
  assumes "wf_config cfg"
  defines "n \<equiv> length (visited cfg) - 1"
  shows "walk n (\<lambda>s. next_name cfg s False) undeployedState = visited cfg \<and>
    walk n (\<lambda>s. next_name cfg s True) deployedState = rev (visited cfg)"
  using nav.walk_route [OF assms(1)] by (simp add: n_def)

theorem workflow_walks_witness:
  "walk 3 (\<lambda>s. next_name doc_config s True) ''deployed'' =
     [''deployed'', ''lb.f5ltm'', ''ipam.ipalloc'', ''undeployed'']"
  using workflow_walks [OF doc_config_wf, THEN conjunct2]
  by (simp add: doc_config_visited deployedState_def numeral_3_eq_3 del: walk.simps)

text \<open>
  The two directions undo each other: between two steps of the workflow that are no providers,
  the second is the first's next step exactly when the first is the second's next step in reverse.
\<close>

theorem getNextStep_undo:
  assumes "wf_config cfg" and "a \<in> set (visited cfg)" and "b \<in> set (visited cfg)"
  shows "(\<exists>t. getNextStep (initWorkflow cfg) a False = Some (b, t, None)) \<longleftrightarrow>
    (\<exists>t. getNextStep (initWorkflow cfg) b True = Some (a, t, None))"
proof -
  have "(\<exists>t. getNextStep (initWorkflow cfg) x r = Some (y, t, None)) \<longleftrightarrow> next_name cfg x r = Some y"
    for x y r
    using getNextStep_total [OF assms(1), of x r]
    by (auto simp: next_name_def no_current_def no_next_def)
  then show ?thesis using nav.undo_step [OF assms] by simp
qed

theorem getNextStep_undo_witness:
  "(\<exists>t. getNextStep (initWorkflow doc_config) ''ipam.ipalloc'' False = Some (''lb.f5ltm'', t, None)) \<longleftrightarrow>
   (\<exists>t. getNextStep (initWorkflow doc_config) ''lb.f5ltm'' True = Some (''ipam.ipalloc'', t, None))"
  by (rule getNextStep_undo) (simp_all add: doc_config_wf doc_config_visited)

text \<open>A provider listed twice: looking for the step before it finds it again.\<close>

lemma duplicate_provider_steps:
  assumes "HasPrefix p ''provider.''" and "CHR '','' \<notin> set p"
  shows "last_match (\<lambda>v. step_Name v = p) step_ID (initWorkflow (p @ '','' @ p)) = Some 2"
    and "last_match (\<lambda>s. step_ID s = 1) (\<lambda>s. (step_Name s, step_Transition s))
      (initWorkflow (p @ '','' @ p)) = Some (p, Some providerState)"
proof -
  have ne: "p \<noteq> undeployedState" "p \<noteq> deployedState"
    using assms(1) by (auto simp: HasPrefix_iff undeployedState_def deployedState_def)
  have "kind_of p = providerState" using assms(1) by (simp add: kind_of_provider is_provider_def)
  then have "Split CHR ''.'' p ! 0 = ''provider''"
    using ne by (simp add: kind_of_def split: if_splits)
  with ne assms(2)
  show "last_match (\<lambda>v. step_Name v = p) step_ID (initWorkflow (p @ '','' @ p)) = Some 2"
    and "last_match (\<lambda>s. step_ID s = 1) (\<lambda>s. (step_Name s, step_Transition s))
      (initWorkflow (p @ '','' @ p)) = Some (p, Some providerState)"
    by (simp_all add: initWorkflow_def Let_def Split_append_sep Split_no_sep last_match_Cons)
qed

text \<open>
  A workflow that names one provider twice is not rejected, and rolling back to it never
  returns: the reverse lookup from that provider finds the same provider again, without end.
\<close>

theorem getNextStep_duplicate_provider_diverges:
  assumes "HasPrefix p ''provider.''" and "CHR '','' \<notin> set p"
  shows "getNextStep (initWorkflow (p @ '','' @ p)) p True = None"
proof -
  define w where "w = initWorkflow (p @ '','' @ p)"
  note steps = duplicate_provider_steps [OF assms, folded w_def]
  have "w' = w \<longrightarrow> c \<noteq> p \<or> \<not> r" if "getNextStep w' c r = Some y" for w' c r y
  proof (rule getNextStep.raw_induct [OF _ that, where P = "\<lambda>w' c r y. w' = w \<longrightarrow> c \<noteq> p \<or> \<not> r"])
    fix f w' c r y
    assume IH: "\<And>w' c r y. f w' c r = Some y \<Longrightarrow> w' = w \<longrightarrow> c \<noteq> p \<or> \<not> r"
      and eq: "(case last_match (\<lambda>v. step_Name v = c) step_ID w' of
        None \<Rightarrow> Some ('''', None, Some ''could not find currentStep in workflow'')
      | Some stepID \<Rightarrow>
          (case last_match (\<lambda>s. step_ID s = (if r then stepID - 1 else stepID + 1))
                  (\<lambda>s. (step_Name s, step_Transition s)) w' of
             None \<Rightarrow> Some ('''', None, Some ''could not find nextStep currentStep in workflow'')
           | Some (nextStep, next) \<Rightarrow>
               if HasPrefix nextStep ''provider.'' then
                 Option.bind (f w' nextStep r) (\<lambda>(n, t, e). Some (n, t, None))
               else Some (nextStep, next, None))) = Some y"
    show "w' = w \<longrightarrow> c \<noteq> p \<or> \<not> r"
    proof (rule ccontr)
      assume "\<not> (w' = w \<longrightarrow> c \<noteq> p \<or> \<not> r)"
      then have args: "w' = w" "c = p" "r = True" by auto
      have "Option.bind (f w p True) (\<lambda>(n, t, e). Some (n, t, None)) = Some y"
        using eq steps assms(1) unfolding args by simp
      then obtain z where "f w p True = Some z" by (cases "f w p True") auto
      from IH [OF this] show False by simp
    qed
  qed
  then show ?thesis unfolding w_def by (metis option.exhaust)
qed

theorem getNextStep_duplicate_provider_diverges_witness:
  "getNextStep (initWorkflow ''provider.a,provider.a'') ''provider.a'' True = None"
  using getNextStep_duplicate_provider_diverges [of "''provider.a''"] by (simp add: HasPrefix_def)

end
