(* ===== verification/Transition.thy ===== *)
theory Transition
  imports Workflow
begin

text \<open>
  \<open>src/core/transition.go\<close>: the handlers (\<open>execute\<close>) of the five states of an entry. Handlers call
  each other through the entry's \<open>transition\<close> field, so they are one partial function over the
  interface value: \<^term>\<open>None\<close> is a call that never returns (a stack overflow in Go), \<^term>\<open>Inl\<close> a
  panic, and \<^term>\<open>Inr\<close> the entry afterwards with the messages written to \<open>msgToExtension\<close>. One
  instant \<open>now\<close> stands for the readings of the clock during one handler call. Log output is left out.
\<close>

section \<open>The handlers\<close>

datatype panic = NilDereference

type_synonym outcome = "(panic + workflowEntry \<times> Message list) option"

definition returns :: "workflowEntry \<Rightarrow> Message list \<Rightarrow> outcome" where
  "returns we out = Some (Inr (we, out))"

partial_function (option) execute ::
  "workflowSteps \<Rightarrow> gotime \<Rightarrow> transition option \<Rightarrow> workflowEntry \<Rightarrow> Message \<Rightarrow> outcome" where
  "execute w now tr we msg =
    (case tr of
       None \<Rightarrow> Some (Inl NilDereference)
     | Some t \<Rightarrow>
       (case t of
          providerState \<Rightarrow>
            (if msg_Action msg = AddAction then
               (let we = setLastUpdate now we;
                    we = setTargetState deployedState we;
                    we = we\<lparr>we_transition := Some providerAddState\<rparr>;
                    we = setState msg False we
                in execute w now (we_transition we) we msg)
             else if msg_Action msg = DeleteAction then
               (let we = we\<lparr>we_transition := Some providerDeleteState\<rparr>
                in execute w now (we_transition we) we msg)
             else returns (setError (''Unhandled action '' @ msg_Action msg) we) [])
        | providerAddState \<Rightarrow>
            (if msg_Action msg \<noteq> AddAction \<or> \<not> HasPrefix (msg_Sender msg) ''provider.'' then
               returns we []
             else if IsZero (we_CloseTime we) \<and> we_Error we = '''' \<and>
                     \<not> HasPrefix (we_State we) ''provider.'' then
               returns we []
             else
               Option.bind (setNextStep w we) (\<lambda>we. execute w now (we_transition we) we msg))
        | providerDeleteState \<Rightarrow>
            (if msg_Action msg \<noteq> DeleteAction \<or> \<not> HasPrefix (msg_Sender msg) ''provider.'' then
               returns we []
             else
               Option.bind (if we_WorkInProgress we then setNextStep w we else Some we) (\<lambda>we.
               Option.bind (setNextStep w (setTargetState undeployedState we)) (\<lambda>we.
                 execute w now (we_transition we) we (msg\<lparr>msg_Service := we_Service we\<rparr>))))
        | provisionerState \<Rightarrow>
            (if we_WorkInProgress we then
               (if msg_Sender msg \<noteq> we_State we then returns we []
                else if msg_Error msg \<noteq> '''' then
                  returns (setError (msg_Error msg) (setWIP now False we)) []
                else
                  Option.bind (setNextStep w (updateService msg we)) (\<lambda>we.
                    if isLastStep w (we_State we) (isReverse we) then
                      (let we = we\<lparr>we_transition := Some closeState\<rparr>
                       in execute w now (we_transition we) we msg)
                    else (case sendToExtension now we of (we, m) \<Rightarrow> returns we [m])))
             else (case sendToExtension now we of (we, m) \<Rightarrow> returns we [m]))
        | closeState \<Rightarrow> returns (close_entry now (msg_Error msg) we) []))"

text \<open>One equation per handler.\<close>

lemma execute_nil: "execute w now None we msg = Some (Inl NilDereference)"
  by (subst execute.simps) simp

lemma execute_providerState:
  "execute w now (Some providerState) we msg =
     (if msg_Action msg = AddAction then
        execute w now (Some providerAddState)
          (setState msg False ((setTargetState deployedState (setLastUpdate now we))
             \<lparr>we_transition := Some providerAddState\<rparr>)) msg
      else if msg_Action msg = DeleteAction then
        execute w now (Some providerDeleteState) (we\<lparr>we_transition := Some providerDeleteState\<rparr>) msg
      else returns (setError (''Unhandled action '' @ msg_Action msg) we) [])"
  by (subst execute.simps) (simp add: Let_def setState_def)

lemma execute_providerAddState:
  "execute w now (Some providerAddState) we msg =
     (if msg_Action msg \<noteq> AddAction \<or> \<not> HasPrefix (msg_Sender msg) ''provider.'' then returns we []
      else if IsZero (we_CloseTime we) \<and> we_Error we = '''' \<and>
              \<not> HasPrefix (we_State we) ''provider.'' then returns we []
      else Option.bind (setNextStep w we) (\<lambda>we. execute w now (we_transition we) we msg))"
  by (subst execute.simps) simp

lemma execute_providerDeleteState:
  "execute w now (Some providerDeleteState) we msg =
     (if msg_Action msg \<noteq> DeleteAction \<or> \<not> HasPrefix (msg_Sender msg) ''provider.'' then returns we []
      else Option.bind (if we_WorkInProgress we then setNextStep w we else Some we) (\<lambda>we.
           Option.bind (setNextStep w (setTargetState undeployedState we)) (\<lambda>we.
             execute w now (we_transition we) we (msg\<lparr>msg_Service := we_Service we\<rparr>))))"
  by (subst execute.simps) simp

lemma execute_closeState:
  "execute w now (Some closeState) we msg = returns (close_entry now (msg_Error msg) we) []"
  by (subst execute.simps) simp

lemma execute_provisionerState:
  "execute w now (Some provisionerState) we msg =
     (if we_WorkInProgress we then
        (if msg_Sender msg \<noteq> we_State we then returns we []
         else if msg_Error msg \<noteq> '''' then returns (setError (msg_Error msg) (setWIP now False we)) []
         else Option.bind (setNextStep w (updateService msg we)) (\<lambda>we.
                if isLastStep w (we_State we) (isReverse we)
                then returns (close_entry now (msg_Error msg) (we\<lparr>we_transition := Some closeState\<rparr>)) []
                else (case sendToExtension now we of (we, m) \<Rightarrow> returns we [m])))
      else (case sendToExtension now we of (we, m) \<Rightarrow> returns we [m]))"
  by (subst execute.simps) (simp add: Let_def execute_closeState cong: if_cong)

lemmas execute_eqs =
  execute_nil execute_providerState execute_providerAddState execute_providerDeleteState
  execute_provisionerState execute_closeState

section \<open>Handlers on a well-formed configuration\<close>

text \<open>Moving to a step of the workflow.\<close>

definition advance :: "string \<Rightarrow> workflowEntry \<Rightarrow> workflowEntry" where
  "advance s e = e\<lparr>we_State := s, we_transition := Some (kind_of s), we_WorkInProgress := False,
                   we_WIPTime := 0, we_CloseTime := 0\<rparr>"

lemma advance_simps [simp]:
  "we_State (advance s e) = s" "we_transition (advance s e) = Some (kind_of s)"
  "we_WorkInProgress (advance s e) = False" "we_WIPTime (advance s e) = 0"
  "we_CloseTime (advance s e) = 0" "we_ExpectedState (advance s e) = we_ExpectedState e"
  "we_Error (advance s e) = we_Error e" "we_Service (advance s e) = we_Service e"
  "we_LastUpdate (advance s e) = we_LastUpdate e" "isReverse (advance s e) = isReverse e"
  by (simp_all add: advance_def isReverse_def)

lemma setNextStep_wf:
  assumes "wf_config cfg"
  shows "setNextStep (initWorkflow cfg) e =
    Some (case next_name cfg (we_State e) (isReverse e) of None \<Rightarrow> e | Some s \<Rightarrow> advance s e)"
  using getNextStep_total [OF assms, of "we_State e" "isReverse e"]
  by (auto simp: setNextStep_def next_name_def no_next_def no_current_def advance_def)

text \<open>Entering a step: an end of the workflow closes the entry, a provisioner gets a message.\<close>

definition request_msg :: "workflowEntry \<Rightarrow> Message" where
  "request_msg e = (BuildMessage (we_Service e) (isReverse e))\<lparr>msg_Destination := we_State e\<rparr>"

lemma sendToExtension_eq: "sendToExtension now e = (setWIP now True e, request_msg e)"
  by (simp add: entry_defs request_msg_def)

definition enter :: "gotime \<Rightarrow> string \<Rightarrow> workflowEntry \<Rightarrow> outcome" where
  "enter now err e =
     (if we_State e = undeployedState \<or> we_State e = deployedState
      then returns (close_entry now err e) []
      else returns (setWIP now True e) [request_msg e])"

lemma execute_visited:
  assumes "wf_config cfg" and "s \<in> set (visited cfg)" and "we_State e = s" and "\<not> we_WorkInProgress e"
  shows "execute w now (Some (kind_of s)) e msg = enter now (msg_Error msg) e"
  using assms
  by (simp add: kind_of_visited execute_closeState execute_provisionerState enter_def sendToExtension_eq)

lemma execute_add:
  assumes "wf_config cfg" and "is_provider (msg_Sender msg)" and "msg_Action msg = AddAction"
    and "next_name cfg (msg_Sender msg) False = Some s"
  shows "execute (initWorkflow cfg) now (Some providerState) e msg =
    enter now (msg_Error msg)
      (advance s (setState msg False (setTargetState deployedState (setLastUpdate now e))))"
proof -
  have "isReverse (setState msg False (setTargetState deployedState (setLastUpdate now e))) = False"
    by (simp add: entry_defs)
  moreover have "we_State (setState msg False e') = msg_Sender msg" for e' by (simp add: setState_def)
  ultimately show ?thesis
    using assms next_name_visited [OF assms(1,4)]
    by (simp add: execute_providerState execute_providerAddState is_provider_def setNextStep_wf)
      (simp add: entry_defs advance_def execute_visited)
qed

lemma execute_delete:
  assumes "wf_config cfg" and "is_provider (msg_Sender msg)" and "msg_Action msg = DeleteAction"
    and "\<not> we_WorkInProgress e" and "next_name cfg (we_State e) True = Some s"
  shows "execute (initWorkflow cfg) now (Some providerState) e msg =
    enter now (msg_Error msg) (advance s (setTargetState undeployedState e))"
proof -
  have "isReverse (setTargetState undeployedState e') = True" for e' by (simp add: entry_defs)
  then show ?thesis
    using assms next_name_visited [OF assms(1,5)]
    by (simp add: execute_providerState execute_providerDeleteState is_provider_def setNextStep_wf)
      (simp add: entry_defs advance_def execute_visited)
qed

lemma execute_reply:
  assumes "wf_config cfg" and "we_WorkInProgress e" and "msg_Sender msg = we_State e"
    and "msg_Error msg = ''''" and "next_name cfg (we_State e) (isReverse e) = Some s"
  shows "execute (initWorkflow cfg) now (Some provisionerState) e msg =
    (let e' = advance s (updateService msg e)
     in if s = (if isReverse e then undeployedState else deployedState)
        then returns (close_entry now '''' (e'\<lparr>we_transition := Some closeState\<rparr>)) []
        else returns (setWIP now True e') [request_msg e'])"
  using assms by (simp add: execute_provisionerState setNextStep_wf isLastStep_chain
      sendToExtension_eq updateService_def isReverse_def Let_def)

lemma execute_error_reply:
  assumes "we_WorkInProgress e" and "msg_Sender msg = we_State e" and "msg_Error msg \<noteq> ''''"
  shows "execute w now (Some provisionerState) e msg =
    returns (setError (msg_Error msg) (setWIP now False e)) []"
  using assms by (simp add: execute_provisionerState)

lemma execute_foreign_reply:
  assumes "we_WorkInProgress e" and "msg_Sender msg \<noteq> we_State e"
  shows "execute w now (Some provisionerState) e msg = returns e []"
  using assms by (simp add: execute_provisionerState)

section \<open>Delivering messages to an entry\<close>

text \<open>
  What \<open>mergeMessage\<close> does with the entry of a message (update the service, look the sender's
  transition up) followed by the handler it starts; and a sequence of such deliveries.
\<close>

definition merge_into :: "workflowSteps \<Rightarrow> Message \<Rightarrow> workflowEntry \<Rightarrow> workflowEntry" where
  "merge_into w msg e = setTransition w (msg_Sender msg) (updateService msg e)"

definition deliver :: "workflowSteps \<Rightarrow> gotime \<Rightarrow> Message \<Rightarrow> workflowEntry \<Rightarrow> outcome" where
  "deliver w now msg e =
     (let e = merge_into w msg e in execute w now (we_transition e) e msg)"

fun deliver_all :: "workflowSteps \<Rightarrow> (gotime \<times> Message) list \<Rightarrow> workflowEntry \<Rightarrow> outcome" where
  "deliver_all w [] e = returns e []"
| "deliver_all w ((now, msg) # ms) e =
     Option.bind (deliver w now msg e) (\<lambda>r. case r of
         Inl p \<Rightarrow> Some (Inl p)
       | Inr (e', out) \<Rightarrow> map_option (map_sum id (map_prod id ((@) out))) (deliver_all w ms e'))"

lemma deliver_all_Cons:
  "deliver w now msg e = returns e1 out1 \<Longrightarrow> deliver_all w ms e1 = returns e2 out2 \<Longrightarrow>
     deliver_all w ((now, msg) # ms) e = returns e2 (out1 @ out2)"
  by (simp add: returns_def)

text \<open>Only the service differs after \<open>updateService\<close>, and a provisioner changes its IP and name only.\<close>

lemma updateService_frame [simp]:
  "we_State (updateService msg e) = we_State e"
  "we_ExpectedState (updateService msg e) = we_ExpectedState e"
  "we_WorkInProgress (updateService msg e) = we_WorkInProgress e"
  "we_WIPTime (updateService msg e) = we_WIPTime e"
  "we_Error (updateService msg e) = we_Error e"
  "we_CloseTime (updateService msg e) = we_CloseTime e"
  "we_LastUpdate (updateService msg e) = we_LastUpdate e"
  "we_transition (updateService msg e) = we_transition e"
  "isReverse (updateService msg e) = isReverse e"
  "svc_Name (we_Service (updateService msg e)) = svc_Name (msg_Service msg)"
  by (simp_all add: updateService_def isReverse_def Let_def)

lemma updateService_twice [simp]: "updateService msg (updateService msg e) = updateService msg e"
  by (simp add: updateService_def Let_def)

lemma merge_into_frame [simp]:
  "we_State (merge_into w msg e) = we_State e"
  "we_ExpectedState (merge_into w msg e) = we_ExpectedState e"
  "we_WorkInProgress (merge_into w msg e) = we_WorkInProgress e"
  "we_WIPTime (merge_into w msg e) = we_WIPTime e"
  "we_Error (merge_into w msg e) = we_Error e"
  "we_CloseTime (merge_into w msg e) = we_CloseTime e"
  "we_LastUpdate (merge_into w msg e) = we_LastUpdate e"
  "we_transition (merge_into w msg e) = getTransition w (msg_Sender msg)"
  "isReverse (merge_into w msg e) = isReverse e"
  "we_Service (merge_into w msg e) = we_Service (updateService msg e)"
  by (simp_all add: merge_into_def setTransition_def isReverse_def)

definition same_definition :: "Service \<Rightarrow> Service \<Rightarrow> bool" where
  "same_definition s t \<longleftrightarrow>
     svc_Targets s = svc_Targets t \<and> svc_TLS s = svc_TLS t \<and> svc_DNSAliases s = svc_DNSAliases t"

lemma same_definition_refl [simp]: "same_definition s s"
  by (simp add: same_definition_def)

lemma same_definition_trans: "same_definition s t \<Longrightarrow> same_definition t u \<Longrightarrow> same_definition s u"
  by (simp add: same_definition_def)

lemma updateService_keeps_definition:
  "\<not> is_provider (msg_Sender msg) \<Longrightarrow> same_definition (we_Service (updateService msg e)) (we_Service e)"
  by (simp add: updateService_def same_definition_def is_provider_def Let_def)

lemma updateService_takes_definition:
  "is_provider (msg_Sender msg) \<Longrightarrow> msg_Action msg \<noteq> DeleteAction \<Longrightarrow>
     same_definition (we_Service (updateService msg e)) (msg_Service msg)"
  by (simp add: updateService_def same_definition_def is_provider_def Let_def)

lemma request_msg_simps [simp]:
  "msg_Destination (request_msg e) = we_State e"
  "msg_Action (request_msg e) = (if isReverse e then DeleteAction else AddAction)"
  "msg_Service (request_msg e) = we_Service e"
  "msg_Error (request_msg e) = ''''"
  by (simp_all add: request_msg_def)

lemma setWIP_simps [simp]:
  "we_State (setWIP now b e) = we_State e" "we_Service (setWIP now b e) = we_Service e"
  "we_WorkInProgress (setWIP now b e) = b" "we_ExpectedState (setWIP now b e) = we_ExpectedState e"
  "we_Error (setWIP now b e) = we_Error e" "isReverse (setWIP now b e) = isReverse e"
  "we_WIPTime (setWIP now b e) = (if b then now else 0)"
  "we_LastUpdate (setWIP now b e) = we_LastUpdate e"
  "we_CloseTime (setWIP now b e) = we_CloseTime e"
  by (simp_all add: setWIP_def isReverse_def Let_def)

lemma close_entry_simps [simp]:
  "we_State (close_entry now err e) = (if isReverse e then undeployedState else deployedState)"
  "we_WorkInProgress (close_entry now err e) = False"
  "we_WIPTime (close_entry now err e) = 0"
  "we_CloseTime (close_entry now err e) = now"
  "we_Error (close_entry now err e) = (if err = '''' then we_Error e else err)"
  "we_ExpectedState (close_entry now err e) = we_ExpectedState e"
  "we_Service (close_entry now err e) = we_Service e"
  "we_LastUpdate (close_entry now err e) = we_LastUpdate e"
  by (simp_all add: entry_defs)

section \<open>A run along the route\<close>

text \<open>
  A linked list of steps follows \<open>getNextStep\<close> in one direction through provisioners to the end
  of the workflow in that direction.
\<close>

definition end_of :: "bool \<Rightarrow> string" where
  "end_of reverse = (if reverse then undeployedState else deployedState)"

fun linked :: "string \<Rightarrow> bool \<Rightarrow> string list \<Rightarrow> bool" where
  "linked cfg r [] = False"
| "linked cfg r [a] = (a = end_of r)"
| "linked cfg r (a # b # xs) =
     (a \<in> set (visited cfg) \<and> a \<noteq> undeployedState \<and> a \<noteq> deployedState \<and>
      next_name cfg a r = Some b \<and> linked cfg r (b # xs))"

lemma visited_inner:
  assumes "wf_config cfg" and "visited cfg = xs @ a # ys"
  shows "xs \<noteq> [] \<Longrightarrow> a \<noteq> undeployedState" and "ys \<noteq> [] \<Longrightarrow> a \<noteq> deployedState"
proof -
  have d: "distinct (xs @ a # ys)" using nav.route_distinct [OF assms(1)] assms(2) by simp
  show "a \<noteq> undeployedState" if "xs \<noteq> []"
    using d visited_ends(2) [of cfg] that unfolding assms(2) by (cases xs) auto
  show "a \<noteq> deployedState" if "ys \<noteq> []"
    using d visited_ends(3) [of cfg] that unfolding assms(2) by (cases ys rule: rev_cases) auto
qed

lemma linked_forward:
  "wf_config cfg \<Longrightarrow> visited cfg = xs @ ys \<Longrightarrow> xs \<noteq> [] \<Longrightarrow> ys \<noteq> [] \<Longrightarrow> linked cfg False ys"
proof (induction ys arbitrary: xs)
  case (Cons a ys)
  show ?case
  proof (cases ys)
    case Nil
    then show ?thesis using Cons.prems visited_ends(3) [of cfg] by (simp add: end_of_def)
  next
    case (Cons b zs)
    then show ?thesis
      using Cons.IH [of "xs @ [a]"] Cons.prems visited_inner [OF Cons.prems(1,2)]
        nav.next_forward [OF Cons.prems(1), of xs a b zs] by simp
  qed
qed simp

lemma linked_backward:
  "wf_config cfg \<Longrightarrow> visited cfg = xs @ ys \<Longrightarrow> xs \<noteq> [] \<Longrightarrow> ys \<noteq> [] \<Longrightarrow> linked cfg True (rev xs)"
proof (induction xs arbitrary: ys rule: rev_induct)
  case (snoc a xs)
  have v: "visited cfg = xs @ a # ys" using snoc.prems by simp
  show ?case
  proof (cases xs rule: rev_cases)
    case Nil
    then show ?thesis using v visited_ends(2) [of cfg] by (simp add: end_of_def)
  next
    case (snoc zs b)
    then show ?thesis
      using snoc.IH [of "a # ys"] snoc.prems v visited_inner [OF snoc.prems(1) v]
        nav.next_backward [OF snoc.prems(1), of zs b a ys] by simp
  qed
qed simp

lemma getTransition_provisioner:
  assumes "wf_config cfg" and "a \<in> set (visited cfg)" and "a \<noteq> undeployedState" and "a \<noteq> deployedState"
  shows "getTransition (initWorkflow cfg) a = Some provisionerState" and "\<not> is_provider a"
  using assms kind_of_visited [OF assms(1,2)]
  by (auto simp: getTransition_chain visited_def)

text \<open>One accepted reply: the entry moves on, and the next step is asked or the entry closed.\<close>

lemma deliver_reply:
  assumes "wf_config cfg" and "linked cfg (isReverse e) (we_State e # b # xs)"
    and "we_WorkInProgress e" and "msg_Sender msg = we_State e" and "msg_Error msg = ''''"
  shows "deliver (initWorkflow cfg) now msg e =
    (let e' = advance b (merge_into (initWorkflow cfg) msg e)
     in if b = end_of (isReverse e)
        then returns (close_entry now '''' (e'\<lparr>we_transition := Some closeState\<rparr>)) []
        else returns (setWIP now True e') [request_msg e'])"
proof -
  have "updateService msg (merge_into w msg e) = merge_into w msg e" for w
    by (simp add: merge_into_def setTransition_def updateService_def Let_def)
  then show ?thesis
    using assms getTransition_provisioner(1) [OF assms(1), of "we_State e"]
    by (simp add: deliver_def Let_def execute_reply end_of_def)
qed

definition run_result :: "workflowEntry \<Rightarrow> workflowEntry \<Rightarrow> Message list \<Rightarrow> gotime \<Rightarrow> bool" where
  "run_result e e' outs t \<longleftrightarrow>
     we_State e' = end_of (isReverse e) \<and> \<not> we_WorkInProgress e' \<and> we_CloseTime e' = t \<and>
     we_ExpectedState e' = we_ExpectedState e \<and> we_Error e' = we_Error e \<and>
     same_definition (we_Service e') (we_Service e) \<and>
     (\<forall>o'\<in>set outs. msg_Action o' = (if isReverse e then DeleteAction else AddAction) \<and>
        same_definition (msg_Service o') (we_Service e))"

lemma run_result_step:
  assumes "run_result e1 e2 outs t" and "we_ExpectedState e1 = we_ExpectedState e"
    and "we_Error e1 = we_Error e" and "same_definition (we_Service e1) (we_Service e)"
    and "msg_Action m = (if isReverse e then DeleteAction else AddAction)"
    and "msg_Service m = we_Service e1"
  shows "run_result e e2 (m # outs) t"
proof -
  have "isReverse e1 = isReverse e" using assms(2) by (simp add: isReverse_def)
  with assms show ?thesis unfolding run_result_def by (auto intro: same_definition_trans)
qed

lemma run_linked:
  assumes "wf_config cfg"
  shows "linked cfg (isReverse e) (we_State e # rest) \<Longrightarrow> rest \<noteq> [] \<Longrightarrow> we_WorkInProgress e \<Longrightarrow>
    map (\<lambda>r. msg_Sender (snd r)) rs = butlast (we_State e # rest) \<Longrightarrow> \<forall>r\<in>set rs. msg_Error (snd r) = '''' \<Longrightarrow>
    \<exists>e' outs. deliver_all (initWorkflow cfg) rs e = returns e' outs \<and>
      map msg_Destination outs = butlast rest \<and> run_result e e' outs (fst (last rs))"
proof (induction rest arbitrary: e rs)
  case Nil
  then show ?case by simp
next
  case (Cons b rest)
  obtain now msg rs' where rs: "rs = (now, msg) # rs'" using Cons.prems(4) by (cases rs) auto
  have sender: "msg_Sender msg = we_State e" "msg_Error msg = ''''" using Cons.prems(4,5) rs by auto
  have "\<not> is_provider (msg_Sender msg)"
    using getTransition_provisioner(2) [OF assms, of "we_State e"] Cons.prems(1) sender by simp
  then have svc: "same_definition (we_Service (updateService msg e)) (we_Service e)"
    by (rule updateService_keeps_definition)
  let ?e1 = "advance b (merge_into (initWorkflow cfg) msg e)"
  note reply = deliver_reply [OF assms Cons.prems(1,3) sender, of now, unfolded Let_def]
  show ?case
  proof (cases "rest = []")
    case True
    let ?e2 = "close_entry now '''' (?e1\<lparr>we_transition := Some closeState\<rparr>)"
    have "b = end_of (isReverse e)" "rs' = []" using Cons.prems(1,4) True rs by auto
    then have "deliver_all (initWorkflow cfg) rs e = returns ?e2 []"
      using reply rs by (simp add: returns_def)
    moreover have "run_result e ?e2 [] now"
      using svc by (simp add: run_result_def end_of_def isReverse_def)
    ultimately show ?thesis using True rs \<open>rs' = []\<close> by auto
  next
    case False
    let ?e2 = "setWIP now True ?e1"
    have b: "b \<noteq> end_of (isReverse e)" and l: "linked cfg (isReverse ?e2) (we_State ?e2 # rest)"
      using Cons.prems(1) False by (cases rest; auto simp: end_of_def)+
    then have first: "deliver (initWorkflow cfg) now msg e = returns ?e2 [request_msg ?e1]"
      using reply by simp
    have rs': "map (\<lambda>r. msg_Sender (snd r)) rs' = butlast (we_State ?e2 # rest)" "rs' \<noteq> []"
      "\<forall>r\<in>set rs'. msg_Error (snd r) = ''''"
      using Cons.prems(4,5) rs False by (auto split: if_splits)
    have "we_WorkInProgress ?e2" by simp
    from Cons.IH [OF l False this rs'(1,3)] obtain e' outs
      where IH: "deliver_all (initWorkflow cfg) rs' ?e2 = returns e' outs"
      "map msg_Destination outs = butlast rest" "run_result ?e2 e' outs (fst (last rs'))"
      by blast
    have "run_result e e' (request_msg ?e1 # outs) (fst (last rs))"
      using svc rs rs'(2) run_result_step [OF IH(3), of e "request_msg ?e1"] by simp
    moreover have "deliver_all (initWorkflow cfg) rs e = returns e' ([request_msg ?e1] @ outs)"
      unfolding rs using first IH(1) by (rule deliver_all_Cons)
    ultimately show ?thesis using IH(2) False by (intro exI conjI) auto
  qed
qed

lemma route_after_split:
  assumes "wf_config cfg" and "p \<in> set (chain cfg)" and "is_provider p"
  shows "\<exists>xs. visited cfg = xs @ route_after cfg p \<and> xs \<noteq> [] \<and> route_after cfg p \<noteq> [] \<and>
    next_name cfg p False = Some (hd (route_after cfg p))"
proof -
  obtain us ys where c: "chain cfg = us @ p # ys" and "p \<notin> set us"
    using assms(2) by (meson split_list_first)
  then have r: "route_after cfg p = filter (\<lambda>s. \<not> is_provider s) ys"
    by (simp add: route_after_def dropWhile_append)
  have "p \<noteq> undeployedState" "p \<noteq> deployedState" using assms(3) by auto
  then have "us \<noteq> []" "ys \<noteq> []" using c last_chain [of cfg] by (auto simp: chain_def Cons_eq_append_conv)
  have "hd us = undeployedState" using c \<open>us \<noteq> []\<close> by (cases us) (auto simp: chain_def)
  then have "filter (\<lambda>s. \<not> is_provider s) us \<noteq> []" using \<open>us \<noteq> []\<close> by (cases us) auto
  moreover obtain s where s: "find (\<lambda>s. \<not> is_provider s) ys = Some s"
    using c \<open>ys \<noteq> []\<close> chain_tail_next by blast
  then have "route_after cfg p \<noteq> [] \<and> hd (route_after cfg p) = s"
    unfolding r by (induction ys) (auto split: if_splits)
  moreover have "next_name cfg p False = Some s"
    using getNextStep_forward [OF assms(1) c s] by (simp add: next_name_def)
  moreover have "visited cfg = filter (\<lambda>s. \<not> is_provider s) us @ route_after cfg p"
    using c assms(3) r by (simp add: visited_def)
  ultimately show ?thesis by blast
qed

lemma getTransition_provider:
  "wf_config cfg \<Longrightarrow> p \<in> set (chain cfg) \<Longrightarrow> is_provider p \<Longrightarrow>
     getTransition (initWorkflow cfg) p = Some providerState"
  by (simp add: getTransition_chain kind_of_provider)

text \<open>A provider's message, accepted: what the entry looks like when the first step is entered.\<close>

lemma deliver_add:
  assumes "wf_config cfg" and "msg_Sender msg \<in> set (chain cfg)" and "is_provider (msg_Sender msg)"
    and "msg_Action msg = AddAction" and "next_name cfg (msg_Sender msg) False = Some s"
  shows "deliver (initWorkflow cfg) now msg e =
    enter now (msg_Error msg)
      (advance s (setState msg False (setTargetState deployedState
        (setLastUpdate now (merge_into (initWorkflow cfg) msg e)))))"
  using assms by (simp add: deliver_def Let_def getTransition_provider execute_add)

lemma deliver_delete:
  assumes "wf_config cfg" and "msg_Sender msg \<in> set (chain cfg)" and "is_provider (msg_Sender msg)"
    and "msg_Action msg = DeleteAction" and "\<not> we_WorkInProgress e"
    and "next_name cfg (we_State e) True = Some s"
  shows "deliver (initWorkflow cfg) now msg e =
    enter now (msg_Error msg)
      (advance s (setTargetState undeployedState (merge_into (initWorkflow cfg) msg e)))"
  using assms by (simp add: deliver_def Let_def getTransition_provider execute_delete)

text \<open>Entering a linked step and then receiving every reply leads to the end of the workflow.\<close>

lemma enter_run:
  assumes "wf_config cfg" and l: "linked cfg (isReverse e) (s # rest)"
    and e: "we_State e = s" "deliver (initWorkflow cfg) now msg old = enter now '''' e"
    and rs: "map (\<lambda>r. msg_Sender (snd r)) rs = butlast (s # rest)"
      "\<forall>r\<in>set rs. msg_Error (snd r) = ''''"
  shows "\<exists>e' outs. deliver_all (initWorkflow cfg) ((now, msg) # rs) old = returns e' outs \<and>
    map msg_Destination outs = butlast (s # rest) \<and>
    run_result e e' outs (if rs = [] then now else fst (last rs))"
proof (cases "rest = []")
  case True
  then have "s = end_of (isReverse e)" "rs = []" using l rs by auto
  then have "deliver_all (initWorkflow cfg) ((now, msg) # rs) old = returns (close_entry now '''' e) []"
    using e by (auto simp: enter_def returns_def end_of_def)
  moreover have "run_result e (close_entry now '''' e) [] now"
    by (simp add: run_result_def end_of_def)
  ultimately show ?thesis using True \<open>rs = []\<close> by auto
next
  case False
  let ?e1 = "setWIP now True e"
  have "s \<noteq> undeployedState" "s \<noteq> deployedState" using l False by (cases rest; simp)+
  then have first: "deliver (initWorkflow cfg) now msg old = returns ?e1 [request_msg e]"
    using e by (simp add: enter_def)
  have "linked cfg (isReverse ?e1) (we_State ?e1 # rest)" using l e(1) by simp
  then obtain e' outs where run: "deliver_all (initWorkflow cfg) rs ?e1 = returns e' outs"
    "map msg_Destination outs = butlast rest" "run_result ?e1 e' outs (fst (last rs))"
    using run_linked [OF assms(1), of ?e1 rest rs] rs e(1) False by auto
  have "run_result e e' (request_msg e # outs) (fst (last rs))"
    using run_result_step [OF run(3), of e "request_msg e"] by simp
  moreover have "deliver_all (initWorkflow cfg) ((now, msg) # rs) old = returns e' ([request_msg e] @ outs)"
    using first run(1) by (rule deliver_all_Cons)
  moreover have "rs \<noteq> []" using rs(1) False by auto
  ultimately show ?thesis using run(2) e(1) False by (intro exI conjI) auto
qed

section \<open>Properties of the handlers\<close>

text \<open>
  C2. Deployment completes. From any entry, when a provider of the workflow announces a service
  and every provisioner after it answers without an error, in turn, then exactly one add request
  goes to each of them, in workflow order and carrying the announced definition, and the entry
  ends \<open>deployed\<close>, as expected, not in progress, without an error, holding that definition.
\<close>

theorem deployment_completes:
  assumes "wf_config cfg" and "p \<in> set (chain cfg)" and "is_provider p"
    and "msg_Sender m = p" and "msg_Action m = AddAction" and "msg_Error m = ''''"
    and "map (\<lambda>r. msg_Sender (snd r)) rs = butlast (route_after cfg p)"
    and "\<forall>r\<in>set rs. msg_Error (snd r) = ''''"
  shows "\<exists>e' outs. deliver_all (initWorkflow cfg) ((now, m) # rs) e = Some (Inr (e', outs)) \<and>
    map msg_Destination outs = butlast (route_after cfg p) \<and>
    (\<forall>o'\<in>set outs. msg_Action o' = AddAction \<and> same_definition (msg_Service o') (msg_Service m)) \<and>
    we_State e' = deployedState \<and> we_ExpectedState e' = deployedState \<and>
    \<not> we_WorkInProgress e' \<and> we_Error e' = '''' \<and> same_definition (we_Service e') (msg_Service m)"
proof -
  obtain xs where v: "visited cfg = xs @ route_after cfg p" "xs \<noteq> []" "route_after cfg p \<noteq> []"
    "next_name cfg p False = Some (hd (route_after cfg p))"
    using route_after_split [OF assms(1-3)] by blast
  then obtain s rest where r: "route_after cfg p = s # rest" by (cases "route_after cfg p") auto
  let ?e = "advance s (setState m False (setTargetState deployedState
    (setLastUpdate now (merge_into (initWorkflow cfg) m e))))"
  have rev: "\<not> isReverse ?e" by (simp add: entry_defs)
  have l: "linked cfg (isReverse ?e) (s # rest)"
    using linked_forward [OF assms(1) v(1-3)] r rev by simp
  have d: "deliver (initWorkflow cfg) now m e = enter now '''' ?e"
    using deliver_add [OF assms(1), of m s] assms(2-6) v(4) r by simp
  obtain e' outs where run: "deliver_all (initWorkflow cfg) ((now, m) # rs) e = returns e' outs"
    "map msg_Destination outs = butlast (s # rest)"
    "run_result ?e e' outs (if rs = [] then now else fst (last rs))"
    using enter_run [OF assms(1) l _ d, of rs] assms(7,8) r by auto
  have "we_ExpectedState ?e = deployedState" "we_Error ?e = ''''"
    "same_definition (we_Service ?e) (msg_Service m)"
    using updateService_takes_definition [of m e] assms(3-6)
    by (simp_all add: setState_def setTargetState_def setLastUpdate_def)
  with run rev r show ?thesis
    by (auto simp: run_result_def returns_def end_of_def intro: same_definition_trans)
qed

text \<open>A run on the documentation's configuration, for the witnesses.\<close>

definition reply_from :: "string \<Rightarrow> Message" where
  "reply_from s = zero_Message\<lparr>msg_Sender := s, msg_Action := UpdateAction\<rparr>"

definition announce :: "string \<Rightarrow> Message" where
  "announce act = zero_Message\<lparr>msg_Sender := ''provider.swarm'', msg_Action := act,
     msg_Service := zero_Service\<lparr>svc_Name := ''web'', svc_DNSAliases := Some [''www.web.dom'']\<rparr>\<rparr>"

lemma announce_simps [simp]:
  "msg_Sender (announce act) = ''provider.swarm''" "msg_Action (announce act) = act"
  "msg_Error (announce act) = ''''" "svc_Name (msg_Service (announce act)) = ''web''"
  by (simp_all add: announce_def zero_Message_def)

lemma reply_from_simps [simp]:
  "msg_Sender (reply_from s) = s" "msg_Action (reply_from s) = UpdateAction"
  "msg_Error (reply_from s) = ''''"
  by (simp_all add: reply_from_def zero_Message_def)

lemma doc_provider: "''provider.swarm'' \<in> set (chain doc_config)" "is_provider ''provider.swarm''"
  by (simp_all add: doc_config_chain is_provider_def HasPrefix_def)

lemma doc_route: "route_after doc_config ''provider.swarm'' = [''ipam.ipalloc'', ''lb.f5ltm'', deployedState]"
  by (simp add: route_after_def doc_config_chain is_provider_def HasPrefix_def deployedState_def)

theorem deployment_completes_witness:
  "\<exists>e' outs. deliver_all (initWorkflow doc_config)
      [(1, announce AddAction), (2, reply_from ''ipam.ipalloc''), (3, reply_from ''lb.f5ltm'')] zero_entry =
      Some (Inr (e', outs)) \<and>
    map msg_Destination outs = [''ipam.ipalloc'', ''lb.f5ltm''] \<and> we_State e' = deployedState"
proof -
  have "\<exists>e' outs. deliver_all (initWorkflow doc_config) ((1, announce AddAction) #
      [(2, reply_from ''ipam.ipalloc''), (3, reply_from ''lb.f5ltm'')]) zero_entry = Some (Inr (e', outs)) \<and>
    map msg_Destination outs = butlast (route_after doc_config ''provider.swarm'') \<and>
    (\<forall>o'\<in>set outs. msg_Action o' = AddAction \<and>
       same_definition (msg_Service o') (msg_Service (announce AddAction))) \<and>
    we_State e' = deployedState \<and> we_ExpectedState e' = deployedState \<and> \<not> we_WorkInProgress e' \<and>
    we_Error e' = '''' \<and> same_definition (we_Service e') (msg_Service (announce AddAction))"
    by (rule deployment_completes [OF doc_config_wf doc_provider]) (simp_all add: doc_route)
  then show ?thesis unfolding doc_route by fastforce
qed

text \<open>
  C3. Undeployment completes. From an entry that is \<open>deployed\<close> and not in progress, when a provider
  reports the service as deleted and every provisioner answers without an error, in turn, then
  exactly one delete request goes to every provisioner, in the reverse of the workflow order, and
  the entry ends \<open>undeployed\<close>, as expected, not in progress.
\<close>

theorem undeployment_completes:
  assumes "wf_config cfg" and "p \<in> set (chain cfg)" and "is_provider p"
    and "msg_Sender m = p" and "msg_Action m = DeleteAction" and "msg_Error m = ''''"
    and "we_State e = deployedState" and "\<not> we_WorkInProgress e"
    and "map (\<lambda>r. msg_Sender (snd r)) rs = rev (butlast (tl (visited cfg)))"
    and "\<forall>r\<in>set rs. msg_Error (snd r) = ''''"
  shows "\<exists>e' outs. deliver_all (initWorkflow cfg) ((now, m) # rs) e = Some (Inr (e', outs)) \<and>
    map msg_Destination outs = rev (butlast (tl (visited cfg))) \<and>
    (\<forall>o'\<in>set outs. msg_Action o' = DeleteAction) \<and>
    we_State e' = undeployedState \<and> we_ExpectedState e' = undeployedState \<and>
    \<not> we_WorkInProgress e'"
proof -
  obtain mid where v: "visited cfg = undeployedState # mid @ [deployedState]"
    by (simp add: visited_def chain_def)
  obtain s rest where sr: "rev (undeployedState # mid) = s # rest"
    by (cases "rev (undeployedState # mid)") auto
  then have bl: "rev mid = butlast (s # rest)" by (metis butlast_snoc rev.simps(2))
  have us: "undeployedState # mid = rev rest @ [s]" using sr by (metis rev_rev_ident rev.simps(2))
  have "visited cfg = rev rest @ s # deployedState # []" using v us by simp
  then have "next_name cfg (we_State e) True = Some s"
    using nav.next_backward [OF assms(1)] assms(7) by simp
  note d = deliver_delete [OF assms(1), of m e s now, unfolded assms(6)]
  let ?e = "advance s (setTargetState undeployedState (merge_into (initWorkflow cfg) m e))"
  have rev: "isReverse ?e" by (simp add: entry_defs)
  have l: "linked cfg (isReverse ?e) (s # rest)"
    using linked_backward [OF assms(1), of "undeployedState # mid" "[deployedState]"] v sr rev by simp
  have "map (\<lambda>r. msg_Sender (snd r)) rs = butlast (s # rest)" using assms(9) v bl by simp
  from enter_run [OF assms(1) l _ _ this assms(10), where msg = m and now = now and old = e]
  obtain e' outs where run: "deliver_all (initWorkflow cfg) ((now, m) # rs) e = returns e' outs"
    "map msg_Destination outs = butlast (s # rest)"
    "run_result ?e e' outs (if rs = [] then now else fst (last rs))"
    using d assms(2-5,8) \<open>next_name cfg (we_State e) True = Some s\<close> by auto
  have "we_ExpectedState ?e = undeployedState" by (simp add: setTargetState_def)
  with run rev v bl show ?thesis by (auto simp: run_result_def returns_def end_of_def)
qed

theorem undeployment_completes_witness:
  "\<exists>e' outs. deliver_all (initWorkflow doc_config)
      [(1, announce DeleteAction), (2, reply_from ''lb.f5ltm''), (3, reply_from ''ipam.ipalloc'')]
      (zero_entry\<lparr>we_State := deployedState, we_ExpectedState := deployedState\<rparr>) = Some (Inr (e', outs)) \<and>
    map msg_Destination outs = [''lb.f5ltm'', ''ipam.ipalloc''] \<and> we_State e' = undeployedState"
proof -
  have "\<exists>e' outs. deliver_all (initWorkflow doc_config) ((1, announce DeleteAction) #
      [(2, reply_from ''lb.f5ltm''), (3, reply_from ''ipam.ipalloc'')])
      (zero_entry\<lparr>we_State := deployedState, we_ExpectedState := deployedState\<rparr>) = Some (Inr (e', outs)) \<and>
    map msg_Destination outs = rev (butlast (tl (visited doc_config))) \<and>
    (\<forall>o'\<in>set outs. msg_Action o' = DeleteAction) \<and> we_State e' = undeployedState \<and>
    we_ExpectedState e' = undeployedState \<and> \<not> we_WorkInProgress e'"
    by (rule undeployment_completes [OF doc_config_wf doc_provider])
      (simp_all add: doc_config_visited zero_entry_def)
  then show ?thesis by (auto simp: doc_config_visited)
qed

text \<open>
  A failed step stops the workflow. When the provisioner an entry waits for answers with an
  error, the entry stays at that step, no longer in progress, with the error recorded, and nothing
  is sent to any extension.
\<close>

theorem error_reply_stops:
  assumes "wf_config cfg" and "we_State e \<in> set (visited cfg)"
    and "we_State e \<noteq> undeployedState" and "we_State e \<noteq> deployedState"
    and "we_WorkInProgress e" and "msg_Sender m = we_State e" and "msg_Error m \<noteq> ''''"
  shows "\<exists>e'. deliver (initWorkflow cfg) now m e = Some (Inr (e', [])) \<and>
    we_State e' = we_State e \<and> we_ExpectedState e' = we_ExpectedState e \<and>
    \<not> we_WorkInProgress e' \<and> we_Error e' = msg_Error m"
  using assms getTransition_provisioner(1) [OF assms(1-4)]
  by (simp add: deliver_def Let_def execute_error_reply returns_def)
    (simp add: setError_def)

theorem error_reply_stops_witness:
  "\<exists>e'. deliver (initWorkflow doc_config) 5 ((reply_from ''lb.f5ltm'')\<lparr>msg_Error := ''down''\<rparr>)
      (setWIP 4 True (zero_entry\<lparr>we_State := ''lb.f5ltm''\<rparr>)) = Some (Inr (e', [])) \<and>
    we_State e' = ''lb.f5ltm'' \<and> we_ExpectedState e' = '''' \<and> \<not> we_WorkInProgress e' \<and> we_Error e' = ''down''"
  using error_reply_stops [OF doc_config_wf,
      of "setWIP 4 True (zero_entry\<lparr>we_State := ''lb.f5ltm''\<rparr>)"
         "(reply_from ''lb.f5ltm'')\<lparr>msg_Error := ''down''\<rparr>" 5]
  by (simp add: doc_config_visited zero_entry_def deployedState_def undeployedState_def)

text \<open>
  An answer from another provisioner than the one an entry waits for does not move the entry:
  its state, target, progress, error and times stay, and nothing is sent.
\<close>

theorem foreign_reply_ignored:
  assumes "wf_config cfg" and "msg_Sender m \<in> set (visited cfg)"
    and "msg_Sender m \<noteq> undeployedState" and "msg_Sender m \<noteq> deployedState"
    and "we_WorkInProgress e" and "msg_Sender m \<noteq> we_State e"
  shows "\<exists>e'. deliver (initWorkflow cfg) now m e = Some (Inr (e', [])) \<and>
    we_State e' = we_State e \<and> we_ExpectedState e' = we_ExpectedState e \<and> we_WorkInProgress e' \<and>
    we_WIPTime e' = we_WIPTime e \<and> we_Error e' = we_Error e \<and> we_CloseTime e' = we_CloseTime e"
  using assms getTransition_provisioner(1) [OF assms(1-4)]
  by (simp add: deliver_def Let_def execute_foreign_reply returns_def)

theorem foreign_reply_ignored_witness:
  "\<exists>e'. deliver (initWorkflow doc_config) 5 (reply_from ''ipam.ipalloc'')
      (setWIP 4 True (zero_entry\<lparr>we_State := ''lb.f5ltm''\<rparr>)) = Some (Inr (e', [])) \<and>
    we_State e' = ''lb.f5ltm'' \<and> we_WorkInProgress e'"
  using foreign_reply_ignored [OF doc_config_wf, of "reply_from ''ipam.ipalloc''"
      "setWIP 4 True (zero_entry\<lparr>we_State := ''lb.f5ltm''\<rparr>)" 5]
  by (auto simp: doc_config_visited zero_entry_def deployedState_def undeployedState_def)

text \<open>
  The guard of \<open>providerAddState\<close> that is to ignore announcements of a service still under
  deployment has no effect, since \<open>providerState\<close> has just set the state to the provider: whatever
  step is in progress, an announcement restarts the workflow at the first provisioner and sends it
  a second add request.
\<close>

theorem add_during_deployment_restarts:
  assumes "wf_config cfg" and "msg_Sender m \<in> set (chain cfg)" and "is_provider (msg_Sender m)"
    and "msg_Action m = AddAction" and "route_after cfg (msg_Sender m) = s # t # rest"
    and "we_WorkInProgress e" and "we_CloseTime e = 0" and "we_Error e = ''''"
  shows "\<exists>e' out. deliver (initWorkflow cfg) now m e = Some (Inr (e', [out])) \<and>
    we_State e' = s \<and> we_WorkInProgress e' \<and> we_WIPTime e' = now \<and>
    msg_Destination out = s \<and> msg_Action out = AddAction"
proof -
  obtain xs where v: "visited cfg = xs @ s # t # rest" "xs \<noteq> []"
    "next_name cfg (msg_Sender m) False = Some s"
    using route_after_split [OF assms(1-3)] assms(5) by auto
  let ?e = "advance s (setState m False (setTargetState deployedState
    (setLastUpdate now (merge_into (initWorkflow cfg) m e))))"
  have "\<not> isReverse ?e" by (simp add: entry_defs)
  moreover have "s \<noteq> undeployedState" "s \<noteq> deployedState"
    using visited_inner [OF assms(1) v(1)] v(2) by auto
  ultimately show ?thesis using deliver_add [OF assms(1-4) v(3)]
    by (simp add: enter_def returns_def)
qed

theorem add_during_deployment_restarts_witness:
  "\<exists>e' out. deliver (initWorkflow doc_config) 9 (announce AddAction)
      (setWIP 4 True (zero_entry\<lparr>we_State := ''lb.f5ltm''\<rparr>)) = Some (Inr (e', [out])) \<and>
    we_State e' = ''ipam.ipalloc'' \<and> we_WorkInProgress e' \<and> we_WIPTime e' = 9 \<and>
    msg_Destination out = ''ipam.ipalloc'' \<and> msg_Action out = AddAction"
  by (rule add_during_deployment_restarts [OF doc_config_wf])
    (simp_all add: doc_provider doc_route zero_entry_def)

text \<open>
  An answer that arrives when its entry is no longer in progress, as after a timeout has closed
  it, is taken for a transition: a closed entry is marked in progress again, and a request is sent
  to the name of its final state, which is no extension.
\<close>

theorem late_reply_reopens:
  assumes "wf_config cfg" and "msg_Sender m \<in> set (visited cfg)"
    and "msg_Sender m \<noteq> undeployedState" and "msg_Sender m \<noteq> deployedState"
    and "\<not> we_WorkInProgress e"
  shows "\<exists>e' out. deliver (initWorkflow cfg) now m e = Some (Inr (e', [out])) \<and>
    we_WorkInProgress e' \<and> we_State e' = we_State e \<and> msg_Destination out = we_State e"
  using assms getTransition_provisioner(1) [OF assms(1-4)]
  by (simp add: deliver_def Let_def execute_provisionerState sendToExtension_eq returns_def)

theorem late_reply_reopens_witness:
  "\<exists>e' out. deliver (initWorkflow doc_config) 9 (reply_from ''lb.f5ltm'')
      (close_entry 8 ''timeout'' zero_entry) = Some (Inr (e', [out])) \<and>
    we_WorkInProgress e' \<and> we_State e' = deployedState \<and> msg_Destination out = deployedState"
  using late_reply_reopens [OF doc_config_wf, of "reply_from ''lb.f5ltm''" "close_entry 8 ''timeout'' zero_entry" 9]
  by (simp add: doc_config_visited deployedState_def undeployedState_def zero_entry_def isReverse_def)

text \<open>Where \<open>providerDeleteState\<close> finds no step to go to.\<close>

definition stuck_delete :: "workflowEntry \<Rightarrow> bool" where
  "stuck_delete e \<longleftrightarrow>
     we_State e = undeployedState \<and> (we_WorkInProgress e \<longrightarrow> we_ExpectedState e = undeployedState)"

lemma stuck_delete_steps:
  assumes "wf_config cfg" and "stuck_delete e"
  shows "setNextStep (initWorkflow cfg) (setTargetState undeployedState e) = Some (setTargetState undeployedState e)"
    and "we_WorkInProgress e \<Longrightarrow> setNextStep (initWorkflow cfg) e = Some e"
  using assms nav.next_start [OF assms(1)]
  by (simp_all add: setNextStep_wf stuck_delete_def setTargetState_def isReverse_def)

definition looping_call :: "string \<Rightarrow> workflowSteps \<Rightarrow> transition option \<Rightarrow> workflowEntry \<Rightarrow> Message \<Rightarrow> bool" where
  "looping_call cfg w tr we msg \<longleftrightarrow>
     w = initWorkflow cfg \<and> tr = Some providerDeleteState \<and> we_transition we = Some providerDeleteState \<and>
     stuck_delete we \<and> msg_Action msg = DeleteAction \<and> is_provider (msg_Sender msg)"

lemma execute_stuck_delete:
  assumes "wf_config cfg" and "looping_call cfg w tr we msg"
  shows "execute w now tr we msg = None"
proof -
  have "\<not> looping_call cfg w tr we msg" if "execute w now tr we msg = Some y" for w now tr we msg y
  proof (rule execute.raw_induct [OF _ that,
        where P = "\<lambda>w now tr we msg y. \<not> looping_call cfg w tr we msg"], goal_cases)
    case (1 f w now tr we msg y)
    show ?case
    proof
      assume l: "looping_call cfg w tr we msg"
      let ?we = "setTargetState undeployedState we"
      from l have stuck: "stuck_delete we" and w: "w = initWorkflow cfg"
        and c: "tr = Some providerDeleteState" "msg_Action msg = DeleteAction"
          "HasPrefix (msg_Sender msg) ''provider.''"
        by (simp_all add: looping_call_def is_provider_def)
      have "(if we_WorkInProgress we then setNextStep w we else Some we) = Some we"
        "setNextStep w ?we = Some ?we"
        using stuck_delete_steps [OF assms(1) stuck] w by simp_all
      then have "f w now (we_transition ?we) ?we (msg\<lparr>msg_Service := we_Service ?we\<rparr>) = Some y"
        using 1(2) c by simp
      moreover have "looping_call cfg w (we_transition ?we) ?we (msg\<lparr>msg_Service := we_Service ?we\<rparr>)"
        using l by (simp add: looping_call_def stuck_delete_def setTargetState_def)
      ultimately show False using 1(1) by blast
    qed
  qed
  then show ?thesis using assms(2) by (metis option.exhaust)
qed

lemma execute_delete_stuck:
  assumes "wf_config cfg" and "is_provider (msg_Sender m)" and "msg_Action m = DeleteAction"
    and "stuck_delete e"
  shows "execute (initWorkflow cfg) now (Some providerState) e m = None"
  using assms
  by (simp add: execute_providerState)
    (intro execute_stuck_delete [OF assms(1)], simp add: looping_call_def stuck_delete_def)

text \<open>
  A second deletion crashes the core. When a provider reports a service as deleted whose entry
  is already \<open>undeployed\<close> (and not being deployed), the handler finds no step before \<open>undeployed\<close>,
  keeps itself as the entry's transition and calls it again, forever.
\<close>

theorem delete_undeployed_never_returns:
  assumes "wf_config cfg" and "msg_Sender m \<in> set (chain cfg)" and "is_provider (msg_Sender m)"
    and "msg_Action m = DeleteAction" and "we_State e = undeployedState" and "\<not> we_WorkInProgress e"
  shows "deliver (initWorkflow cfg) now m e = None"
  using assms execute_delete_stuck [OF assms(1,3,4), of "merge_into (initWorkflow cfg) m e" now]
  by (simp add: deliver_def Let_def getTransition_provider stuck_delete_def)
theorem delete_undeployed_never_returns_witness:
  "deliver (initWorkflow doc_config) 9 (announce DeleteAction)
     (zero_entry\<lparr>we_State := undeployedState, we_ExpectedState := undeployedState\<rparr>) = None"
  by (rule delete_undeployed_never_returns [OF doc_config_wf])
    (simp_all add: doc_provider zero_entry_def)

end
