(* ===== verification/Entry_Machine.thy ===== *)
theory Entry_Machine
  imports Transition
begin

text \<open>
  The abstract machine of a tracked service: a position on the route from \<open>undeployed\<close> (0) to
  \<open>deployed\<close> (\<open>n\<close>), a direction and whether an extension is at work. Theorem \<open>deliver_refines\<close>
  states that delivering a message to an entry (\<open>src/core/workflow.go\<close>, \<open>src/core/transition.go\<close>)
  is one step of this machine, on every branch, the calls that never return included.
\<close>

section \<open>The abstract machine\<close>

record phase =
  ph_pos :: nat
  ph_down :: bool
  ph_busy :: bool

text \<open>
  Events: a provider announces the service (the workflow is entered at a given position), a
  provider withdraws it, the provisioner at a position answers, well or not.
\<close>

datatype event = Announce nat | Withdraw | Answer nat bool

text \<open>Reaching a position: an end closes the entry; a position between sends it a request.\<close>

definition reach :: "nat \<Rightarrow> nat \<Rightarrow> bool \<Rightarrow> phase \<times> nat list" where
  "reach n k down =
     (if k = 0 \<or> k = n then (\<lparr>ph_pos = k, ph_down = down, ph_busy = False\<rparr>, [])
      else (\<lparr>ph_pos = k, ph_down = down, ph_busy = True\<rparr>, [k]))"

fun machine :: "nat \<Rightarrow> phase \<Rightarrow> event \<Rightarrow> (phase \<times> nat list) option" where
  "machine n s (Announce k) = Some (reach n k False)"
| "machine n s Withdraw =
     (if ph_busy s \<and> \<not> ph_down s then Some (reach n (min n (Suc (ph_pos s)) - 1) True)
      else if ph_pos s = 0 then None
      else Some (reach n (ph_pos s - (if ph_busy s then 2 else 1)) True))"
| "machine n s (Answer k ok) =
     (if \<not> ph_busy s then Some (s\<lparr>ph_busy := True\<rparr>, [ph_pos s])
      else if k \<noteq> ph_pos s then Some (s, [])
      else if \<not> ok then Some (s\<lparr>ph_busy := False\<rparr>, [])
      else Some (reach n (if ph_down s then k - 1 else k + 1) (ph_down s)))"

section \<open>Abstraction\<close>

definition pos_of :: "string \<Rightarrow> string \<Rightarrow> nat" where
  "pos_of cfg s = length (takeWhile (\<lambda>x. x \<noteq> s) (visited cfg))"

definition top_of :: "string \<Rightarrow> nat" where
  "top_of cfg = length (visited cfg) - 1"

definition phase_of :: "string \<Rightarrow> workflowEntry \<Rightarrow> phase" where
  "phase_of cfg e = \<lparr>ph_pos = pos_of cfg (we_State e), ph_down = isReverse e,
                     ph_busy = we_WorkInProgress e\<rparr>"

definition event_of :: "string \<Rightarrow> Message \<Rightarrow> event" where
  "event_of cfg m =
     (if is_provider (msg_Sender m)
      then (if msg_Action m = AddAction then Announce (pos_of cfg (hd (route_after cfg (msg_Sender m))))
            else Withdraw)
      else Answer (pos_of cfg (msg_Sender m)) (msg_Error m = ''''))"

definition abs_outcome :: "string \<Rightarrow> outcome \<Rightarrow> (phase \<times> nat list) option" where
  "abs_outcome cfg r =
     (case r of Some (Inr (e, out)) \<Rightarrow> Some (phase_of cfg e, map (\<lambda>m. pos_of cfg (msg_Destination m)) out)
      | _ \<Rightarrow> None)"

text \<open>The messages an entry is meant for: from a provider, to add or delete, or from a provisioner.\<close>

definition proper_message :: "string \<Rightarrow> Message \<Rightarrow> bool" where
  "proper_message cfg m \<longleftrightarrow>
     msg_Sender m \<in> set (chain cfg) \<and> msg_Sender m \<noteq> undeployedState \<and> msg_Sender m \<noteq> deployedState \<and>
     (is_provider (msg_Sender m) \<longrightarrow> msg_Action m = AddAction \<or> msg_Action m = DeleteAction)"

section \<open>Positions\<close>

lemma pos_of_nth:
  assumes "wf_config cfg" and "i < length (visited cfg)"
  shows "pos_of cfg (visited cfg ! i) = i"
proof -
  have d: "distinct (visited cfg)" using assms(1) by (rule nav.route_distinct)
  have "takeWhile (\<lambda>x. x \<noteq> visited cfg ! i) (visited cfg) = take i (visited cfg)"
    by (rule takeWhile_eq_take_P_nth)
      (use d assms(2) in \<open>auto simp: nth_eq_iff_index_eq\<close>)
  then show ?thesis using assms(2) by (simp add: pos_of_def)
qed

lemma nth_pos_of:
  assumes "s \<in> set (visited cfg)"
  shows "visited cfg ! pos_of cfg s = s \<and> pos_of cfg s < length (visited cfg)"
proof -
  obtain ys zs where v: "visited cfg = ys @ s # zs" "s \<notin> set ys"
    using assms by (meson split_list_first)
  then have "takeWhile (\<lambda>x. x \<noteq> s) (visited cfg) = ys" by (auto simp: takeWhile_tail)
  then show ?thesis using v(1) by (simp add: pos_of_def)
qed
lemma pos_of_inject:
  "s \<in> set (visited cfg) \<Longrightarrow> t \<in> set (visited cfg) \<Longrightarrow> pos_of cfg s = pos_of cfg t \<longleftrightarrow> s = t"
  by (metis nth_pos_of)

lemma visited_0: "visited cfg ! 0 = undeployedState"
  by (metis hd_conv_nth visited_ends(1,2))

lemma visited_top: "visited cfg ! top_of cfg = deployedState"
  by (metis last_conv_nth top_of_def visited_ends(1,3))

lemma top_of_pos [simp]: "0 < top_of cfg" "top_of cfg < length (visited cfg)"
proof -
  have "length (visited cfg) \<ge> 2" by (simp add: visited_def chain_def)
  then show "0 < top_of cfg" "top_of cfg < length (visited cfg)" by (simp_all add: top_of_def)
qed

lemma states_visited [simp]: "undeployedState \<in> set (visited cfg)" "deployedState \<in> set (visited cfg)"
  by (simp_all add: visited_def chain_def)

lemma pos_of_ends [simp]:
  assumes "wf_config cfg"
  shows "pos_of cfg undeployedState = 0" and "pos_of cfg deployedState = top_of cfg"
  using pos_of_nth [OF assms, of 0] pos_of_nth [OF assms, of "top_of cfg"]
  by (simp_all add: visited_0 visited_top)

lemma pos_of_end_iff:
  assumes "wf_config cfg" and "s \<in> set (visited cfg)"
  shows "pos_of cfg s = 0 \<longleftrightarrow> s = undeployedState" and "pos_of cfg s = top_of cfg \<longleftrightarrow> s = deployedState"
  using assms pos_of_inject [of s cfg undeployedState] pos_of_inject [of s cfg deployedState]
  by simp_all

lemma pos_of_le_top: "s \<in> set (visited cfg) \<Longrightarrow> pos_of cfg s \<le> top_of cfg"
  unfolding top_of_def using nth_pos_of [of s cfg] by linarith

text \<open>Moving along the route is counting.\<close>

lemma next_name_up:
  assumes "wf_config cfg" and "s \<in> set (visited cfg)" and "s \<noteq> deployedState"
  shows "\<exists>t\<in>set (visited cfg). next_name cfg s False = Some t \<and> pos_of cfg t = Suc (pos_of cfg s)"
proof -
  let ?i = "pos_of cfg s"
  have i: "visited cfg ! ?i = s" "Suc ?i < length (visited cfg)"
    using nth_pos_of [OF assms(2)] pos_of_end_iff(2) [OF assms(1,2)] assms(3)
      pos_of_le_top [OF assms(2)] by (auto simp: top_of_def)
  have "visited cfg = take ?i (visited cfg) @ s # visited cfg ! Suc ?i # drop (Suc (Suc ?i)) (visited cfg)"
    using i by (metis Cons_nth_drop_Suc Suc_lessD append_take_drop_id)
  from nav.next_forward [OF assms(1) this] show ?thesis
    using pos_of_nth [OF assms(1) i(2)] i(2) by auto
qed

lemma next_name_down:
  assumes "wf_config cfg" and "s \<in> set (visited cfg)" and "s \<noteq> undeployedState"
  shows "\<exists>t\<in>set (visited cfg). next_name cfg s True = Some t \<and> Suc (pos_of cfg t) = pos_of cfg s"
proof -
  obtain j where j: "pos_of cfg s = Suc j"
    using pos_of_end_iff(1) [OF assms(1,2)] assms(3) not0_implies_Suc by blast
  have i: "visited cfg ! Suc j = s" "Suc j < length (visited cfg)"
    using nth_pos_of [OF assms(2)] j by auto
  have "visited cfg = take j (visited cfg) @ visited cfg ! j # s # drop (Suc (Suc j)) (visited cfg)"
    using i by (metis Cons_nth_drop_Suc Suc_lessD append_take_drop_id)
  from nav.next_backward [OF assms(1) this] show ?thesis
    using pos_of_nth [OF assms(1), of j] i(2) j by auto
qed

lemma next_name_at_end:
  assumes "wf_config cfg"
  shows "next_name cfg deployedState False = None" and "next_name cfg undeployedState True = None"
  using nav.next_end [OF assms] nav.next_start [OF assms] by simp_all

section \<open>Refinement\<close>

lemma phase_of_simps [simp]:
  "ph_pos (phase_of cfg e) = pos_of cfg (we_State e)"
  "ph_down (phase_of cfg e) = isReverse e"
  "ph_busy (phase_of cfg e) = we_WorkInProgress e"
  by (simp_all add: phase_of_def)

lemma phase_eqI:
  "ph_pos s = a \<Longrightarrow> ph_down s = b \<Longrightarrow> ph_busy s = c \<Longrightarrow> s = \<lparr>ph_pos = a, ph_down = b, ph_busy = c\<rparr>"
  by (cases s) simp

lemma abs_returns [simp]:
  "abs_outcome cfg (returns e out) = Some (phase_of cfg e, map (\<lambda>m. pos_of cfg (msg_Destination m)) out)"
  by (simp add: abs_outcome_def returns_def)

lemma abs_None [simp]: "abs_outcome cfg None = None"
  by (simp add: abs_outcome_def)

text \<open>Entering a step is reaching its position, provided the end it may be is that of its direction.\<close>

lemma abs_enter:
  assumes "wf_config cfg" and "we_State e \<in> set (visited cfg)"
    and "we_State e = undeployedState \<longrightarrow> isReverse e" and "we_State e = deployedState \<longrightarrow> \<not> isReverse e"
  shows "abs_outcome cfg (enter now err e) = Some (reach (top_of cfg) (pos_of cfg (we_State e)) (isReverse e))"
  using assms pos_of_end_iff [OF assms(1,2)]
  by (auto simp: enter_def reach_def phase_of_def isReverse_def)

lemma abs_add:
  assumes "wf_config cfg" and "proper_message cfg m" and "is_provider (msg_Sender m)"
    and "msg_Action m = AddAction"
  shows "abs_outcome cfg (execute (initWorkflow cfg) now (Some providerState) e m) =
    machine (top_of cfg) s (event_of cfg m)"
proof -
  have p: "msg_Sender m \<in> set (chain cfg)" using assms(2) by (simp add: proper_message_def)
  obtain xs where v: "visited cfg = xs @ route_after cfg (msg_Sender m)" "xs \<noteq> []"
    "route_after cfg (msg_Sender m) \<noteq> []"
    "next_name cfg (msg_Sender m) False = Some (hd (route_after cfg (msg_Sender m)))"
    using route_after_split [OF assms(1) p assms(3)] by blast
  let ?s = "hd (route_after cfg (msg_Sender m))"
  have s: "?s \<in> set (visited cfg)" "?s \<noteq> undeployedState"
    using v(1-3) visited_inner(1) [OF assms(1), of xs ?s "tl (route_after cfg (msg_Sender m))"] by auto
  let ?e = "advance ?s (setState m False (setTargetState deployedState
    (setLastUpdate now e)))"
  have r: "\<not> isReverse ?e" by (simp add: entry_defs)
  show ?thesis
    unfolding execute_add [OF assms(1,3,4) v(4)]
    using abs_enter [OF assms(1), of ?e now "msg_Error m"] s r assms(3,4) by (simp add: event_of_def)
qed

text \<open>\<open>providerDeleteState\<close> after the possible skip of the step in progress.\<close>

lemma abs_delete_from:
  assumes "wf_config cfg" and "is_provider (msg_Sender m)" and "msg_Action m = DeleteAction"
    and "\<not> we_WorkInProgress e" and "we_State e \<in> set (visited cfg)" and "we_State e \<noteq> undeployedState"
  shows "abs_outcome cfg (execute (initWorkflow cfg) now (Some providerState) e m) =
    Some (reach (top_of cfg) (pos_of cfg (we_State e) - 1) True)"
proof -
  obtain t where t: "t \<in> set (visited cfg)" "next_name cfg (we_State e) True = Some t"
    "Suc (pos_of cfg t) = pos_of cfg (we_State e)"
    using next_name_down [OF assms(1,5,6)] by blast
  let ?e = "advance t (setTargetState undeployedState e)"
  have "isReverse ?e" by (simp add: entry_defs)
  moreover have "t \<noteq> deployedState"
    using t(1,3) pos_of_le_top [OF assms(5)] assms(1) by auto
  moreover have "pos_of cfg (we_State e) - 1 = pos_of cfg t" using t(3) by simp
  ultimately show ?thesis
    unfolding execute_delete [OF assms(1-4) t(2)]
    using abs_enter [OF assms(1), of ?e now "msg_Error m"] t(1) by simp
qed

lemma execute_delete_busy:
  assumes "wf_config cfg" and "is_provider (msg_Sender m)" and "msg_Action m = DeleteAction"
    and "we_WorkInProgress e"
    and "skipped = (case next_name cfg (we_State e) (isReverse e) of
                 None \<Rightarrow> e\<lparr>we_transition := Some providerDeleteState\<rparr> | Some s \<Rightarrow> advance s e)"
    and "next_name cfg (we_State skipped) True = Some t"
  shows "execute (initWorkflow cfg) now (Some providerState) e m =
    enter now (msg_Error m) (advance t (setTargetState undeployedState skipped))"
proof -
  have "isReverse (setTargetState undeployedState e') = True" for e' by (simp add: entry_defs)
  moreover have "setNextStep (initWorkflow cfg) (e\<lparr>we_transition := Some providerDeleteState\<rparr>) = Some skipped"
    using assms(1,5) by (simp add: setNextStep_wf isReverse_def advance_def split: option.splits)
  ultimately show ?thesis
    using assms(1-4,6) next_name_visited [OF assms(1,6)]
    by (simp add: execute_providerState execute_providerDeleteState is_provider_def setNextStep_wf)
      (simp add: entry_defs advance_def execute_visited)
qed

lemma execute_delete_first:
  assumes "wf_config cfg" and "is_provider (msg_Sender m)" and "msg_Action m = DeleteAction"
    and "we_WorkInProgress e" and "next_name cfg (we_State e) (isReverse e) = Some undeployedState"
  shows "execute (initWorkflow cfg) now (Some providerState) e m =
    returns (close_entry now (msg_Error m)
      (setTargetState undeployedState (advance undeployedState e))) []"
proof -
  have "setNextStep (initWorkflow cfg) (e\<lparr>we_transition := Some providerDeleteState\<rparr>) =
      Some (advance undeployedState e)"
    using assms(1,5) by (simp add: setNextStep_wf isReverse_def advance_def)
  moreover have "setNextStep (initWorkflow cfg) (setTargetState undeployedState (advance undeployedState e)) =
      Some (setTargetState undeployedState (advance undeployedState e))"
    using stuck_delete_steps(1) [OF assms(1), of "advance undeployedState e"]
    by (simp add: stuck_delete_def)
  moreover have "we_transition (setTargetState undeployedState (advance undeployedState e)) = Some closeState"
    by (simp add: setTargetState_def)
  ultimately show ?thesis
    using assms(2-4)
    by (simp add: execute_providerState execute_providerDeleteState is_provider_def execute_closeState)
qed

lemma abs_delete_busy:
  assumes "wf_config cfg" and "is_provider (msg_Sender m)" and "msg_Action m = DeleteAction"
    and "we_WorkInProgress e" and v: "we_State e \<in> set (visited cfg)"
  shows "abs_outcome cfg (execute (initWorkflow cfg) now (Some providerState) e m) =
    machine (top_of cfg) (phase_of cfg e) Withdraw"
proof -
  note le = pos_of_le_top [OF v]
  have go: "abs_outcome cfg (execute (initWorkflow cfg) now (Some providerState) e m) =
      Some (reach (top_of cfg) (pos_of cfg (we_State skipped) - 1) True)"
    if skipped: "skipped = (case next_name cfg (we_State e) (isReverse e) of
                 None \<Rightarrow> e\<lparr>we_transition := Some providerDeleteState\<rparr> | Some s \<Rightarrow> advance s e)"
      and s1: "we_State skipped \<in> set (visited cfg)" "we_State skipped \<noteq> undeployedState" for skipped
  proof -
    obtain t where t: "t \<in> set (visited cfg)" "next_name cfg (we_State skipped) True = Some t"
      "Suc (pos_of cfg t) = pos_of cfg (we_State skipped)"
      using next_name_down [OF assms(1) s1] by blast
    let ?e = "advance t (setTargetState undeployedState skipped)"
    have "isReverse ?e" by (simp add: entry_defs)
    moreover have "t \<noteq> deployedState" using t(1,3) pos_of_le_top [OF s1(1)] assms(1) by auto
    moreover have "pos_of cfg (we_State skipped) - 1 = pos_of cfg t" using t(3) by simp
    ultimately show ?thesis
      unfolding execute_delete_busy [OF assms(1-4) skipped t(2)]
      using abs_enter [OF assms(1), of ?e now "msg_Error m"] t(1) by simp
  qed
  show ?thesis
  proof (cases "isReverse e")
    case False
    show ?thesis
    proof (cases "we_State e = deployedState")
      case True
      then show ?thesis using go [OF refl] False assms(1,4) next_name_at_end(1) [OF assms(1)]
        by (simp add: min_def)
    next
      case dep: False
      obtain t where t: "t \<in> set (visited cfg)" "next_name cfg (we_State e) False = Some t"
        "pos_of cfg t = Suc (pos_of cfg (we_State e))"
        using next_name_up [OF assms(1) v dep] by blast
      then show ?thesis using go [OF refl] False assms(1,4) pos_of_le_top [OF t(1)]
          pos_of_end_iff(1) [OF assms(1) t(1)] by (simp add: min_def)
    qed
  next
    case True
    show ?thesis
    proof (cases "we_State e = undeployedState")
      case und: True
      have "execute (initWorkflow cfg) now (Some providerState) e m = None"
        using execute_delete_stuck [OF assms(1-3)] True und
        by (simp add: stuck_delete_def isReverse_def split: if_splits)
      then show ?thesis using True und assms(1,4) by simp
    next
      case False
      obtain t where t: "t \<in> set (visited cfg)" "next_name cfg (we_State e) True = Some t"
        "Suc (pos_of cfg t) = pos_of cfg (we_State e)"
        using next_name_down [OF assms(1) v False] by blast
      show ?thesis
      proof (cases "t = undeployedState")
        case u: True
        then have "pos_of cfg (we_State e) = 1" using t(3) assms(1) by simp
        then show ?thesis using execute_delete_first [OF assms(1-4), of now] True t(2) u assms(1,4)
          by (simp add: reach_def phase_of_def) (simp add: entry_defs)
      next
        case nu: False
        moreover have "pos_of cfg (we_State e) \<noteq> 0" "pos_of cfg (we_State e) - 2 = pos_of cfg t - 1"
          using t(3) by linarith+
        ultimately show ?thesis using go [OF refl] True assms(1,4) t by simp
      qed
    qed
  qed
qed

lemma abs_delete:
  assumes "wf_config cfg" and "is_provider (msg_Sender m)"
    and "msg_Action m = DeleteAction" and "we_State e \<in> set (visited cfg)"
  shows "abs_outcome cfg (execute (initWorkflow cfg) now (Some providerState) e m) =
    machine (top_of cfg) (phase_of cfg e) (event_of cfg m)"
proof -
  have ev: "event_of cfg m = Withdraw" using assms(2,3) by (simp add: event_of_def)
  consider (busy) "we_WorkInProgress e" | (stuck) "\<not> we_WorkInProgress e" "we_State e = undeployedState"
    | (idle) "\<not> we_WorkInProgress e" "we_State e \<noteq> undeployedState" by blast
  then show ?thesis
  proof cases
    case busy
    then show ?thesis using abs_delete_busy [OF assms(1-3) _ assms(4)] ev by simp
  next
    case stuck
    then have "execute (initWorkflow cfg) now (Some providerState) e m = None"
      using execute_delete_stuck [OF assms(1-3)] by (simp add: stuck_delete_def)
    then show ?thesis using stuck ev assms(1) by simp
  next
    case idle
    then show ?thesis using abs_delete_from [OF assms(1-3) _ assms(4)] ev assms(1,4)
      by (simp add: pos_of_end_iff)
  qed
qed

lemma abs_reply:
  assumes "wf_config cfg" and "proper_message cfg m" and "\<not> is_provider (msg_Sender m)"
    and "we_State e \<in> set (visited cfg)"
  shows "abs_outcome cfg (execute (initWorkflow cfg) now (Some provisionerState) e m) =
    machine (top_of cfg) (phase_of cfg e) (event_of cfg m)"
proof -
  let ?w = "initWorkflow cfg" and ?s = "msg_Sender m"
  have s: "?s \<in> set (visited cfg)" "?s \<noteq> undeployedState" "?s \<noteq> deployedState"
    using assms(2,3) by (simp_all add: proper_message_def visited_def)
  have ev: "event_of cfg m = Answer (pos_of cfg ?s) (msg_Error m = '''')"
    using assms(3) by (simp add: event_of_def)
  consider (idle) "\<not> we_WorkInProgress e" | (foreign) "we_WorkInProgress e" "?s \<noteq> we_State e"
    | (failed) "we_WorkInProgress e" "?s = we_State e" "msg_Error m \<noteq> ''''"
    | (ok) "we_WorkInProgress e" "?s = we_State e" "msg_Error m = ''''" by blast
  then show ?thesis
  proof cases
    case idle
    then show ?thesis using ev
      by (simp add: execute_provisionerState sendToExtension_eq phase_of_def)
  next
    case foreign
    then show ?thesis using ev pos_of_inject [OF s(1) assms(4)]
      by (simp add: execute_foreign_reply phase_of_def)
  next
    case failed
    then show ?thesis using ev
      by (simp add: execute_error_reply phase_of_def)
        (simp add: setError_def isReverse_def)
  next
    case ok
    have st: "we_State e \<noteq> undeployedState" "we_State e \<noteq> deployedState" using s ok(2) by auto
    obtain t where t: "t \<in> set (visited cfg)" "next_name cfg (we_State e) (isReverse e) = Some t"
      "pos_of cfg t = (if isReverse e then pos_of cfg (we_State e) - 1 else pos_of cfg (we_State e) + 1)"
      using next_name_up [OF assms(1,4) st(2)] next_name_down [OF assms(1,4) st(1)]
      by (cases "isReverse e") fastforce+
    have "t = (if isReverse e then undeployedState else deployedState) \<longleftrightarrow>
        pos_of cfg t = 0 \<or> pos_of cfg t = top_of cfg"
      using t(3) pos_of_le_top [OF assms(4)] pos_of_end_iff [OF assms(1) t(1)]
        pos_of_end_iff [OF assms(1,4)] st by (auto split: if_splits)
    then show ?thesis
      using ev ok t execute_reply [OF assms(1), of e m t now]
      by (simp add: Let_def reach_def)
        (auto simp: phase_of_def isReverse_def)
  qed
qed

lemma execute_refines:
  assumes "wf_config cfg" and "we_State e \<in> set (visited cfg)" and "proper_message cfg m"
  shows "abs_outcome cfg (execute (initWorkflow cfg) now (getTransition (initWorkflow cfg) (msg_Sender m)) e m) =
    machine (top_of cfg) (phase_of cfg e) (event_of cfg m)"
proof (cases "is_provider (msg_Sender m)")
  case True
  then have "msg_Action m = AddAction \<or> msg_Action m = DeleteAction"
    using assms(3) by (simp add: proper_message_def)
  moreover have "getTransition (initWorkflow cfg) (msg_Sender m) = Some providerState"
    using assms(3) getTransition_provider [OF assms(1) _ True] by (simp add: proper_message_def)
  ultimately show ?thesis
    using abs_add [OF assms(1,3) True] abs_delete [OF assms(1) True _ assms(2)] by auto
next
  case False
  then have "getTransition (initWorkflow cfg) (msg_Sender m) = Some provisionerState"
    using assms(1,3) by (intro getTransition_provisioner) (auto simp: proper_message_def visited_def)
  then show ?thesis using abs_reply [OF assms(1,3) False assms(2)] by simp
qed

text \<open>
  C1. Refinement of the entry's handlers. On a well-formed configuration, for an entry at a step
  of the route, delivering any message of a provider or a provisioner is exactly one step of the
  abstract machine: the same position, direction and progress afterwards, requests to the same
  positions, and a handler that never returns exactly where the machine has no step.
\<close>

theorem deliver_refines:
  assumes "wf_config cfg" and "we_State e \<in> set (visited cfg)" and "proper_message cfg m"
  shows "abs_outcome cfg (deliver (initWorkflow cfg) now m e) =
    machine (top_of cfg) (phase_of cfg e) (event_of cfg m)"
  using execute_refines [OF assms(1) _ assms(3), of "merge_into (initWorkflow cfg) m e" now] assms(2)
  by (simp add: deliver_def Let_def phase_of_def)

text \<open>A longer workflow, with the lookups the witnesses need.\<close>

definition long_config :: string where
  "long_config = ''provider.swarm,ipam.ipalloc,dns.consul,lb.f5ltm''"

lemma long_config_chain:
  "chain long_config = [''undeployed'', ''provider.swarm'', ''ipam.ipalloc'', ''dns.consul'', ''lb.f5ltm'', ''deployed'']"
  by (simp add: chain_def long_config_def deployedState_def undeployedState_def)

lemma long_config_facts:
  "wf_config long_config"
  "visited long_config = [''undeployed'', ''ipam.ipalloc'', ''dns.consul'', ''lb.f5ltm'', ''deployed'']"
  "''provider.swarm'' \<in> set (chain long_config)" "is_provider ''provider.swarm''"
  by (simp_all add: wf_config_def visited_def long_config_chain is_provider_def HasPrefix_def)

theorem deliver_refines_witness:
  "abs_outcome long_config (deliver (initWorkflow long_config) 9 (announce DeleteAction)
     (setWIP 5 True (zero_entry\<lparr>we_State := ''lb.f5ltm'', we_ExpectedState := deployedState\<rparr>))) =
   Some (\<lparr>ph_pos = 3, ph_down = True, ph_busy = True\<rparr>, [3])"
proof -
  let ?e = "setWIP 5 True (zero_entry\<lparr>we_State := ''lb.f5ltm'', we_ExpectedState := deployedState\<rparr>)"
  have "abs_outcome long_config (deliver (initWorkflow long_config) 9 (announce DeleteAction) ?e) =
    machine (top_of long_config) (phase_of long_config ?e) (event_of long_config (announce DeleteAction))"
    by (rule deliver_refines)
      (simp_all add: long_config_facts proper_message_def undeployedState_def deployedState_def)
  then show ?thesis
    by (simp add: event_of_def long_config_facts top_of_def phase_of_def pos_of_def reach_def isReverse_def)
qed

section \<open>Deletion while a step is in progress\<close>

text \<open>
  A deletion reported while a service is being deployed rolls the step in progress back too:
  the next request is a delete request to that very step, and the entry waits for it.
\<close>

theorem delete_during_deployment_rolls_back:
  assumes "wf_config cfg" and "msg_Sender m \<in> set (chain cfg)" and "is_provider (msg_Sender m)"
    and "msg_Action m = DeleteAction" and "we_WorkInProgress e" and "we_ExpectedState e = deployedState"
    and "we_State e \<in> set (visited cfg)" and "we_State e \<noteq> undeployedState" and "we_State e \<noteq> deployedState"
  shows "\<exists>e' out. deliver (initWorkflow cfg) now m e = Some (Inr (e', [out])) \<and>
    we_State e' = we_State e \<and> we_WorkInProgress e' \<and> we_ExpectedState e' = undeployedState \<and>
    msg_Destination out = we_State e \<and> msg_Action out = DeleteAction"
proof -
  let ?w = "initWorkflow cfg"
  let ?e = "merge_into ?w m e"
  obtain t where t: "t \<in> set (visited cfg)" "next_name cfg (we_State e) False = Some t"
    using next_name_up [OF assms(1,7,9)] by blast
  have "next_name cfg t True = Some (we_State e)"
    using nav.undo_step [OF assms(1,7) t(1)] t(2) by simp
  moreover have "\<not> isReverse e" using assms(6) by (simp add: isReverse_def)
  ultimately have "execute ?w now (Some providerState) ?e m =
      enter now (msg_Error m) (advance (we_State e) (setTargetState undeployedState (advance t ?e)))"
    using assms(1,3-5) t(2) by (intro execute_delete_busy [where skipped = "advance t ?e"]) simp_all
  then show ?thesis
    using getTransition_provider [OF assms(1-3)] assms(8,9)
    by (simp add: deliver_def Let_def enter_def returns_def)
      (simp add: setTargetState_def isReverse_def)
qed

theorem delete_during_deployment_rolls_back_witness:
  "\<exists>e' out. deliver (initWorkflow long_config) 9 (announce DeleteAction)
     (setWIP 5 True (zero_entry\<lparr>we_State := ''dns.consul'', we_ExpectedState := deployedState\<rparr>)) =
       Some (Inr (e', [out])) \<and> msg_Destination out = ''dns.consul'' \<and> msg_Action out = DeleteAction"
  using delete_during_deployment_rolls_back [OF long_config_facts(1), of "announce DeleteAction"
      "setWIP 5 True (zero_entry\<lparr>we_State := ''dns.consul'', we_ExpectedState := deployedState\<rparr>)" 9]
  by (auto simp: long_config_facts deployedState_def undeployedState_def)

text \<open>
  A second deletion reported while the service is already being undeployed skips a step: with
  consecutive steps \<open>a\<close>, \<open>b\<close>, \<open>c\<close> of the workflow and \<open>c\<close> being undone, the next delete request goes
  to \<open>a\<close>; the entry no longer waits for \<open>c\<close>, and \<open>b\<close> is never asked.
\<close>

theorem second_delete_skips_step:
  assumes "wf_config cfg" and "msg_Sender m \<in> set (chain cfg)" and "is_provider (msg_Sender m)"
    and "msg_Action m = DeleteAction" and "we_WorkInProgress e" and "we_ExpectedState e = undeployedState"
    and "visited cfg = xs @ a # b # c # ys" and "xs \<noteq> []" and "we_State e = c"
  shows "\<exists>e' out. deliver (initWorkflow cfg) now m e = Some (Inr (e', [out])) \<and>
    we_State e' = a \<and> msg_Destination out = a \<and> msg_Action out = DeleteAction"
proof -
  let ?w = "initWorkflow cfg"
  let ?e = "merge_into ?w m e"
  have "next_name cfg c True = Some b"
    using nav.next_backward [OF assms(1), of "xs @ [a]" b c ys] assms(7) by simp
  moreover have "next_name cfg b True = Some a"
    using nav.next_backward [OF assms(1,7)] .
  ultimately have "execute ?w now (Some providerState) ?e m =
      enter now (msg_Error m) (advance a (setTargetState undeployedState (advance b ?e)))"
    using assms(1,3-6,9)
    by (intro execute_delete_busy [where skipped = "advance b ?e"]) (simp_all add: isReverse_def)
  moreover have "a \<noteq> undeployedState" "a \<noteq> deployedState"
    using visited_inner [OF assms(1,7)] assms(8) by auto
  ultimately show ?thesis
    using getTransition_provider [OF assms(1-3)]
    by (simp add: deliver_def Let_def enter_def returns_def)
      (simp add: setTargetState_def isReverse_def)
qed

theorem second_delete_skips_step_witness:
  "\<exists>e' out. deliver (initWorkflow long_config) 9 (announce DeleteAction)
     (setWIP 5 True (zero_entry\<lparr>we_State := ''lb.f5ltm'', we_ExpectedState := undeployedState\<rparr>)) =
       Some (Inr (e', [out])) \<and> we_State e' = ''ipam.ipalloc'' \<and>
     msg_Destination out = ''ipam.ipalloc'' \<and> msg_Action out = DeleteAction"
  by (rule second_delete_skips_step [OF long_config_facts(1), where xs = "[''undeployed'']"
        and b = "''dns.consul''" and c = "''lb.f5ltm''" and ys = "[''deployed'']"])
    (simp_all add: long_config_facts)

end
