(* ===== verification/Server.thy ===== *)
theory Server
  imports Entry_Machine
begin

text \<open>
  \<open>src/core/server.go\<close>, the table of tracked services of \<open>src/core/workflow.go\<close>, and the core
  section of \<open>src/config/config.go\<close>. The table maps names to pointers, so entries live in a store
  and a handler that has been started keeps its pointer. What Go runs concurrently are steps of one
  relation: a listener receives a message, a started handler runs, the message sender forwards,
  the housekeeper ticks. Each of them is atomic here; their interleaving is arbitrary.
\<close>

section \<open>State\<close>

record core_config =
  cc_WorkflowSteps :: string
  cc_ServiceWIPTimeout :: int
  cc_ServiceMaxLastUpdated :: int
  cc_CleanUndeployedServiceAfter :: int

text \<open>An extension is a provider (it also implements \<open>RefreshService\<close>) or a provisioner.\<close>

datatype extension_kind = ProviderExtension | ProvisionerExtension

text \<open>
  A channel of an extension is the sequence of the messages written to its \<open>receive\<close> side. A
  started handler is its transition, the address of its entry and its message.
\<close>

record server =
  srv_config :: core_config
  srv_workflow :: workflowSteps
  srv_extensions :: "string \<rightharpoonup> extension_kind"
  srv_channels :: "string \<rightharpoonup> Message list"
  srv_entries :: "string \<rightharpoonup> nat"
  srv_heap :: "nat \<Rightarrow> workflowEntry"
  srv_next :: nat
  srv_started :: "(transition option \<times> nat \<times> Message) list"
  srv_msgToExtension :: "Message list"

definition entry_of :: "server \<Rightarrow> string \<Rightarrow> workflowEntry option" where
  "entry_of s k = map_option (srv_heap s) (srv_entries s k)"

definition store_entry :: "nat \<Rightarrow> workflowEntry \<Rightarrow> server \<Rightarrow> server" where
  "store_entry a e s = s\<lparr>srv_heap := (srv_heap s)(a := e)\<rparr>"

section \<open>The table of tracked services\<close>

definition serviceNeedUpdate :: "server \<Rightarrow> Message \<Rightarrow> bool" where
  "serviceNeedUpdate s msg =
     (case entry_of s (svc_Name (msg_Service msg)) of
        None \<Rightarrow> True
      | Some curSvc \<Rightarrow>
          (let serviceIsSame = fst (IsSameThan (we_Service curSvc) (msg_Service msg)) in
           if \<not> serviceIsSame then True
           else (let serviceStateOK = isStateAsWanted (msg_Action msg) curSvc in
                 if \<not> serviceStateOK then True else False)))"

text \<open>The address of the service's entry, made if there is none.\<close>

definition find_or_create :: "gotime \<Rightarrow> string \<Rightarrow> server \<Rightarrow> (nat \<times> server) option" where
  "find_or_create now name s =
     (case srv_entries s name of
        Some a \<Rightarrow> Some (a, s)
      | None \<Rightarrow>
          Option.bind (makeNewFlowEntry (srv_workflow s) now) (\<lambda>e.
            let a = srv_next s
            in Some (a, store_entry a e (s\<lparr>srv_entries := (srv_entries s)(name \<mapsto> a), srv_next := Suc a\<rparr>))))"

definition mergeMessage :: "gotime \<Rightarrow> Message \<Rightarrow> server \<Rightarrow> server option" where
  "mergeMessage now msg s =
     (let name = svc_Name (msg_Service msg) in
      if \<not> serviceNeedUpdate s msg then
        (case srv_entries s name of
           None \<Rightarrow> Some s
         | Some a \<Rightarrow> Some (store_entry a (setLastUpdate now (srv_heap s a)) s))
      else
        Option.bind (find_or_create now name s) (\<lambda>(a, s).
          let e = merge_into (srv_workflow s) msg (srv_heap s a);
              s = store_entry a e s
          in Some (s\<lparr>srv_started := srv_started s @ [(we_transition e, a, msg)]\<rparr>)))"

text \<open>
  The handler that \<open>mergeMessage\<close> started (\<open>go entry.transition.execute\<close>) runs. The result tells a
  normal end from a panic; \<^term>\<open>None\<close> is a handler that never returns.
\<close>

definition run_started :: "nat \<Rightarrow> gotime \<Rightarrow> server \<Rightarrow> (panic + server) option" where
  "run_started i now s =
     (case srv_started s ! i of (tr, a, msg) \<Rightarrow>
        Option.bind (execute (srv_workflow s) now tr (srv_heap s a) msg) (\<lambda>r. case r of
            Inl p \<Rightarrow> Some (Inl p)
          | Inr (e, out) \<Rightarrow>
              Some (Inr ((store_entry a e s)
                \<lparr>srv_started := take i (srv_started s) @ drop (Suc i) (srv_started s),
                 srv_msgToExtension := srv_msgToExtension s @ out\<rparr>))))"

section \<open>Messages to and from extensions\<close>

definition sendMessageToExtension :: "Message \<Rightarrow> string \<Rightarrow> server \<Rightarrow> server" where
  "sendMessageToExtension msg extensionName s =
     (case srv_channels s extensionName of
        None \<Rightarrow> s
      | Some ext \<Rightarrow> s\<lparr>srv_channels := (srv_channels s)(extensionName \<mapsto> ext @ [msg])\<rparr>)"

definition messageSender :: "server \<Rightarrow> server" where
  "messageSender s =
     (case srv_msgToExtension s of
        [] \<Rightarrow> s
      | msg # rest \<Rightarrow>
          sendMessageToExtension msg (msg_Destination msg) (s\<lparr>srv_msgToExtension := rest\<rparr>))"

definition extensionListener :: "string list \<Rightarrow> string \<Rightarrow> gotime \<Rightarrow> Message \<Rightarrow> server \<Rightarrow> server option" where
  "extensionListener order extension_name now newMessage s =
     (let newMessage = newMessage\<lparr>msg_Sender := extension_name\<rparr>;
          newMessage = SetTargetWeight order newMessage
      in mergeMessage now newMessage s)"

text \<open>\<open>refreshService\<close> asks the first provider in the iteration order of the extensions.\<close>

definition refresh_msg :: "string \<Rightarrow> Message" where
  "refresh_msg serviceName =
     zero_Message\<lparr>msg_Action := RefreshAction, msg_Service := zero_Service\<lparr>svc_Name := serviceName\<rparr>\<rparr>"

fun refreshService :: "string list \<Rightarrow> string \<Rightarrow> server \<Rightarrow> server \<times> string option" where
  "refreshService [] serviceName s = (s, Some ''Could not send refresh message to provider'')"
| "refreshService (name # names) serviceName s =
     (if srv_extensions s name = Some ProviderExtension
      then (sendMessageToExtension (refresh_msg serviceName) name s, None)
      else refreshService names serviceName s)"

section \<open>Housekeeping\<close>

definition timeout_msg :: "workflowEntry \<Rightarrow> string" where
  "timeout_msg e =
     ''Closed due to ServiceWIPTimeout reached at step '' @ we_State e @ ''. Err: '' @ we_Error e"

text \<open>One iteration of the loop over the table, for the key \<open>k\<close>.\<close>

definition housekeep_entry :: "gotime \<Rightarrow> (string \<Rightarrow> string list) \<Rightarrow> string \<Rightarrow> server \<Rightarrow> server" where
  "housekeep_entry now providers k s =
     (case srv_entries s k of
        None \<Rightarrow> s
      | Some a \<Rightarrow>
          (let conf = srv_config s; entry = srv_heap s a;
               s = (if we_State entry = we_ExpectedState entry \<and> \<not> we_WorkInProgress entry
                    then (if we_State entry = undeployedState \<and>
                             time_Sub now (we_CloseTime entry) > cc_CleanUndeployedServiceAfter conf
                          then s\<lparr>srv_entries := (srv_entries s)(k := None)\<rparr> else s)
                    else s);
               s = (if time_Sub now (we_LastUpdate entry) > cc_ServiceMaxLastUpdated conf \<and>
                       we_State entry = deployedState
                    then fst (refreshService (providers k) (svc_Name (we_Service entry)) s) else s)
           in if we_WorkInProgress entry \<and>
                 time_Sub now (we_WIPTime entry) > cc_ServiceWIPTimeout conf
              then store_entry a (close_entry now (timeout_msg entry) entry) s else s))"

definition housekeeper :: "gotime \<Rightarrow> (string \<Rightarrow> string list) \<Rightarrow> string list \<Rightarrow> server \<Rightarrow> server" where
  "housekeeper now providers order s = fold (housekeep_entry now providers) order s"

section \<open>Start\<close>

text \<open>The sections of the configuration with their fields, as reflection lists them.\<close>

definition config_sections :: "(string \<times> string list) list" where
  "config_sections =
     [(''Provider'', [''Swarm'', ''Kubernetes'']), (''IPAM'', [''IPAlloc'']), (''DNS'', [''Consul'']),
      (''LB'', [''KempLM'', ''F5LTM''])]"

definition lookup_extension :: "string \<Rightarrow> extension_kind option" where
  "lookup_extension step =
     (let ext = Split CHR ''.'' step in
      if length ext = 2 then
        (let extType = ToLower (ext ! 0); extName = ToLower (ext ! 1) in
         last_match (\<lambda>(f, n). ToLower f = extType \<and> ToLower n = extName)
           (\<lambda>(f, n). if f = ''Provider'' then ProviderExtension else ProvisionerExtension)
           (concat (map (\<lambda>(f, ns). map (Pair f) ns) config_sections)))
      else None)"

definition initExtensions :: "workflowSteps \<Rightarrow> (string \<rightharpoonup> extension_kind)" where
  "initExtensions w name =
     (if name \<in> step_Name ` set w then lookup_extension name else None)"

definition initServer :: "core_config \<Rightarrow> server" where
  "initServer conf =
     (let w = initWorkflow (cc_WorkflowSteps conf); exts = initExtensions w
      in \<lparr>srv_config = conf, srv_workflow = w, srv_extensions = exts,
          srv_channels = (\<lambda>name. if exts name = None then None else Some []),
          srv_entries = Map.empty, srv_heap = (\<lambda>a. zero_entry), srv_next = 0, srv_started = [],
          srv_msgToExtension = []\<rparr>)"

end
