(* ===== verification/Json.thy ===== *)
theory Json
  imports Workflow
begin

text \<open>
  What the program uses of \<open>encoding/json\<close>: how the entries of \<open>src/core/workflow.go\<close> and the services of
  \<open>src/comm/message.go\<close> are encoded by the tags of their structs, and what is read back. A value is the
  tree that a JSON text stands for.
\<close>

section \<open>Values\<close>

text \<open>
  A time is a leaf of its own: \<open>Time.MarshalJSON\<close> writes it as a string in RFC 3339 with its nanoseconds
  and its offset, from which \<open>Time.UnmarshalJSON\<close> reads the same instant. Numbers are in the range of
  \<open>int\<close>, texts are valid UTF-8 (the bytes that are not would be replaced), names of members are ASCII.
\<close>

datatype json =
    JNull
  | JBool bool
  | JNum int
  | JStr string
  | JTime gotime
  | JArr "json list"
  | JObj "(string \<times> json) list"

section \<open>Encoding\<close>

text \<open>A member that is left out when it is empty (\<open>omitempty\<close>); one that is always there.\<close>

definition omit_empty :: "string \<Rightarrow> bool \<Rightarrow> json \<Rightarrow> (string \<times> json) list" where
  "omit_empty name is_empty v = (if is_empty then [] else [(name, v)])"

definition always :: "string \<Rightarrow> json \<Rightarrow> (string \<times> json) list" where
  "always name v = [(name, v)]"

definition encode_Target :: "Target \<Rightarrow> json" where
  "encode_Target t = JObj
     (omit_empty ''host'' (tgt_Host t = '''') (JStr (tgt_Host t)) @
      omit_empty ''port'' (tgt_Port t = 0) (JNum (uint (tgt_Port t))) @
      omit_empty ''weight'' (tgt_Weight t = 0) (JNum (tgt_Weight t)))"

definition encode_Service :: "Service \<Rightarrow> json" where
  "encode_Service s = JObj
     (omit_empty ''provider'' (svc_Provider s = '''') (JStr (svc_Provider s)) @
      omit_empty ''name'' (svc_Name s = '''') (JStr (svc_Name s)) @
      omit_empty ''targets'' (length (elems (svc_Targets s)) = 0) (JArr (map encode_Target (elems (svc_Targets s)))) @
      omit_empty ''tls'' (\<not> svc_TLS s) (JBool (svc_TLS s)) @
      omit_empty ''public_ip'' (svc_PublicIP s = '''') (JStr (svc_PublicIP s)) @
      omit_empty ''dns_name'' (length (elems (svc_DNSAliases s)) = 0) (JArr (map JStr (elems (svc_DNSAliases s)))))"

text \<open>A struct is never empty, so times and the service are always there; \<open>transition\<close> is not exported.\<close>

definition encode_entry :: "workflowEntry \<Rightarrow> json" where
  "encode_entry e = JObj
     (omit_empty ''work_in_progress'' (\<not> we_WorkInProgress e) (JBool (we_WorkInProgress e)) @
      always ''wip_time'' (JTime (we_WIPTime e)) @
      omit_empty ''state'' (we_State e = '''') (JStr (we_State e)) @
      omit_empty ''expected_state'' (we_ExpectedState e = '''') (JStr (we_ExpectedState e)) @
      omit_empty ''info'' (we_Info e = '''') (JStr (we_Info e)) @
      omit_empty ''error'' (we_Error e = '''') (JStr (we_Error e)) @
      always ''time_detected'' (JTime (we_TimeDetected e)) @
      always ''last_update'' (JTime (we_LastUpdate e)) @
      always ''service'' (encode_Service (we_Service e)) @
      always ''close_time'' (JTime (we_CloseTime e)))"

section \<open>Decoding\<close>

text \<open>
  \<open>json.Unmarshal\<close> changes a value in place. A value of the wrong type is skipped and remembered as an
  error, the rest is read all the same; the flag tells whether all went well. \<open>null\<close> changes nothing,
  except that it sets a slice to nil.
\<close>

type_synonym 'a decoder = "json \<Rightarrow> 'a \<Rightarrow> 'a \<times> bool"

definition decode_string :: "string decoder" where
  "decode_string j x = (case j of JStr s \<Rightarrow> (s, True) | JNull \<Rightarrow> (x, True) | _ \<Rightarrow> (x, False))"

definition decode_bool :: "bool decoder" where
  "decode_bool j x = (case j of JBool b \<Rightarrow> (b, True) | JNull \<Rightarrow> (x, True) | _ \<Rightarrow> (x, False))"

definition decode_int :: "int decoder" where
  "decode_int j x = (case j of JNum n \<Rightarrow> (n, True) | JNull \<Rightarrow> (x, True) | _ \<Rightarrow> (x, False))"

definition decode_uint32 :: "32 word decoder" where
  "decode_uint32 j x =
     (case j of
        JNum n \<Rightarrow> if 0 \<le> n \<and> n < 2 ^ 32 then (word_of_int n, True) else (x, False)
      | JNull \<Rightarrow> (x, True)
      | _ \<Rightarrow> (x, False))"

definition decode_time :: "gotime decoder" where
  "decode_time j x = (case j of JTime t \<Rightarrow> (t, True) | JNull \<Rightarrow> (x, True) | _ \<Rightarrow> (x, False))"

fun decode_elems :: "'a decoder \<Rightarrow> 'a \<Rightarrow> json list \<Rightarrow> 'a list \<times> bool" where
  "decode_elems d zero [] = ([], True)"
| "decode_elems d zero (j # js) =
     (let (x, ok) = d j zero; (xs, oks) = decode_elems d zero js in (x # xs, ok \<and> oks))"

definition decode_slice :: "'a decoder \<Rightarrow> 'a \<Rightarrow> 'a slice decoder" where
  "decode_slice d zero j x =
     (case j of
        JArr js \<Rightarrow> (let (xs, ok) = decode_elems d zero js in (Some xs, ok))
      | JNull \<Rightarrow> (None, True)
      | _ \<Rightarrow> (x, False))"

text \<open>The members of an object in their order; a field is found by its name in any case.\<close>

fun decode_members :: "(string \<Rightarrow> 'a decoder) \<Rightarrow> (string \<times> json) list \<Rightarrow> 'a \<Rightarrow> 'a \<times> bool" where
  "decode_members field [] x = (x, True)"
| "decode_members field ((name, j) # ms) x =
     (let (x, ok) = field (ToLower name) j x; (x, oks) = decode_members field ms x in (x, ok \<and> oks))"

definition decode_struct :: "(string \<Rightarrow> 'a decoder) \<Rightarrow> 'a decoder" where
  "decode_struct field j x =
     (case j of JObj ms \<Rightarrow> decode_members field ms x | JNull \<Rightarrow> (x, True) | _ \<Rightarrow> (x, False))"

text \<open>A field of a struct: where its value is, and how it is put back.\<close>

definition in_field :: "('a \<Rightarrow> 'f) \<Rightarrow> ('f \<Rightarrow> 'a \<Rightarrow> 'a) \<Rightarrow> 'f decoder \<Rightarrow> 'a decoder" where
  "in_field get put d j x = (let (v, ok) = d j (get x) in (put v x, ok))"

definition field_Target :: "string \<Rightarrow> Target decoder" where
  "field_Target name =
     (if name = ''host'' then in_field tgt_Host (\<lambda>v t. t\<lparr>tgt_Host := v\<rparr>) decode_string
      else if name = ''port'' then in_field tgt_Port (\<lambda>v t. t\<lparr>tgt_Port := v\<rparr>) decode_uint32
      else if name = ''weight'' then in_field tgt_Weight (\<lambda>v t. t\<lparr>tgt_Weight := v\<rparr>) decode_int
      else (\<lambda>j t. (t, True)))"

definition zero_Target :: Target where
  "zero_Target = \<lparr>tgt_Host = '''', tgt_Port = 0, tgt_Weight = 0\<rparr>"

definition decode_Target :: "Target decoder" where
  "decode_Target = decode_struct field_Target"

definition field_Service :: "string \<Rightarrow> Service decoder" where
  "field_Service name =
     (if name = ''provider'' then in_field svc_Provider (\<lambda>v s. s\<lparr>svc_Provider := v\<rparr>) decode_string
      else if name = ''name'' then in_field svc_Name (\<lambda>v s. s\<lparr>svc_Name := v\<rparr>) decode_string
      else if name = ''targets'' then in_field svc_Targets (\<lambda>v s. s\<lparr>svc_Targets := v\<rparr>) (decode_slice decode_Target zero_Target)
      else if name = ''tls'' then in_field svc_TLS (\<lambda>v s. s\<lparr>svc_TLS := v\<rparr>) decode_bool
      else if name = ''public_ip'' then in_field svc_PublicIP (\<lambda>v s. s\<lparr>svc_PublicIP := v\<rparr>) decode_string
      else if name = ''dns_name'' then in_field svc_DNSAliases (\<lambda>v s. s\<lparr>svc_DNSAliases := v\<rparr>) (decode_slice decode_string '''')
      else (\<lambda>j s. (s, True)))"

definition decode_Service :: "Service decoder" where
  "decode_Service = decode_struct field_Service"

definition field_entry :: "string \<Rightarrow> workflowEntry decoder" where
  "field_entry name =
     (if name = ''work_in_progress'' then in_field we_WorkInProgress (\<lambda>v e. e\<lparr>we_WorkInProgress := v\<rparr>) decode_bool
      else if name = ''wip_time'' then in_field we_WIPTime (\<lambda>v e. e\<lparr>we_WIPTime := v\<rparr>) decode_time
      else if name = ''state'' then in_field we_State (\<lambda>v e. e\<lparr>we_State := v\<rparr>) decode_string
      else if name = ''expected_state'' then in_field we_ExpectedState (\<lambda>v e. e\<lparr>we_ExpectedState := v\<rparr>) decode_string
      else if name = ''info'' then in_field we_Info (\<lambda>v e. e\<lparr>we_Info := v\<rparr>) decode_string
      else if name = ''error'' then in_field we_Error (\<lambda>v e. e\<lparr>we_Error := v\<rparr>) decode_string
      else if name = ''time_detected'' then in_field we_TimeDetected (\<lambda>v e. e\<lparr>we_TimeDetected := v\<rparr>) decode_time
      else if name = ''last_update'' then in_field we_LastUpdate (\<lambda>v e. e\<lparr>we_LastUpdate := v\<rparr>) decode_time
      else if name = ''service'' then in_field we_Service (\<lambda>v e. e\<lparr>we_Service := v\<rparr>) decode_Service
      else if name = ''close_time'' then in_field we_CloseTime (\<lambda>v e. e\<lparr>we_CloseTime := v\<rparr>) decode_time
      else (\<lambda>j e. (e, True)))"

definition decode_entry :: "workflowEntry decoder" where
  "decode_entry = decode_struct field_entry"

section \<open>Round trips\<close>

lemma decode_leaves:
  "decode_string (JStr s) x = (s, True)" "decode_bool (JBool b) c = (b, True)" "decode_int (JNum n) k = (n, True)"
  "decode_time (JTime t) u = (t, True)" "decode_uint32 (JNum (uint w)) v = (w, True)"
  using uint_lt2p [of w]
  by (simp_all add: decode_string_def decode_bool_def decode_int_def decode_time_def decode_uint32_def)

lemma decode_elems_map:
  assumes "\<And>x. d (enc x) zero = (x, True)"
  shows "decode_elems d zero (map enc xs) = (xs, True)"
  using assms by (induction xs) simp_all

lemmas encode_members = omit_empty_def always_def in_field_def decode_leaves Let_def

text \<open>A target is read back as it was; the other structs up to their empty slices and hidden fields.\<close>

lemma field_Target_names [simp]:
  "field_Target (ToLower ''host'') = in_field tgt_Host (\<lambda>v t. t\<lparr>tgt_Host := v\<rparr>) decode_string"
  "field_Target (ToLower ''port'') = in_field tgt_Port (\<lambda>v t. t\<lparr>tgt_Port := v\<rparr>) decode_uint32"
  "field_Target (ToLower ''weight'') = in_field tgt_Weight (\<lambda>v t. t\<lparr>tgt_Weight := v\<rparr>) decode_int"
  by (simp_all add: field_Target_def ToLower_def)

lemma decode_encode_Target: "decode_Target (encode_Target t) zero_Target = (t, True)"
  by (cases "tgt_Host t = ''''"; cases "tgt_Port t = 0"; cases "tgt_Weight t = 0")
    (simp_all add: decode_Target_def encode_Target_def decode_struct_def zero_Target_def encode_members)

lemma field_Service_names [simp]:
  "field_Service (ToLower ''provider'') = in_field svc_Provider (\<lambda>v s. s\<lparr>svc_Provider := v\<rparr>) decode_string"
  "field_Service (ToLower ''name'') = in_field svc_Name (\<lambda>v s. s\<lparr>svc_Name := v\<rparr>) decode_string"
  "field_Service (ToLower ''targets'') = in_field svc_Targets (\<lambda>v s. s\<lparr>svc_Targets := v\<rparr>) (decode_slice decode_Target zero_Target)"
  "field_Service (ToLower ''tls'') = in_field svc_TLS (\<lambda>v s. s\<lparr>svc_TLS := v\<rparr>) decode_bool"
  "field_Service (ToLower ''public_ip'') = in_field svc_PublicIP (\<lambda>v s. s\<lparr>svc_PublicIP := v\<rparr>) decode_string"
  "field_Service (ToLower ''dns_name'') = in_field svc_DNSAliases (\<lambda>v s. s\<lparr>svc_DNSAliases := v\<rparr>) (decode_slice decode_string '''')"
  by (simp_all add: field_Service_def ToLower_def)

definition written_slice :: "'a slice \<Rightarrow> 'a slice" where
  "written_slice s = (if elems s = [] then None else s)"

lemma written_slice_id [simp]: "l \<noteq> Some [] \<Longrightarrow> written_slice l = l"
  by (cases l) (auto simp: written_slice_def)

definition written_Service :: "Service \<Rightarrow> Service" where
  "written_Service s = s\<lparr>svc_Targets := written_slice (svc_Targets s), svc_DNSAliases := written_slice (svc_DNSAliases s)\<rparr>"

lemma decode_slices [simp]:
  "decode_slice decode_Target zero_Target (JArr (map encode_Target ts)) x = (Some ts, True)"
  "decode_slice decode_string '''' (JArr (map JStr ss)) y = (Some ss, True)"
  by (simp_all add: decode_slice_def decode_elems_map decode_encode_Target decode_leaves Let_def)

lemma slice_cases: "elems s \<noteq> [] \<Longrightarrow> Some (elems s) = s"
  by (cases s) simp_all

lemma decode_encode_Service: "decode_Service (encode_Service s) zero_Service = (written_Service s, True)"
  by (cases "svc_Provider s = ''''"; cases "svc_Name s = ''''"; cases "elems (svc_Targets s) = []"; cases "svc_TLS s";
      cases "svc_PublicIP s = ''''"; cases "elems (svc_DNSAliases s) = []")
    (simp_all add: decode_Service_def encode_Service_def decode_struct_def zero_Service_def written_Service_def
      written_slice_def slice_cases encode_members)

lemma field_entry_names [simp]:
  "field_entry (ToLower ''work_in_progress'') = in_field we_WorkInProgress (\<lambda>v e. e\<lparr>we_WorkInProgress := v\<rparr>) decode_bool"
  "field_entry (ToLower ''wip_time'') = in_field we_WIPTime (\<lambda>v e. e\<lparr>we_WIPTime := v\<rparr>) decode_time"
  "field_entry (ToLower ''state'') = in_field we_State (\<lambda>v e. e\<lparr>we_State := v\<rparr>) decode_string"
  "field_entry (ToLower ''expected_state'') = in_field we_ExpectedState (\<lambda>v e. e\<lparr>we_ExpectedState := v\<rparr>) decode_string"
  "field_entry (ToLower ''info'') = in_field we_Info (\<lambda>v e. e\<lparr>we_Info := v\<rparr>) decode_string"
  "field_entry (ToLower ''error'') = in_field we_Error (\<lambda>v e. e\<lparr>we_Error := v\<rparr>) decode_string"
  "field_entry (ToLower ''time_detected'') = in_field we_TimeDetected (\<lambda>v e. e\<lparr>we_TimeDetected := v\<rparr>) decode_time"
  "field_entry (ToLower ''last_update'') = in_field we_LastUpdate (\<lambda>v e. e\<lparr>we_LastUpdate := v\<rparr>) decode_time"
  "field_entry (ToLower ''service'') = in_field we_Service (\<lambda>v e. e\<lparr>we_Service := v\<rparr>) decode_Service"
  "field_entry (ToLower ''close_time'') = in_field we_CloseTime (\<lambda>v e. e\<lparr>we_CloseTime := v\<rparr>) decode_time"
  by (simp_all add: field_entry_def ToLower_def)

definition persisted :: "workflowEntry \<Rightarrow> workflowEntry" where
  "persisted e = e\<lparr>we_transition := None, we_Service := written_Service (we_Service e)\<rparr>"

lemma decode_encode_entry: "decode_entry (encode_entry e) zero_entry = (persisted e, True)"
  by (cases "we_WorkInProgress e"; cases "we_State e = ''''"; cases "we_ExpectedState e = ''''";
      cases "we_Info e = ''''"; cases "we_Error e = ''''")
    (simp_all add: decode_entry_def encode_entry_def decode_struct_def zero_entry_def persisted_def
      decode_encode_Service encode_members)

end
