(* ===== verification/Entries_File.thy ===== *)
theory Entries_File
  imports Server Json
begin

text \<open>
  The file of the tracked entries (\<open>save\<close> and \<open>load\<close> of \<open>src/core/workflow.go\<close>): the server reads it when
  it starts and writes it when it stops. The file holds a JSON value; \<^term>\<open>None\<close> is a file that is not
  there, not readable or no JSON text.
\<close>

section \<open>Writing and reading\<close>

type_synonym entries_file = "json option"

text \<open>
  The table is an object with its keys in an order (\<open>json.Marshal\<close> sorts them, which matters to no
  reader). If the file cannot be opened it stays as
  it is; if the write fails it is left truncated, which is no JSON text.
\<close>

definition encode_entries :: "string list \<Rightarrow> server \<Rightarrow> json" where
  "encode_entries order s = JObj (map (\<lambda>k. (k, encode_entry (the (entry_of s k)))) order)"

definition entries_save :: "string option \<Rightarrow> string option \<Rightarrow> string list \<Rightarrow> server \<Rightarrow> entries_file \<Rightarrow>
    string option \<times> entries_file" where
  "entries_save openErr writeErr order s file =
     (case openErr of
        Some err \<Rightarrow> (Some err, file)
      | None \<Rightarrow>
          (let data = encode_entries order s in
           case writeErr of
             Some err \<Rightarrow> (Some err, None)
           | None \<Rightarrow> (None, Some data)))"

text \<open>
  Reading makes a new entry for each member of the object and goes on after values of a wrong type,
  which are the error in the end. (A member \<open>null\<close>, which \<open>save\<close> never writes, is taken for an empty entry.)
\<close>

fun load_entries :: "(string \<times> workflowEntry) list \<Rightarrow> server \<Rightarrow> server" where
  "load_entries [] s = s"
| "load_entries ((k, e) # f) s =
     load_entries f (store_entry (srv_next s) e
       (s\<lparr>srv_entries := (srv_entries s)(k \<mapsto> srv_next s), srv_next := Suc (srv_next s)\<rparr>))"

definition decode_entries :: "json \<Rightarrow> (string \<times> workflowEntry) list \<times> bool" where
  "decode_entries j =
     (case j of
        JObj ms \<Rightarrow> (map (\<lambda>(k, v). (k, fst (decode_entry v zero_entry))) ms, list_all (\<lambda>(k, v). snd (decode_entry v zero_entry)) ms)
      | JNull \<Rightarrow> ([], True)
      | _ \<Rightarrow> ([], False))"

definition entries_load :: "entries_file \<Rightarrow> server \<Rightarrow> string option \<times> server" where
  "entries_load file s =
     (case file of
        None \<Rightarrow> (Some ''no such file or no JSON text'', s)
      | Some j \<Rightarrow>
          (let (f, ok) = decode_entries j
           in (if ok then None else Some ''json: cannot unmarshal'', load_entries f s)))"

text \<open>The server as \<open>initServer\<close> returns it; an error of \<open>load\<close> is only logged.\<close>

definition startServer :: "core_config \<Rightarrow> entries_file \<Rightarrow> server" where
  "startServer conf file = snd (entries_load file (initServer conf))"

section \<open>Facts\<close>

lemma load_entries_frame [simp]:
  "srv_config (load_entries f s) = srv_config s" "srv_workflow (load_entries f s) = srv_workflow s"
  "srv_extensions (load_entries f s) = srv_extensions s" "srv_channels (load_entries f s) = srv_channels s"
  "srv_started (load_entries f s) = srv_started s" "srv_msgToExtension (load_entries f s) = srv_msgToExtension s"
  by (induction f s rule: load_entries.induct) (simp_all add: store_entry_def)

text \<open>The table after reading, where no entry lies beyond the next address.\<close>

definition table_below :: "server \<Rightarrow> bool" where
  "table_below s \<longleftrightarrow> (\<forall>k a. srv_entries s k = Some a \<longrightarrow> a < srv_next s)"

lemma load_entries_table:
  assumes "table_below s" and "distinct (map fst f)"
  shows "table_below (load_entries f s) \<and>
    entry_of (load_entries f s) k = (case map_of f k of None \<Rightarrow> entry_of s k | Some e \<Rightarrow> Some e)"
  using assms
proof (induction f s rule: load_entries.induct)
  case (2 key e f s)
  let ?s = "store_entry (srv_next s) e (s\<lparr>srv_entries := (srv_entries s)(key \<mapsto> srv_next s), srv_next := Suc (srv_next s)\<rparr>)"
  have "table_below ?s" using "2.prems"(1) by (auto simp: table_below_def store_entry_def less_Suc_eq)
  moreover have "entry_of ?s k = (if k = key then Some e else entry_of s k)"
    using "2.prems"(1) by (cases "srv_entries s k") (auto simp: entry_of_def store_entry_def table_below_def)
  moreover have "k = key \<Longrightarrow> map_of f k = None" using "2.prems"(2) by (auto simp: map_of_eq_None_iff)
  ultimately show ?case using "2.IH" "2.prems"(2) by (auto split: option.splits)
qed simp

lemma initServer_table [simp]: "table_below (initServer conf)" "entry_of (initServer conf) k = None"
  by (simp_all add: table_below_def initServer_def entry_of_def Let_def)

text \<open>A server that has just started has nothing to do yet, whatever the file held.\<close>

lemma startServer_idle [simp]:
  "srv_started (startServer conf file) = []" "srv_msgToExtension (startServer conf file) = []"
  "srv_channels (startServer conf file) c = (if initExtensions (initWorkflow (cc_WorkflowSteps conf)) c = None then None else Some [])"
  by (auto simp: startServer_def entries_load_def initServer_def Let_def split: option.split prod.split)

lemma decode_encode_entries:
  "decode_entries (encode_entries order s) = (map (\<lambda>k. (k, persisted (the (entry_of s k)))) order, True)"
  by (simp add: decode_entries_def encode_entries_def decode_encode_entry list_all_iff)

text \<open>What a start reads of a file that was saved.\<close>

lemma startServer_saved:
  "startServer conf (Some (encode_entries order s)) =
     load_entries (map (\<lambda>k. (k, persisted (the (entry_of s k)))) order) (initServer conf)"
  by (simp add: startServer_def entries_load_def decode_encode_entries)

lemma startServer_none [simp]: "startServer conf None = initServer conf"
  by (simp add: startServer_def entries_load_def)

lemma persisted_service:
  "svc_Targets (we_Service e) \<noteq> Some [] \<Longrightarrow> svc_DNSAliases (we_Service e) \<noteq> Some [] \<Longrightarrow>
     we_Service (persisted e) = we_Service e"
  by (simp add: persisted_def written_Service_def)

lemma persisted_simps [simp]:
  "we_State (persisted e) = we_State e" "we_ExpectedState (persisted e) = we_ExpectedState e"
  "we_WorkInProgress (persisted e) = we_WorkInProgress e" "we_WIPTime (persisted e) = we_WIPTime e"
  "we_CloseTime (persisted e) = we_CloseTime e" "we_LastUpdate (persisted e) = we_LastUpdate e"
  by (simp_all add: persisted_def)

lemma entry_of_restart:
  assumes "map_order order (srv_entries s)"
  shows "entry_of (startServer conf (snd (entries_save None None order s file))) k = map_option persisted (entry_of s k)"
proof -
  let ?f = "map (\<lambda>k. (k, persisted (the (entry_of s k)))) order"
  have "distinct (map fst ?f)" using map_orderD(1) [OF assms] by (simp add: comp_def)
  then have "entry_of (load_entries ?f (initServer conf)) k = map_of ?f k"
    using load_entries_table [of "initServer conf" ?f k] by (auto split: option.splits)
  moreover have "map_of ?f k = (if k \<in> set order then Some (persisted (the (entry_of s k))) else None)"
    by (induction order) auto
  moreover have "k \<in> set order \<longleftrightarrow> entry_of s k \<noteq> None"
    using map_orderD(2) [OF assms] by (auto simp: entry_of_def split: option.splits)
  ultimately show ?thesis by (auto simp: startServer_saved entries_save_def)
qed

end
