(* ===== verification/System.thy ===== *)
theory System
  imports Entries_File
begin

text \<open>
  The running core: the step relation over \<^typ>\<open>server\<close> states, the invariant of all reachable
  states (table, store, started handlers and queued requests agree), and what follows from it for
  the handlers of \<open>src/core/transition.go\<close> and the housekeeper of \<open>src/core/server.go\<close>.
\<close>

section \<open>What a handler keeps of an entry\<close>

definition good_entry :: "string \<Rightarrow> string \<Rightarrow> workflowEntry \<Rightarrow> bool" where
  "good_entry cfg n e \<longleftrightarrow>
     we_State e \<in> set (visited cfg) \<and>
     (we_ExpectedState e = deployedState \<or> we_ExpectedState e = undeployedState) \<and>
     (we_WorkInProgress e \<longrightarrow> we_WIPTime e > 0) \<and> we_transition e \<noteq> None \<and>
     svc_Name (we_Service e) = n"

text \<open>An entry that was read from the file has no transition until the next message for it.\<close>

definition sound_entry :: "string \<Rightarrow> string \<Rightarrow> workflowEntry \<Rightarrow> bool" where
  "sound_entry cfg n e \<longleftrightarrow>
     we_State e \<in> set (visited cfg) \<and>
     (we_ExpectedState e = deployedState \<or> we_ExpectedState e = undeployedState) \<and>
     (we_WorkInProgress e \<longrightarrow> we_WIPTime e > 0) \<and> svc_Name (we_Service e) = n"

lemma good_sound: "good_entry cfg n e \<longleftrightarrow> sound_entry cfg n e \<and> we_transition e \<noteq> None"
  by (auto simp: good_entry_def sound_entry_def)

lemma sound_setLastUpdate [simp]: "sound_entry cfg n (e\<lparr>we_LastUpdate := now\<rparr>) \<longleftrightarrow> sound_entry cfg n e"
  by (simp add: sound_entry_def)

lemma transition_close_entry [simp]: "we_transition (close_entry now err e) = we_transition e"
  by (simp add: close_entry_def setWIP_def setError_def Let_def)

lemma sound_close_entry: "sound_entry cfg n e \<Longrightarrow> sound_entry cfg n (close_entry now err e)"
  by (auto simp: sound_entry_def close_entry_def setWIP_def setError_def Let_def isReverse_def)

lemma sound_persisted [simp]: "sound_entry cfg n (persisted e) \<longleftrightarrow> sound_entry cfg n e"
  by (simp add: sound_entry_def persisted_def written_Service_def)

lemma sound_entry_name: "sound_entry cfg n e \<Longrightarrow> svc_Name (we_Service e) = n"
  by (simp add: sound_entry_def)

definition good_request :: "string \<Rightarrow> string \<Rightarrow> Message \<Rightarrow> bool" where
  "good_request cfg n m \<longleftrightarrow> msg_Destination m \<in> set (visited cfg) \<and> svc_Name (msg_Service m) = n"

named_theorems keeps_good "operations that keep an entry good"

lemma good_setError [keeps_good]: "good_entry cfg n e \<Longrightarrow> good_entry cfg n (setError err e)"
  by (simp add: good_entry_def setError_def)

lemma good_setWIP [keeps_good]: "good_entry cfg n e \<Longrightarrow> now > 0 \<Longrightarrow> good_entry cfg n (setWIP now b e)"
  by (simp add: good_entry_def setWIP_def Let_def)

lemma good_setLastUpdate [keeps_good]: "good_entry cfg n e \<Longrightarrow> good_entry cfg n (setLastUpdate now e)"
  by (simp add: good_entry_def setLastUpdate_def)

lemma good_setTargetState [keeps_good]:
  "good_entry cfg n e \<Longrightarrow> good_entry cfg n (setTargetState deployedState e)"
  "good_entry cfg n e \<Longrightarrow> good_entry cfg n (setTargetState undeployedState e)"
  by (simp_all add: good_entry_def setTargetState_def)

lemma good_transition [keeps_good]:
  "good_entry cfg n e \<Longrightarrow> good_entry cfg n (e\<lparr>we_transition := Some t\<rparr>)"
  by (simp add: good_entry_def)

lemma good_updateService [keeps_good]:
  "good_entry cfg n e \<Longrightarrow> svc_Name (msg_Service m) = n \<Longrightarrow> good_entry cfg n (updateService m e)"
  by (simp add: good_entry_def)

lemma good_close_entry [keeps_good]: "good_entry cfg n e \<Longrightarrow> good_entry cfg n (close_entry now err e)"
  by (auto simp: good_entry_def close_entry_def setWIP_def setError_def Let_def isReverse_def)

lemma good_advance:
  assumes "wf_config cfg" and "next_name cfg c r = Some s"
    and "we_ExpectedState e = deployedState \<or> we_ExpectedState e = undeployedState"
    and "svc_Name (we_Service e) = n"
  shows "good_entry cfg n (advance s e)"
  using next_name_visited [OF assms(1,2)] assms(3,4) by (simp add: good_entry_def)

lemma good_setNextStep [keeps_good]:
  assumes "wf_config cfg" and "setNextStep (initWorkflow cfg) e = Some e'" and "good_entry cfg n e"
  shows "good_entry cfg n e'"
  using assms good_advance [OF assms(1), of "we_State e" "isReverse e" _ e n]
  by (auto simp: setNextStep_wf good_entry_def split: option.splits)

lemma good_request_msg: "good_entry cfg n e \<Longrightarrow> good_request cfg n (request_msg e)"
  by (simp add: good_entry_def good_request_def)

text \<open>The entry between \<open>providerState\<close> and the first step: its state is the provider itself.\<close>

definition at_provider :: "string \<Rightarrow> string \<Rightarrow> transition option \<Rightarrow> workflowEntry \<Rightarrow> Message \<Rightarrow> bool" where
  "at_provider cfg n tr e m \<longleftrightarrow>
     tr = Some providerAddState \<and> is_provider (msg_Sender m) \<and> msg_Action m = AddAction \<and>
     we_State e = msg_Sender m \<and> we_ExpectedState e = deployedState \<and> svc_Name (we_Service e) = n"

definition good_result :: "string \<Rightarrow> string \<Rightarrow> panic + workflowEntry \<times> Message list \<Rightarrow> bool" where
  "good_result cfg n r \<longleftrightarrow>
     (case r of Inl p \<Rightarrow> False
      | Inr (e, out) \<Rightarrow> good_entry cfg n e \<and> (\<forall>m\<in>set out. good_request cfg n m))"

lemma good_result_Inr [simp]:
  "good_result cfg n (Inr (e, out)) \<longleftrightarrow> good_entry cfg n e \<and> (\<forall>m\<in>set out. good_request cfg n m)"
  by (simp add: good_result_def)

lemma provider_next:
  assumes "wf_config cfg" and "p \<in> set (chain cfg)" and "is_provider p"
  shows "\<exists>s. next_name cfg p False = Some s"
  using route_after_split [OF assms] by blast

lemma at_provider_next:
  assumes "wf_config cfg" and "at_provider cfg n tr e m" and "msg_Sender m \<in> set (chain cfg)"
    and "setNextStep (initWorkflow cfg) e = Some e'"
  shows "good_entry cfg n e'"
proof -
  have a: "is_provider (msg_Sender m)" "we_State e = msg_Sender m" "we_ExpectedState e = deployedState"
    "svc_Name (we_Service e) = n"
    using assms(2) by (simp_all add: at_provider_def)
  obtain s where s: "next_name cfg (we_State e) False = Some s"
    using provider_next [OF assms(1,3) a(1)] a(2) by auto
  have "\<not> isReverse e" using a(3) by (simp add: isReverse_def)
  then have "e' = advance s e" using assms(1,4) s by (simp add: setNextStep_wf)
  then show ?thesis using good_advance [OF assms(1) s, of e n] a by simp
qed

text \<open>A call of a handler that a reachable state may contain.\<close>

definition call_ok :: "string \<Rightarrow> string \<Rightarrow> workflowSteps \<Rightarrow> gotime \<Rightarrow> transition option \<Rightarrow> workflowEntry \<Rightarrow> Message \<Rightarrow> bool" where
  "call_ok cfg n w now tr e m \<longleftrightarrow>
     w = initWorkflow cfg \<and> now > 0 \<and> tr \<noteq> None \<and> svc_Name (msg_Service m) = n \<and>
     msg_Sender m \<in> set (chain cfg) \<and> (good_entry cfg n e \<or> at_provider cfg n tr e m)"

lemma good_setState:
  assumes "good_entry cfg n e" and "msg_Sender m \<in> set (chain cfg)" and "\<not> is_provider (msg_Sender m)"
  shows "good_entry cfg n (setState m False e)"
  using assms by (simp add: good_entry_def setState_def visited_def)

lemma good_has_transition: "good_entry cfg n e \<Longrightarrow> we_transition e \<noteq> None"
  by (simp add: good_entry_def)

lemma call_ok_good:
  "call_ok cfg n w now tr e m \<Longrightarrow> good_entry cfg n e' \<Longrightarrow> svc_Name (msg_Service m') = n \<Longrightarrow>
     msg_Sender m' = msg_Sender m \<Longrightarrow> call_ok cfg n w now (we_transition e') e' m'"
  by (auto simp: call_ok_def good_has_transition)

lemma execute_good:
  assumes "wf_config cfg" and "call_ok cfg n w now tr e m" and "execute w now tr e m = Some y"
  shows "good_result cfg n y"
proof -
  have "call_ok cfg n w now tr e m \<longrightarrow> good_result cfg n y"
  proof (rule execute.raw_induct [OF _ assms(3),
        where P = "\<lambda>w now tr e m y. call_ok cfg n w now tr e m \<longrightarrow> good_result cfg n y"], goal_cases)
    case (1 f w now tr e m y)
    show ?case
    proof
      assume ok: "call_ok cfg n w now tr e m"
      then have w: "w = initWorkflow cfg" and now: "now > 0" and name: "svc_Name (msg_Service m) = n"
        and sender: "msg_Sender m \<in> set (chain cfg)" and tr: "tr \<noteq> None"
        by (simp_all add: call_ok_def)
      have IH: "good_result cfg n y" if "f w now (we_transition e') e' m' = Some y"
        "good_entry cfg n e'" "svc_Name (msg_Service m') = n" "msg_Sender m' = msg_Sender m" for e' m'
        using 1(1) [OF that(1)] call_ok_good [OF ok that(2-4)] by simp
      show "good_result cfg n y"
      proof (cases "good_entry cfg n e")
        case False
        then have at: "at_provider cfg n tr e m" using ok by (simp add: call_ok_def)
        then have "Option.bind (setNextStep w e) (\<lambda>e. f w now (we_transition e) e m) = Some y"
          using 1(2) by (simp add: at_provider_def is_provider_def)
        then obtain e' where e': "setNextStep w e = Some e'" "f w now (we_transition e') e' m = Some y"
          by (auto simp: bind_eq_Some_conv)
        then show ?thesis
          using IH [OF e'(2) at_provider_next [OF assms(1) at sender] name] w by simp
      next
        case good: True
        note keeps_good [intro]
        obtain t where t: "tr = Some t" using tr by blast
        show ?thesis
        proof (cases t)
          case closeState
          with t good now 1(2) show ?thesis by (auto simp: returns_def)
        next
          case provisionerState
          have sent: "good_result cfg n y" if "good_entry cfg n e'"
            "(case sendToExtension now e' of (we, m) \<Rightarrow> returns we [m]) = Some y" for e'
            using that good_setWIP [OF that(1) now, of True] good_request_msg [OF that(1)]
            by (auto simp: sendToExtension_eq returns_def)
          show ?thesis
          proof (cases "we_WorkInProgress e \<and> msg_Sender m = we_State e \<and> msg_Error m = ''''")
            case False
            then show ?thesis using 1(2) t provisionerState sent [OF good] good
                good_setError [OF good_setWIP [OF good now]]
              by (auto simp: returns_def split: if_splits)
          next
            case True
            then obtain e' where e': "setNextStep w (updateService m e) = Some e'"
              "(if isLastStep w (we_State e') (isReverse e')
                then f w now (Some closeState) (e'\<lparr>we_transition := Some closeState\<rparr>) m
                else (case sendToExtension now e' of (we, m) \<Rightarrow> returns we [m])) = Some y"
              using 1(2) t provisionerState by (auto simp: bind_eq_Some_conv Let_def cong: if_cong)
            have g: "good_entry cfg n e'"
              using e'(1) w good name by (auto intro: good_setNextStep [OF assms(1)])
            then show ?thesis
              using e'(2) sent [OF g] IH [of "e'\<lparr>we_transition := Some closeState\<rparr>" m] name
              by (auto split: if_splits)
          qed
        next
          case providerDeleteState
          show ?thesis
          proof (cases "msg_Action m \<noteq> DeleteAction \<or> \<not> HasPrefix (msg_Sender m) ''provider.''")
            case True
            then show ?thesis using 1(2) t providerDeleteState good by (auto simp: returns_def)
          next
            case False
            then obtain a b where a: "(if we_WorkInProgress e then setNextStep w e else Some e) = Some a"
              and b: "setNextStep w (setTargetState undeployedState a) = Some b"
              and r: "f w now (we_transition b) b (m\<lparr>msg_Service := we_Service b\<rparr>) = Some y"
              using 1(2) t providerDeleteState by (auto simp: bind_eq_Some_conv split: if_splits)
            have "good_entry cfg n a" using a good w assms(1) by (auto split: if_splits)
            then have "good_entry cfg n b" using b w assms(1) by auto
            then show ?thesis using IH [OF r] by (simp add: good_entry_def)
          qed
        next
          case providerAddState
          show ?thesis
          proof (cases "setNextStep w e")
            case None
            then show ?thesis using 1(2) t providerAddState good by (auto simp: returns_def split: if_splits)
          next
            case (Some a)
            then have "good_entry cfg n a" using good w assms(1) by auto
            then show ?thesis using 1(2) t providerAddState good Some IH [of a m] name
              by (auto simp: returns_def split: if_splits)
          qed
        next
          case providerState
          let ?e = "setState m False ((setTargetState deployedState (setLastUpdate now e))
            \<lparr>we_transition := Some providerAddState\<rparr>)"
          consider (add) "msg_Action m = AddAction" | (del) "msg_Action m = DeleteAction"
            | (other) "msg_Action m \<noteq> AddAction" "msg_Action m \<noteq> DeleteAction" by blast
          then show ?thesis
          proof cases
            case add
            then have r: "f w now (Some providerAddState) ?e m = Some y"
              using 1(2) t providerState by (simp add: Let_def setState_def)
            have "call_ok cfg n w now (Some providerAddState) ?e m"
            proof (cases "is_provider (msg_Sender m)")
              case True
              then show ?thesis using ok good add
                by (simp add: call_ok_def at_provider_def) (simp add: entry_defs good_entry_def)
            next
              case False
              then have "good_entry cfg n ?e" using good sender by (intro good_setState) auto
              then show ?thesis using ok by (simp add: call_ok_def)
            qed
            then show ?thesis using 1(1) [OF r] by simp
          next
            case del
            then show ?thesis using 1(2) t providerState good name
                IH [of "e\<lparr>we_transition := Some providerDeleteState\<rparr>" m] by auto
          next
            case other
            then show ?thesis using 1(2) t providerState good by (auto simp: returns_def)
          qed
        qed
      qed
    qed
  qed
  with assms(2) show ?thesis by simp
qed

section \<open>Steps of the running core\<close>

text \<open>
  What Go runs concurrently: the listener of an extension receives a message, a started handler
  runs, the message sender forwards one message, the housekeeper ticks. The listener's message is
  arbitrary. Ranging over a map happens in any order; the clock shows any instant after the zero
  time.
\<close>

inductive sys_step :: "server \<Rightarrow> server \<Rightarrow> bool" where
  listen: "name \<in> dom (srv_channels s) \<Longrightarrow> target_orders msg order \<Longrightarrow> now > 0 \<Longrightarrow>
    extensionListener order name now msg s = Some s' \<Longrightarrow> sys_step s s'"
| handle: "i < length (srv_started s) \<Longrightarrow> now > 0 \<Longrightarrow> run_started i now s = Some (Inr s') \<Longrightarrow> sys_step s s'"
| forward: "sys_step s (messageSender s)"
| tick: "map_order order (srv_entries s) \<Longrightarrow> \<forall>k. map_order (providers k) (srv_extensions s) \<Longrightarrow>
    now > 0 \<Longrightarrow> sys_step s (housekeeper now providers order s)"

inductive reachable :: "core_config \<Rightarrow> server \<Rightarrow> bool" where
  start: "reachable conf (initServer conf)"
| step: "reachable conf s \<Longrightarrow> sys_step s s' \<Longrightarrow> reachable conf s'"
| restart: "reachable conf s \<Longrightarrow> map_order order (srv_entries s) \<Longrightarrow>
    reachable conf (startServer conf (snd (entries_save None writeErr order s file)))"

section \<open>The invariant\<close>

definition started_ok :: "string \<Rightarrow> server \<Rightarrow> transition option \<times> nat \<times> Message \<Rightarrow> bool" where
  "started_ok cfg s h =
     (case h of (tr, a, m) \<Rightarrow>
        a < srv_next s \<and> msg_Sender m \<in> dom (srv_extensions s) \<and>
        tr = getTransition (initWorkflow cfg) (msg_Sender m) \<and>
        good_entry cfg (svc_Name (msg_Service m)) (srv_heap s a))"

text \<open>In a channel: a request of the core for the extension of that name, or a refresh request.\<close>

definition queued_ok :: "(string \<rightharpoonup> extension_kind) \<Rightarrow> string \<Rightarrow> string \<Rightarrow> Message \<Rightarrow> bool" where
  "queued_ok exts cfg c m \<longleftrightarrow>
     msg_Destination m = c \<and> c \<in> set (visited cfg) \<or>
     msg_Action m = RefreshAction \<and> exts c = Some ProviderExtension"

definition server_inv :: "core_config \<Rightarrow> server \<Rightarrow> bool" where
  "server_inv conf s \<longleftrightarrow>
     (let cfg = cc_WorkflowSteps conf in
      srv_config s = conf \<and> srv_workflow s = initWorkflow cfg \<and>
      srv_extensions s = initExtensions (initWorkflow cfg) \<and>
      dom (srv_channels s) = dom (srv_extensions s) \<and>
      (\<forall>k a. srv_entries s k = Some a \<longrightarrow> a < srv_next s \<and> sound_entry cfg k (srv_heap s a)) \<and>
      (\<forall>h\<in>set (srv_started s). started_ok cfg s h) \<and>
      (\<forall>m\<in>set (srv_msgToExtension s). msg_Destination m \<in> set (visited cfg)) \<and>
      (\<forall>c q. srv_channels s c = Some q \<longrightarrow> (\<forall>m\<in>set q. queued_ok (initExtensions (initWorkflow cfg)) cfg c m)))"

lemma extension_in_chain:
  assumes "wf_config cfg" and "name \<in> dom (initExtensions (initWorkflow cfg))"
  shows "name \<in> set (chain cfg)" and "name \<noteq> undeployedState" and "name \<noteq> deployedState"
proof -
  show "name \<in> set (chain cfg)"
    using assms by (auto simp: initExtensions_def set_initWorkflow split: if_splits)
  have "lookup_extension name \<noteq> None" using assms(2) by (auto simp: initExtensions_def split: if_splits)
  then have "length (Split CHR ''.'' name) = 2"
    by (auto simp: lookup_extension_def Let_def split: if_splits)
  then show "name \<noteq> undeployedState" "name \<noteq> deployedState"
    by (auto simp: undeployedState_def deployedState_def)
qed

lemma getTransition_extension:
  assumes "wf_config cfg" and "name \<in> dom (initExtensions (initWorkflow cfg))"
  shows "getTransition (initWorkflow cfg) name \<noteq> None"
  using extension_in_chain(1) [OF assms] by (simp add: getTransition_chain [OF assms(1)])

lemma server_inv_init: "server_inv conf (initServer conf)"
  by (auto simp: server_inv_def initServer_def Let_def split: if_splits)

text \<open>Storing an entry under its name keeps the table and the started handlers in order.\<close>

lemma store_entry_simps [simp]:
  "srv_config (store_entry a e s) = srv_config s" "srv_workflow (store_entry a e s) = srv_workflow s"
  "srv_extensions (store_entry a e s) = srv_extensions s" "srv_channels (store_entry a e s) = srv_channels s"
  "srv_entries (store_entry a e s) = srv_entries s" "srv_next (store_entry a e s) = srv_next s"
  "srv_started (store_entry a e s) = srv_started s"
  "srv_msgToExtension (store_entry a e s) = srv_msgToExtension s"
  "srv_heap (store_entry a e s) = (srv_heap s)(a := e)"
  by (simp_all add: store_entry_def)

lemma started_ok_mono:
  assumes "started_ok cfg s h" and "srv_next s \<le> srv_next t" and "srv_extensions t = srv_extensions s"
    and "\<And>k x. good_entry cfg k (srv_heap s x) \<Longrightarrow> x < srv_next s \<Longrightarrow> good_entry cfg k (srv_heap t x)"
  shows "started_ok cfg t h"
  using assms by (cases h) (auto simp: started_ok_def)

lemma server_inv_store:
  assumes "server_inv conf s" and "sound_entry (cc_WorkflowSteps conf) n (srv_heap s a)"
    and "sound_entry (cc_WorkflowSteps conf) n e" and "we_transition (srv_heap s a) \<noteq> None \<longrightarrow> we_transition e \<noteq> None"
  shows "server_inv conf (store_entry a e s)"
proof -
  have upd: "sound_entry (cc_WorkflowSteps conf) k (((srv_heap s)(a := e)) x)"
    if "sound_entry (cc_WorkflowSteps conf) k (srv_heap s x)" for k x
    using assms(3) that sound_entry_name [OF assms(2)] sound_entry_name [OF that] by auto
  have st: "started_ok (cc_WorkflowSteps conf) (store_entry a e s) h"
    if "started_ok (cc_WorkflowSteps conf) s h" for h
    using upd assms(4) by (intro started_ok_mono [OF that]) (auto simp: good_sound)
  have tab: "a' < srv_next s \<and> sound_entry (cc_WorkflowSteps conf) k (((srv_heap s)(a := e)) a')"
    if "srv_entries s k = Some a'" for k a'
    using assms(1) that upd [of k a'] by (simp add: server_inv_def Let_def)
  show ?thesis
    using assms(1) st tab unfolding server_inv_def Let_def by auto
qed

lemma server_inv_store_good:
  assumes "server_inv conf s" and "sound_entry (cc_WorkflowSteps conf) n (srv_heap s a)"
    and "good_entry (cc_WorkflowSteps conf) n e"
  shows "server_inv conf (store_entry a e s)"
  using assms(3) by (intro server_inv_store [OF assms(1,2)]) (simp_all add: good_sound)

lemma store_entry_twice [simp]: "store_entry a e (store_entry a e' s) = store_entry a e s"
  by (simp add: store_entry_def)

lemma server_inv_alloc:
  assumes "server_inv conf s" and "sound_entry (cc_WorkflowSteps conf) n e"
  shows "server_inv conf (store_entry (srv_next s) e
    (s\<lparr>srv_entries := (srv_entries s)(n \<mapsto> srv_next s), srv_next := Suc (srv_next s)\<rparr>))"
    (is "server_inv conf ?t")
proof -
  have st: "started_ok (cc_WorkflowSteps conf) ?t h" if "started_ok (cc_WorkflowSteps conf) s h" for h
    by (rule started_ok_mono [OF that]) auto
  have tab: "a < srv_next s \<and> sound_entry (cc_WorkflowSteps conf) k (srv_heap s a)"
    if "srv_entries s k = Some a" for k a
    using assms(1) that by (simp add: server_inv_def Let_def)
  have "a < srv_next ?t \<and> sound_entry (cc_WorkflowSteps conf) k (srv_heap ?t a)"
    if "srv_entries ?t k = Some a" for k a
    using that tab [of k a] assms(2) by (auto split: if_splits)
  then show ?thesis
    using assms(1) st unfolding server_inv_def Let_def by auto
qed

lemma server_inv_start:
  assumes "server_inv conf s" and "started_ok (cc_WorkflowSteps conf) s h"
  shows "server_inv conf (s\<lparr>srv_started := srv_started s @ [h]\<rparr>)"
proof -
  have "started_ok (cc_WorkflowSteps conf) (s\<lparr>srv_started := l\<rparr>) h'"
    if "started_ok (cc_WorkflowSteps conf) s h'" for l h'
    by (rule started_ok_mono [OF that]) simp_all
  then show ?thesis using assms unfolding server_inv_def Let_def by auto
qed

lemma makeNewFlowEntry_wf:
  assumes "wf_config cfg"
  obtains e where "makeNewFlowEntry (initWorkflow cfg) now = Some e" "we_State e \<in> set (visited cfg)"
    "we_ExpectedState e = deployedState" "\<not> we_WorkInProgress e"
proof -
  let ?e = "zero_entry\<lparr>we_TimeDetected := now, we_State := undeployedState, we_ExpectedState := deployedState\<rparr>"
  have "\<not> isReverse ?e" by (simp add: isReverse_def)
  then have "makeNewFlowEntry (initWorkflow cfg) now =
      Some (case next_name cfg undeployedState False of None \<Rightarrow> ?e | Some s \<Rightarrow> advance s ?e)"
    by (simp add: makeNewFlowEntry_def setNextStep_wf [OF assms])
  moreover obtain s where "next_name cfg undeployedState False = Some s" "s \<in> set (visited cfg)"
    using next_name_up [OF assms, of undeployedState] by auto
  ultimately show ?thesis using that by simp
qed

text \<open>What \<open>mergeMessage\<close> does once it has the table's lock, and its two cases.\<close>

definition merge_locked :: "gotime \<Rightarrow> Message \<Rightarrow> server \<Rightarrow> server option" where
  "merge_locked now msg s =
     Option.bind (find_or_create now (svc_Name (msg_Service msg)) s) (\<lambda>(a, s).
       let e = merge_into (srv_workflow s) msg (srv_heap s a);
           s = store_entry a e s
       in Some (s\<lparr>srv_started := srv_started s @ [(we_transition e, a, msg)]\<rparr>))"

lemma mergeMessage_locked: "serviceNeedUpdate s msg \<Longrightarrow> mergeMessage now msg s = merge_locked now msg s"
  by (simp add: mergeMessage_def merge_locked_def Let_def)

lemma mergeMessage_known:
  "\<not> serviceNeedUpdate s msg \<Longrightarrow> \<exists>a. srv_entries s (svc_Name (msg_Service msg)) = Some a \<and>
     mergeMessage now msg s = Some (store_entry a (setLastUpdate now (srv_heap s a)) s)"
  by (cases "srv_entries s (svc_Name (msg_Service msg))")
    (simp_all add: mergeMessage_def serviceNeedUpdate_def entry_of_def)

lemma server_inv_locked:
  assumes "wf_config (cc_WorkflowSteps conf)" and "server_inv conf s"
    and "msg_Sender m \<in> dom (srv_extensions s)"
  shows "\<exists>s'. merge_locked now m s = Some s' \<and> server_inv conf s'"
proof -
  let ?cfg = "cc_WorkflowSteps conf" and ?n = "svc_Name (msg_Service m)"
  have w: "srv_workflow s = initWorkflow ?cfg"
    and x: "srv_extensions s = initExtensions (initWorkflow ?cfg)"
    and tab: "\<And>k a. srv_entries s k = Some a \<Longrightarrow> a < srv_next s \<and> sound_entry ?cfg k (srv_heap s a)"
    using assms(2) by (simp_all add: server_inv_def Let_def)
  have tr: "getTransition (initWorkflow ?cfg) (msg_Sender m) \<noteq> None"
    using getTransition_extension [OF assms(1)] assms(3) x by simp
  have merged: "good_entry ?cfg ?n (merge_into (initWorkflow ?cfg) m e)"
    if "we_State e \<in> set (visited ?cfg)" "we_ExpectedState e = deployedState \<or> we_ExpectedState e = undeployedState"
      "we_WorkInProgress e \<longrightarrow> we_WIPTime e > 0" for e
    using that tr by (simp add: good_entry_def)
  have begin_handler: "server_inv conf (t\<lparr>srv_started := srv_started t @ [(we_transition e, a, m)]\<rparr>)"
    if "server_inv conf t" "a < srv_next t" "srv_heap t a = e" "e = merge_into (initWorkflow ?cfg) m e'"
      "good_entry ?cfg ?n e" for t a e e'
    using that assms(3) x
    by (intro server_inv_start) (auto simp: started_ok_def server_inv_def Let_def)
  show ?thesis
  proof (cases "srv_entries s ?n")
    case (Some a)
    then have a: "a < srv_next s" "sound_entry ?cfg ?n (srv_heap s a)" using tab by blast+
    let ?e = "merge_into (initWorkflow ?cfg) m (srv_heap s a)"
    have g: "good_entry ?cfg ?n ?e" using a(2) by (intro merged) (simp_all add: sound_entry_def)
    have "server_inv conf (store_entry a ?e s)" by (rule server_inv_store_good [OF assms(2) a(2) g])
    from begin_handler [OF this _ _ refl g, of a] a(1) show ?thesis
      using Some w by (simp add: merge_locked_def find_or_create_def)
  next
    case None
    obtain e where e: "makeNewFlowEntry (initWorkflow ?cfg) now = Some e" "we_State e \<in> set (visited ?cfg)"
      "we_ExpectedState e = deployedState" "\<not> we_WorkInProgress e"
      using makeNewFlowEntry_wf [OF assms(1)] .
    let ?e = "merge_into (initWorkflow ?cfg) m e"
    have g: "good_entry ?cfg ?n ?e" using e by (intro merged) simp_all
    then have "sound_entry ?cfg ?n ?e" by (simp add: good_sound)
    from begin_handler [OF server_inv_alloc [OF assms(2) this] _ _ refl g, of "srv_next s"]
    show ?thesis using None e(1) w by (simp add: merge_locked_def find_or_create_def Let_def)
  qed
qed

lemma server_inv_merge:
  assumes "wf_config (cc_WorkflowSteps conf)" and "server_inv conf s"
    and "msg_Sender m \<in> dom (srv_extensions s)"
  shows "\<exists>s'. mergeMessage now m s = Some s' \<and> server_inv conf s'"
proof (cases "serviceNeedUpdate s m")
  case True
  then show ?thesis using server_inv_locked [OF assms] by (simp add: mergeMessage_locked)
next
  case False
  then obtain a where a: "srv_entries s (svc_Name (msg_Service m)) = Some a"
    "mergeMessage now m s = Some (store_entry a (setLastUpdate now (srv_heap s a)) s)"
    using mergeMessage_known by blast
  then have "sound_entry (cc_WorkflowSteps conf) (svc_Name (msg_Service m)) (srv_heap s a)"
    using assms(2) by (simp add: server_inv_def Let_def)
  from server_inv_store [OF assms(2) this, of "setLastUpdate now (srv_heap s a)"] this a(2)
  show ?thesis by (simp add: setLastUpdate_def)
qed

lemma server_inv_send:
  assumes "server_inv conf s" and "queued_ok (initExtensions (initWorkflow (cc_WorkflowSteps conf))) (cc_WorkflowSteps conf) name m"
  shows "server_inv conf (sendMessageToExtension m name s)"
proof (cases "srv_channels s name")
  case (Some q)
  let ?c = "(srv_channels s)(name \<mapsto> q @ [m])"
  have ch: "\<And>c q. srv_channels s c = Some q \<Longrightarrow>
      \<forall>m\<in>set q. queued_ok (initExtensions (initWorkflow (cc_WorkflowSteps conf))) (cc_WorkflowSteps conf) c m"
    using assms(1) by (simp add: server_inv_def Let_def)
  have "\<forall>m\<in>set p. queued_ok (initExtensions (initWorkflow (cc_WorkflowSteps conf))) (cc_WorkflowSteps conf) c m" if "?c c = Some p" for c p
    using that ch [of c] ch [OF Some] assms(2) by (auto split: if_splits)
  moreover have "dom ?c = dom (srv_channels s)" using Some by auto
  moreover have "started_ok cfg (s\<lparr>srv_channels := ?c\<rparr>) h" if "started_ok cfg s h" for cfg h
    by (rule started_ok_mono [OF that]) simp_all
  ultimately show ?thesis
    using assms(1) Some unfolding server_inv_def Let_def sendMessageToExtension_def by auto
qed (use assms(1) in \<open>simp add: sendMessageToExtension_def\<close>)

lemma server_inv_outbox:
  assumes "server_inv conf s" and "\<forall>m\<in>set out. msg_Destination m \<in> set (visited (cc_WorkflowSteps conf))"
  shows "server_inv conf (s\<lparr>srv_msgToExtension := out\<rparr>)"
proof -
  have "started_ok cfg (s\<lparr>srv_msgToExtension := out\<rparr>) h" if "started_ok cfg s h" for cfg h
    by (rule started_ok_mono [OF that]) simp_all
  then show ?thesis using assms unfolding server_inv_def Let_def by simp
qed

lemma messageSender_inv:
  assumes "server_inv conf s"
  shows "server_inv conf (messageSender s)"
proof (cases "srv_msgToExtension s")
  case (Cons m rest)
  then have "\<forall>m\<in>insert m (set rest). msg_Destination m \<in> set (visited (cc_WorkflowSteps conf))"
    using assms by (simp add: server_inv_def Let_def)
  moreover from this have "server_inv conf (s\<lparr>srv_msgToExtension := rest\<rparr>)"
    using assms by (intro server_inv_outbox) simp_all
  ultimately show ?thesis
    using Cons by (auto simp: messageSender_def queued_ok_def intro: server_inv_send)
qed (use assms in \<open>simp add: messageSender_def\<close>)

lemma server_inv_unstart:
  assumes "server_inv conf s" and "set l \<subseteq> set (srv_started s)"
  shows "server_inv conf (s\<lparr>srv_started := l\<rparr>)"
proof -
  have "started_ok cfg (s\<lparr>srv_started := l\<rparr>) h" if "started_ok cfg s h" for cfg h
    by (rule started_ok_mono [OF that]) simp_all
  then show ?thesis using assms unfolding server_inv_def Let_def by auto
qed

text \<open>A handler that has run leaves the table as it was and is no longer among those started.\<close>

lemma run_started_frame:
  assumes "run_started i now s = Some (Inr s')"
  shows "srv_entries s' = srv_entries s" and "set (srv_started s') \<subseteq> set (srv_started s)"
proof -
  obtain tr a m where h: "srv_started s ! i = (tr, a, m)" by (cases "srv_started s ! i")
  obtain y where "(case y of Inl p \<Rightarrow> Some (Inl p)
      | Inr (e, out) \<Rightarrow> Some (Inr ((store_entry a e s)
          \<lparr>srv_started := take i (srv_started s) @ drop (Suc i) (srv_started s),
           srv_msgToExtension := srv_msgToExtension s @ out\<rparr>))) = Some (Inr s' :: panic + server)"
    using assms h by (auto simp: run_started_def bind_eq_Some_conv)
  then show "srv_entries s' = srv_entries s" "set (srv_started s') \<subseteq> set (srv_started s)"
    by (cases y; auto dest: in_set_takeD in_set_dropD)+
qed

text \<open>A started handler of a reachable state runs to a result without a panic, if it returns.\<close>

lemma started_result:
  assumes "wf_config (cc_WorkflowSteps conf)" and "server_inv conf s"
    and "(tr, a, m) \<in> set (srv_started s)" and "now > 0"
    and "execute (srv_workflow s) now tr (srv_heap s a) m = Some y"
  shows "good_result (cc_WorkflowSteps conf) (svc_Name (msg_Service m)) y"
    and "good_entry (cc_WorkflowSteps conf) (svc_Name (msg_Service m)) (srv_heap s a)"
proof -
  let ?cfg = "cc_WorkflowSteps conf"
  have ok: "started_ok ?cfg s (tr, a, m)" and w: "srv_workflow s = initWorkflow ?cfg"
    and x: "srv_extensions s = initExtensions (initWorkflow ?cfg)"
    using assms(2,3) by (auto simp: server_inv_def Let_def)
  then show g: "good_entry ?cfg (svc_Name (msg_Service m)) (srv_heap s a)" by (simp add: started_ok_def)
  have "call_ok ?cfg (svc_Name (msg_Service m)) (initWorkflow ?cfg) now tr (srv_heap s a) m"
    using ok g x assms(4) extension_in_chain(1) [OF assms(1)] getTransition_extension [OF assms(1)]
    by (auto simp: call_ok_def started_ok_def)
  from execute_good [OF assms(1) this] show "good_result ?cfg (svc_Name (msg_Service m)) y"
    using assms(5) w by simp
qed

lemma run_started_inv:
  assumes "wf_config (cc_WorkflowSteps conf)" and "server_inv conf s"
    and "i < length (srv_started s)" and "now > 0" and "run_started i now s = Some r"
  shows "\<exists>s'. r = Inr s' \<and> server_inv conf s'"
proof -
  let ?cfg = "cc_WorkflowSteps conf"
  obtain tr a m where h: "srv_started s ! i = (tr, a, m)" by (cases "srv_started s ! i")
  then have mem: "(tr, a, m) \<in> set (srv_started s)" using assms(3) nth_mem by metis
  obtain y where y: "execute (srv_workflow s) now tr (srv_heap s a) m = Some y"
    "(case y of Inl p \<Rightarrow> Some (Inl p)
      | Inr (e, out) \<Rightarrow>
          Some (Inr ((store_entry a e s)
            \<lparr>srv_started := take i (srv_started s) @ drop (Suc i) (srv_started s),
             srv_msgToExtension := srv_msgToExtension s @ out\<rparr>))) = Some r"
    using assms(5) h by (auto simp: run_started_def bind_eq_Some_conv)
  note res = started_result [OF assms(1,2) mem assms(4) y(1)]
  obtain e out where eo: "y = Inr (e, out)" using res(1) by (auto simp: good_result_def split: sum.splits)
  then have e: "good_entry ?cfg (svc_Name (msg_Service m)) e"
    and out: "\<forall>m\<in>set out. msg_Destination m \<in> set (visited ?cfg)"
    using res(1) by (simp_all add: good_request_def)
  let ?l = "take i (srv_started s) @ drop (Suc i) (srv_started s)"
  have "server_inv conf (store_entry a e s)" using res(2) by (intro server_inv_store_good [OF assms(2) _ e]) (simp add: good_sound)
  then have "server_inv conf ((store_entry a e s)\<lparr>srv_started := ?l\<rparr>)"
    by (rule server_inv_unstart) (auto dest: in_set_takeD in_set_dropD)
  then have "server_inv conf ((store_entry a e s)\<lparr>srv_started := ?l, srv_msgToExtension := srv_msgToExtension s @ out\<rparr>)"
    using out assms(2) by (intro server_inv_outbox) (auto simp: server_inv_def Let_def)
  then show ?thesis using y(2) eo by auto
qed


lemma extensions_order: "\<exists>xs. map_order xs (initExtensions w)"
proof -
  have "dom (initExtensions w) \<subseteq> step_Name ` set w" by (auto simp: initExtensions_def split: if_splits)
  then have "finite (dom (initExtensions w))" by (rule finite_subset) simp
  then show ?thesis by (rule finite_order)
qed

lemma refreshService_frame:
  "srv_config (fst (refreshService ns n s)) = srv_config s \<and> srv_entries (fst (refreshService ns n s)) = srv_entries s \<and>
   srv_heap (fst (refreshService ns n s)) = srv_heap s \<and> srv_extensions (fst (refreshService ns n s)) = srv_extensions s"
  by (induction ns) (auto simp: sendMessageToExtension_def split: option.splits)

lemma server_inv_refresh:
  assumes "server_inv conf s"
  shows "server_inv conf (fst (refreshService ns n s))"
proof (induction ns)
  case (Cons name ns)
  have "queued_ok (initExtensions (initWorkflow (cc_WorkflowSteps conf))) (cc_WorkflowSteps conf) name (refresh_msg n)"
    if "srv_extensions s name = Some ProviderExtension"
    using that assms by (simp add: queued_ok_def refresh_msg_def server_inv_def Let_def)
  then show ?case using Cons server_inv_send [OF assms] by auto
qed (use assms in simp)

lemma server_inv_forget:
  assumes "server_inv conf s"
  shows "server_inv conf (s\<lparr>srv_entries := (srv_entries s)(k := None)\<rparr>)"
proof -
  have "started_ok cfg (s\<lparr>srv_entries := (srv_entries s)(k := None)\<rparr>) h" if "started_ok cfg s h" for cfg h
    by (rule started_ok_mono [OF that]) simp_all
  then show ?thesis using assms unfolding server_inv_def Let_def by auto
qed

lemma server_inv_entry:
  assumes "server_inv conf s" and "srv_entries s k = Some a"
  shows "sound_entry (cc_WorkflowSteps conf) k (srv_heap s a)"
  using assms by (simp add: server_inv_def Let_def)

text \<open>What one iteration does to the table and to the store.\<close>

definition expired :: "core_config \<Rightarrow> gotime \<Rightarrow> workflowEntry \<Rightarrow> bool" where
  "expired conf now e \<longleftrightarrow>
     we_State e = undeployedState \<and> we_ExpectedState e = undeployedState \<and> \<not> we_WorkInProgress e \<and>
     time_Sub now (we_CloseTime e) > cc_CleanUndeployedServiceAfter conf"

definition timed_out :: "core_config \<Rightarrow> gotime \<Rightarrow> workflowEntry \<Rightarrow> bool" where
  "timed_out conf now e \<longleftrightarrow> we_WorkInProgress e \<and> time_Sub now (we_WIPTime e) > cc_ServiceWIPTimeout conf"

definition kept_entry :: "core_config \<Rightarrow> gotime \<Rightarrow> workflowEntry \<Rightarrow> workflowEntry" where
  "kept_entry conf now e = (if timed_out conf now e then close_entry now (timeout_msg e) e else e)"

definition stale :: "core_config \<Rightarrow> gotime \<Rightarrow> workflowEntry \<Rightarrow> bool" where
  "stale conf now e \<longleftrightarrow>
     we_State e = deployedState \<and> time_Sub now (we_LastUpdate e) > cc_ServiceMaxLastUpdated conf"

lemma housekeep_entry_eq:
  assumes "srv_entries s k = Some a"
  shows "housekeep_entry now providers k s =
    (let e = srv_heap s a; conf = srv_config s;
         t = (if expired conf now e then s\<lparr>srv_entries := (srv_entries s)(k := None)\<rparr> else s);
         u = (if stale conf now e then fst (refreshService (providers k) (svc_Name (we_Service e)) t) else t)
     in if timed_out conf now e then store_entry a (kept_entry conf now e) u else u)"
proof -
  have "(if we_State e = we_ExpectedState e \<and> \<not> we_WorkInProgress e
         then (if we_State e = undeployedState \<and> b then x else s) else s) =
        (if we_State e = undeployedState \<and> we_ExpectedState e = undeployedState \<and> \<not> we_WorkInProgress e \<and> b
         then x else s)" for e b x by auto
  then show ?thesis
    by (simp add: housekeep_entry_def assms Let_def expired_def timed_out_def stale_def kept_entry_def
        conj_commute)
qed

lemma housekeep_entry_inv:
  assumes "server_inv conf s" and "now > 0"
  shows "server_inv conf (housekeep_entry now providers k s)"
proof (cases "srv_entries s k")
  case (Some a)
  have g: "sound_entry (cc_WorkflowSteps conf) k (srv_heap s a)" by (rule server_inv_entry [OF assms(1) Some])
  then have c: "sound_entry (cc_WorkflowSteps conf) k (kept_entry conf' now (srv_heap s a))"
    and tr: "we_transition (kept_entry conf' now (srv_heap s a)) = we_transition (srv_heap s a)" for conf'
    by (simp_all add: kept_entry_def sound_close_entry)
  define t where "t = (if expired (srv_config s) now (srv_heap s a)
    then s\<lparr>srv_entries := (srv_entries s)(k := None)\<rparr> else s)"
  define u where "u = (if stale (srv_config s) now (srv_heap s a)
    then fst (refreshService (providers k) (svc_Name (we_Service (srv_heap s a))) t) else t)"
  have "server_inv conf t" using server_inv_forget [OF assms(1)] assms(1) by (simp add: t_def)
  then have "server_inv conf u" using server_inv_refresh by (simp add: u_def)
  moreover have "srv_heap u a = srv_heap s a" by (simp add: u_def t_def refreshService_frame)
  ultimately have "server_inv conf (store_entry a (kept_entry (srv_config s) now (srv_heap s a)) u)"
    using g c tr by (intro server_inv_store) simp_all
  with \<open>server_inv conf u\<close> show ?thesis
    unfolding housekeep_entry_eq [OF Some] Let_def t_def [symmetric] u_def [symmetric] by simp
qed (use assms in \<open>simp add: housekeep_entry_def\<close>)

lemma housekeeper_inv:
  "server_inv conf s \<Longrightarrow> now > 0 \<Longrightarrow> server_inv conf (housekeeper now providers order s)"
  unfolding housekeeper_def by (induction order arbitrary: s) (simp_all add: housekeep_entry_inv)

lemma extensionListener_sender [simp]:
  "msg_Sender (SetTargetWeight order (m\<lparr>msg_Sender := n\<rparr>)) = n"
  by (simp add: SetTargetWeight_def)

lemma sys_step_inv:
  assumes "wf_config (cc_WorkflowSteps conf)" and "sys_step s s'" and "server_inv conf s"
  shows "server_inv conf s'"
  using assms(2,3)
proof (induction rule: sys_step.induct)
  case (listen name s msg order now s')
  then have "name \<in> dom (srv_extensions s)" by (auto simp: server_inv_def Let_def)
  then show ?case
    using server_inv_merge [OF assms(1) listen.prems, of "SetTargetWeight order (msg\<lparr>msg_Sender := name\<rparr>)" now] listen
    by (auto simp: extensionListener_def Let_def)
next
  case (handle i s now s')
  then show ?case using run_started_inv [OF assms(1)] by fastforce
qed (simp_all add: messageSender_inv housekeeper_inv)

text \<open>The file of sound entries gives a sound table.\<close>

lemma server_inv_load:
  "server_inv conf s \<Longrightarrow> \<forall>(k, e)\<in>set f. sound_entry (cc_WorkflowSteps conf) k e \<Longrightarrow> server_inv conf (load_entries f s)"
proof (induction f s rule: load_entries.induct)
  case (2 k e f s)
  then show ?case using server_inv_alloc [of conf s k e] by simp
qed simp

lemma server_inv_restart:
  assumes "server_inv conf s" and "map_order order (srv_entries s)"
  shows "server_inv conf (startServer conf (snd (entries_save None writeErr order s file)))"
proof -
  have "sound_entry (cc_WorkflowSteps conf) k (the (entry_of s k))" if "k \<in> set order" for k
    using that map_orderD(2) [OF assms(2)] server_inv_entry [OF assms(1)] by (auto simp: entry_of_def)
  then have "\<forall>(k, e)\<in>set (map (\<lambda>k. (k, persisted (the (entry_of s k)))) order). sound_entry (cc_WorkflowSteps conf) k e"
    by auto
  from server_inv_load [OF server_inv_init this] show ?thesis
    using server_inv_init [of conf]
    by (simp add: startServer_saved entries_save_def split: option.split)
qed

lemma reachable_inv:
  assumes "wf_config (cc_WorkflowSteps conf)" and "reachable conf s"
  shows "server_inv conf s"
  using assms(2,1) by induction (auto intro: server_inv_init sys_step_inv server_inv_restart)

end
