(* ===== verification/System_Props.thy ===== *)
theory System_Props
  imports System
begin

text \<open>
  Properties of the running core (\<open>src/core/server.go\<close>, \<open>src/core/workflow.go\<close>) in its reachable
  states, and of the effect of \<open>mergeMessage\<close> and of the housekeeper.
\<close>

section \<open>Reachable states\<close>

text \<open>
  C4. In every reachable state of the core, each entry of the table is the entry of the service
  with that name and of no other, stands at a step of the workflow that is not a provider, and is
  meant to be \<open>deployed\<close> or \<open>undeployed\<close>; one in progress knows since when.
\<close>

theorem table_invariant:
  assumes "wf_config (cc_WorkflowSteps conf)" and "reachable conf s" and "srv_entries s k = Some a"
  shows "svc_Name (we_Service (srv_heap s a)) = k \<and> (\<forall>j. srv_entries s j = Some a \<longrightarrow> j = k) \<and>
    we_State (srv_heap s a) \<in> set (visited (cc_WorkflowSteps conf)) \<and>
    we_ExpectedState (srv_heap s a) \<in> {deployedState, undeployedState} \<and>
    (we_WorkInProgress (srv_heap s a) \<longrightarrow> we_WIPTime (srv_heap s a) > 0)"
proof -
  have g: "sound_entry (cc_WorkflowSteps conf) j (srv_heap s a)" if "srv_entries s j = Some a" for j
    using server_inv_entry [OF reachable_inv [OF assms(1,2)] that] .
  have "j = k" if "srv_entries s j = Some a" for j
    using sound_entry_name [OF g [OF that]] sound_entry_name [OF g [OF assms(3)]] by simp
  then show ?thesis using g [OF assms(3)] by (auto simp: sound_entry_def)
qed

text \<open>
  C5. No handler that the core starts ever panics, and it returns unless it is the deletion of a
  service that is undeployed already (or being undeployed, at the last step), in which case it
  never does.
\<close>

theorem handlers_return:
  assumes "wf_config (cc_WorkflowSteps conf)" and "reachable conf s"
    and "i < length (srv_started s)" and "srv_started s ! i = (tr, a, m)" and "now > 0"
  shows "(\<exists>s'. run_started i now s = Some (Inr s')) \<or>
    run_started i now s = None \<and> is_provider (msg_Sender m) \<and> msg_Action m = DeleteAction \<and>
    we_State (srv_heap s a) = undeployedState \<and>
    (we_WorkInProgress (srv_heap s a) \<longrightarrow> we_ExpectedState (srv_heap s a) = undeployedState)"
proof (cases "run_started i now s")
  case (Some r)
  then show ?thesis
    using run_started_inv [OF assms(1) reachable_inv [OF assms(1,2)] assms(3,5)] by auto
next
  case None
  let ?cfg = "cc_WorkflowSteps conf"
  have inv: "server_inv conf s" by (rule reachable_inv [OF assms(1,2)])
  have mem: "(tr, a, m) \<in> set (srv_started s)" using assms(3,4) nth_mem by metis
  have ok: "started_ok ?cfg s (tr, a, m)" and w: "srv_workflow s = initWorkflow ?cfg"
    and x: "srv_extensions s = initExtensions (initWorkflow ?cfg)"
    using inv mem by (auto simp: server_inv_def Let_def)
  have tr: "tr = getTransition (initWorkflow ?cfg) (msg_Sender m)"
    and g: "we_State (srv_heap s a) \<in> set (visited ?cfg)"
    and snd: "msg_Sender m \<in> set (chain ?cfg)" "msg_Sender m \<noteq> undeployedState" "msg_Sender m \<noteq> deployedState"
    using ok x extension_in_chain [OF assms(1), of "msg_Sender m"] by (auto simp: started_ok_def good_entry_def)
  have none: "execute (initWorkflow ?cfg) now tr (srv_heap s a) m = None"
    using None assms(4) w by (auto simp: run_started_def bind_eq_None_conv split: sum.splits)
  show ?thesis
  proof (cases "is_provider (msg_Sender m) \<and> msg_Action m \<noteq> AddAction \<and> msg_Action m \<noteq> DeleteAction")
    case True
    then show ?thesis
      using none tr getTransition_provider [OF assms(1) snd(1)] by (simp add: execute_providerState returns_def)
  next
    case False
    then have "proper_message ?cfg m" using snd by (auto simp: proper_message_def)
    from execute_refines [OF assms(1) g this, of now]
    have "machine (top_of ?cfg) (phase_of ?cfg (srv_heap s a)) (event_of ?cfg m) = None"
      using none tr by (simp add: abs_outcome_def)
    then have "event_of ?cfg m = Withdraw" "pos_of ?cfg (we_State (srv_heap s a)) = 0"
      "\<not> (we_WorkInProgress (srv_heap s a) \<and> \<not> isReverse (srv_heap s a))"
      by (cases "event_of ?cfg m"; auto simp: phase_of_def split: if_splits)+
    then show ?thesis
      using None False pos_of_end_iff(1) [OF assms(1) g]
      by (auto simp: event_of_def isReverse_def split: if_splits)
  qed
qed

text \<open>
  C6. What the core sends: a message in an extension's channel is a request made for that very
  extension, a step of the workflow that is not a provider, or a refresh request to an extension
  that is a provider. So a provider is never asked to add or delete a service.
\<close>

theorem channels_carry:
  assumes "wf_config (cc_WorkflowSteps conf)" and "reachable conf s"
    and "srv_channels s c = Some q" and "m \<in> set q"
  shows "msg_Destination m = c \<and> c \<in> set (visited (cc_WorkflowSteps conf)) \<and> \<not> is_provider c \<or>
    msg_Action m = RefreshAction \<and> srv_extensions s c = Some ProviderExtension"
  using reachable_inv [OF assms(1,2)] assms(3,4)
  by (fastforce simp: server_inv_def Let_def queued_ok_def visited_def)

text \<open>A run for the witnesses: one announcement, its handler, and the request forwarded.\<close>

definition demo_conf :: core_config where
  "demo_conf = \<lparr>cc_WorkflowSteps = doc_config, cc_ServiceWIPTimeout = 90, cc_ServiceMaxLastUpdated = 60,
     cc_CleanUndeployedServiceAfter = 600\<rparr>"

lemma demo_conf_steps [simp]: "cc_WorkflowSteps demo_conf = doc_config"
  by (simp add: demo_conf_def)

lemma demo_extensions:
  "initExtensions (initWorkflow doc_config) ''provider.swarm'' = Some ProviderExtension"
  "initExtensions (initWorkflow doc_config) ''ipam.ipalloc'' = Some ProvisionerExtension"
  by (code_simp, code_simp)

lemma announce_weights: "SetTargetWeight [] (announce act) = announce act"
  by (simp add: SetTargetWeight_def announce_def zero_Message_def zero_Service_def)

lemma doc_next: "next_name doc_config ''provider.swarm'' False = Some ''ipam.ipalloc''"
  using route_after_split [OF doc_config_wf doc_provider] by (auto simp: doc_route)

lemma demo_listen:
  obtains s e where "reachable demo_conf s" "srv_entries s = [''web'' \<mapsto> 0]"
    "srv_started s = [(Some providerState, 0, announce AddAction)]" "srv_heap s 0 = e"
    "srv_msgToExtension s = []" "srv_channels s ''ipam.ipalloc'' = Some []"
    "srv_workflow s = initWorkflow doc_config"
proof -
  let ?s = "initServer demo_conf" and ?m = "announce AddAction"
  have swarm: "?m\<lparr>msg_Sender := ''provider.swarm''\<rparr> = ?m" by (simp add: announce_def zero_Message_def)
  obtain e where e: "makeNewFlowEntry (initWorkflow doc_config) 9 = Some e"
    using makeNewFlowEntry_wf [OF doc_config_wf] by metis
  have "\<exists>s. mergeMessage 9 ?m ?s = Some s \<and> srv_entries s = [''web'' \<mapsto> 0] \<and>
      srv_started s = [(Some providerState, 0, ?m)] \<and> srv_msgToExtension s = [] \<and>
      srv_channels s ''ipam.ipalloc'' = Some [] \<and> srv_workflow s = initWorkflow doc_config"
    using e getTransition_provider [OF doc_config_wf doc_provider] demo_extensions(2)
    by (simp add: mergeMessage_def serviceNeedUpdate_def entry_of_def find_or_create_def initServer_def Let_def)
  then obtain s where s: "mergeMessage 9 ?m ?s = Some s" "srv_entries s = [''web'' \<mapsto> 0]"
      "srv_started s = [(Some providerState, 0, ?m)]" "srv_msgToExtension s = []"
      "srv_channels s ''ipam.ipalloc'' = Some []" "srv_workflow s = initWorkflow doc_config" by blast
  have "sys_step ?s s"
  proof (rule sys_step.listen)
    show "''provider.swarm'' \<in> dom (srv_channels ?s)"
      by (simp add: initServer_def Let_def demo_extensions dom_def)
    show "target_orders ?m []"
      by (simp add: target_orders_def map_order_def announce_def zero_Message_def zero_Service_def weight_map_def)
    show "extensionListener [] ''provider.swarm'' 9 ?m ?s = Some s"
      using s(1) by (simp add: extensionListener_def Let_def swarm announce_weights)
  qed simp
  then show ?thesis using that s reachable.start reachable.step by blast
qed

lemma demo_request:
  obtains s m where "reachable demo_conf s" "srv_channels s ''ipam.ipalloc'' = Some [m]"
proof -
  obtain s e where s: "reachable demo_conf s" "srv_entries s = [''web'' \<mapsto> 0]"
    "srv_started s = [(Some providerState, 0, announce AddAction)]" "srv_heap s 0 = e"
    "srv_msgToExtension s = []" "srv_channels s ''ipam.ipalloc'' = Some []"
    "srv_workflow s = initWorkflow doc_config"
    by (rule demo_listen)
  obtain e' r where "execute (initWorkflow doc_config) 9 (Some providerState) e (announce AddAction) =
      Some (Inr (e', [r]))" "msg_Destination r = ''ipam.ipalloc''"
    using execute_add [OF doc_config_wf, of "announce AddAction" "''ipam.ipalloc''" 9 e] doc_provider doc_next
    by (simp add: enter_def returns_def deployedState_def undeployedState_def)
  then have "\<exists>t. run_started 0 9 s = Some (Inr t) \<and> srv_msgToExtension t = [r] \<and>
      srv_channels t ''ipam.ipalloc'' = Some []"
    using s by (simp add: run_started_def)
  then obtain t where t: "run_started 0 9 s = Some (Inr t)" "srv_msgToExtension t = [r]"
      "srv_channels t ''ipam.ipalloc'' = Some []" by blast
  have "sys_step s t" by (rule sys_step.handle [OF _ _ t(1)]) (simp_all add: s(3))
  then have "reachable demo_conf (messageSender t)"
    using s(1) by (blast intro: reachable.step sys_step.forward)
  moreover have "srv_channels (messageSender t) ''ipam.ipalloc'' = Some [r]"
    using t(2,3) \<open>msg_Destination r = _\<close> by (simp add: messageSender_def sendMessageToExtension_def)
  ultimately show ?thesis using that by blast
qed

theorem table_invariant_witness:
  "\<exists>s a. reachable demo_conf s \<and> srv_entries s ''web'' = Some a \<and>
     we_State (srv_heap s a) \<in> {''undeployed'', ''ipam.ipalloc'', ''lb.f5ltm'', ''deployed''}"
proof (rule demo_listen)
  fix s assume s: "reachable demo_conf s" "srv_entries s = [''web'' \<mapsto> 0]"
  then have "we_State (srv_heap s 0) \<in> set (visited doc_config)"
    using table_invariant [of demo_conf s "''web''" 0] by (simp add: doc_config_wf)
  then show ?thesis
    using s by (intro exI [of _ s] exI [of _ 0] conjI) (simp_all only: doc_config_visited list.set fun_upd_same)
qed

theorem handlers_return_witness:
  "\<exists>s s'. reachable demo_conf s \<and> run_started 0 9 s = Some (Inr s')"
proof (rule demo_listen)
  fix s assume s: "reachable demo_conf s" "srv_started s = [(Some providerState, 0, announce AddAction)]"
  then have "\<exists>s'. run_started 0 9 s = Some (Inr s')"
    using handlers_return [of demo_conf s 0 "Some providerState" 0 "announce AddAction" 9]
    by (simp add: doc_config_wf AddAction_def DeleteAction_def)
  then show ?thesis using s(1) by blast
qed

theorem channels_carry_witness:
  "\<exists>s m. reachable demo_conf s \<and> srv_channels s ''ipam.ipalloc'' = Some [m] \<and>
     (msg_Destination m = ''ipam.ipalloc'' \<or> msg_Action m = RefreshAction)"
proof (rule demo_request)
  fix s m assume s: "reachable demo_conf s" "srv_channels s ''ipam.ipalloc'' = Some [m]"
  then have "msg_Destination m = ''ipam.ipalloc'' \<or> msg_Action m = RefreshAction"
    using channels_carry [of demo_conf s "''ipam.ipalloc''" "[m]" m] by (auto simp: doc_config_wf)
  with s show ?thesis by blast
qed

section \<open>Merging a message\<close>

text \<open>Who may change what of a service's definition.\<close>

definition authorised :: "Message \<Rightarrow> Service \<Rightarrow> Service \<Rightarrow> bool" where
  "authorised m s t \<longleftrightarrow>
     (is_provider (msg_Sender m) \<and> msg_Action m \<noteq> DeleteAction \<or> same_definition t s) \<and>
     (HasPrefix (msg_Sender m) ''ipam.'' \<or> svc_PublicIP t = svc_PublicIP s) \<and>
     svc_Provider t = svc_Provider s"

lemma authorised_refl [simp]: "authorised m s s"
  by (simp add: authorised_def)

lemma authorised_trans: "authorised m s t \<Longrightarrow> authorised m t u \<Longrightarrow> authorised m s u"
  by (auto simp: authorised_def intro: same_definition_trans)

lemma authorised_updateService:
  "msg_Sender m' = msg_Sender m \<Longrightarrow> msg_Action m' = msg_Action m \<Longrightarrow>
     authorised m (we_Service e) (we_Service (updateService m' e))"
  by (auto simp: authorised_def updateService_def is_provider_def same_definition_def Let_def)

lemma setNextStep_service: "setNextStep w e = Some e' \<Longrightarrow> we_Service e' = we_Service e"
  by (auto simp: setNextStep_def bind_eq_Some_conv)

lemma service_frame [simp]:
  "we_Service (setError err e) = we_Service e" "we_Service (setLastUpdate now e) = we_Service e"
  "we_Service (setTargetState st e) = we_Service e" "we_Service (setState m b e) = we_Service e"
  by (simp_all add: setError_def setLastUpdate_def setTargetState_def setState_def)

definition result_authorised :: "Message \<Rightarrow> Service \<Rightarrow> panic + workflowEntry \<times> Message list \<Rightarrow> bool" where
  "result_authorised m s r = (case r of Inl p \<Rightarrow> True | Inr (e, out) \<Rightarrow> authorised m s (we_Service e))"

lemma result_authorised_step:
  "authorised m s t \<Longrightarrow> result_authorised m' t r \<Longrightarrow> msg_Sender m' = msg_Sender m \<Longrightarrow>
     msg_Action m' = msg_Action m \<Longrightarrow> result_authorised m s r"
  by (auto simp: result_authorised_def authorised_def split: sum.splits intro: same_definition_trans)

lemma execute_authorised:
  assumes "execute w now tr e m = Some r"
  shows "result_authorised m (we_Service e) r"
proof (rule execute.raw_induct [OF _ assms,
      where P = "\<lambda>w now tr e m r. result_authorised m (we_Service e) r"], goal_cases)
  case (1 f w now tr e m r)
  have IH: "result_authorised m s r" if "f w now tr' e' m' = Some r" "authorised m s (we_Service e')"
    "msg_Sender m' = msg_Sender m" "msg_Action m' = msg_Action m" for tr' e' m' s
    using result_authorised_step [OF that(2) 1(1) [OF that(1)] that(3,4)] .
  show ?case
  proof (cases tr)
    case None
    then show ?thesis using 1(2) by (auto simp: result_authorised_def)
  next
    case (Some t)
    show ?thesis
      using 1(2) unfolding Some
      by (cases t)
        (auto simp: returns_def result_authorised_def [of m "we_Service e" "Inr _"] Let_def bind_eq_Some_conv
          sendToExtension_eq setNextStep_service authorised_updateService
          intro: IH split: if_splits cong: if_cong)
  qed
qed

text \<open>
  C15. Only providers change the targets, the TLS flag and the DNS names of a tracked service, not
  even they when deleting it, and only address managers (\<open>ipam.\<close>) change its public address.
\<close>

theorem service_authority:
  assumes "deliver w now m e = Some (Inr (e', out))"
  shows "(is_provider (msg_Sender m) \<and> msg_Action m \<noteq> DeleteAction \<or>
      svc_Targets (we_Service e') = svc_Targets (we_Service e) \<and>
      svc_TLS (we_Service e') = svc_TLS (we_Service e) \<and>
      svc_DNSAliases (we_Service e') = svc_DNSAliases (we_Service e)) \<and>
    (HasPrefix (msg_Sender m) ''ipam.'' \<or> svc_PublicIP (we_Service e') = svc_PublicIP (we_Service e))"
proof -
  have "authorised m (we_Service e) (we_Service (merge_into w m e))"
    by (simp add: authorised_updateService)
  moreover have "result_authorised m (we_Service (merge_into w m e)) (Inr (e', out))"
    using assms by (intro execute_authorised) (simp add: deliver_def Let_def)
  ultimately have "authorised m (we_Service e) (we_Service e')"
    by (auto simp: result_authorised_def intro: authorised_trans)
  then show ?thesis by (auto simp: authorised_def same_definition_def)
qed

theorem service_authority_witness:
  "\<exists>e' out. deliver (initWorkflow doc_config) 9 (reply_from ''lb.f5ltm'') zero_entry = Some (Inr (e', out)) \<and>
     svc_PublicIP (we_Service e') = '''' \<and> svc_TLS (we_Service e') = False"
proof -
  have "getTransition (initWorkflow doc_config) ''lb.f5ltm'' = Some provisionerState"
    by (rule getTransition_provisioner(1) [OF doc_config_wf])
      (simp_all add: doc_config_visited undeployedState_def deployedState_def)
  then obtain e' out where d: "deliver (initWorkflow doc_config) 9 (reply_from ''lb.f5ltm'') zero_entry = Some (Inr (e', out))"
    by (simp add: deliver_def Let_def execute_provisionerState sendToExtension_eq returns_def zero_entry_def)
  have "\<not> is_provider ''lb.f5ltm''" "\<not> HasPrefix ''lb.f5ltm'' ''ipam.''"
    by (simp_all add: is_provider_def HasPrefix_def)
  with service_authority [OF d]
  have "svc_PublicIP (we_Service e') = ''''" "svc_TLS (we_Service e') = False"
    by (simp_all add: zero_entry_def zero_Service_def)
  with d show ?thesis by blast
qed

text \<open>
  A message that brings nothing new (the definition the entry has, and the state it is in) is
  not handled: no handler starts, no entry is made, and the entry changes its time of update only.
\<close>

theorem unchanged_service_ignored:
  assumes "srv_entries s (svc_Name (msg_Service m)) = Some a"
    and "same_definition (we_Service (srv_heap s a)) (msg_Service m)"
    and "we_State (srv_heap s a) = we_ExpectedState (srv_heap s a)"
    and "we_State (srv_heap s a) = deployedState \<and> msg_Action m = AddAction \<or>
      we_State (srv_heap s a) = undeployedState \<and> msg_Action m = DeleteAction"
  shows "mergeMessage now m s = Some (s\<lparr>srv_heap := (srv_heap s)(a := (srv_heap s a)\<lparr>we_LastUpdate := now\<rparr>)\<rparr>)"
proof -
  have "fst (IsSameThan (we_Service (srv_heap s a)) (msg_Service m))"
    using assms(2) by (simp add: IsSameThan_def same_definition_def Let_def)
  moreover have "isStateAsWanted (msg_Action m) (srv_heap s a)"
    using assms(3,4) by (auto simp: isStateAsWanted_def)
  ultimately have "\<not> serviceNeedUpdate s m"
    using assms(1) by (simp add: serviceNeedUpdate_def entry_of_def)
  then show ?thesis using assms(1) by (simp add: mergeMessage_def store_entry_def setLastUpdate_def)
qed

definition deployed_web :: server where
  "deployed_web = (initServer demo_conf)\<lparr>srv_entries := [''web'' \<mapsto> 0], srv_next := 1,
     srv_heap := (\<lambda>a. zero_entry\<lparr>we_State := deployedState, we_ExpectedState := deployedState,
       we_Service := msg_Service (announce AddAction), we_transition := Some closeState\<rparr>)\<rparr>"

theorem unchanged_service_ignored_witness:
  "\<exists>s. mergeMessage 9 (announce AddAction) deployed_web = Some s \<and> srv_started s = [] \<and>
     we_LastUpdate (srv_heap s 0) = 9"
  using unchanged_service_ignored [of deployed_web "announce AddAction" 0 9]
  by (simp add: deployed_web_def initServer_def Let_def)

text \<open>
  C14. A message that does bring something new starts exactly one handler, on the entry of its
  service (made if there was none) with the message merged into it; the entries of other services
  stay as they are.
\<close>

theorem changed_service_handled:
  assumes "wf_config (cc_WorkflowSteps conf)" and "reachable conf s" and "serviceNeedUpdate s m"
    and "msg_Sender m \<in> dom (srv_channels s)"
  shows "\<exists>s' a. mergeMessage now m s = Some s' \<and> srv_entries s' (svc_Name (msg_Service m)) = Some a \<and>
    srv_started s' = srv_started s @ [(getTransition (srv_workflow s) (msg_Sender m), a, m)] \<and>
    svc_Name (we_Service (srv_heap s' a)) = svc_Name (msg_Service m) \<and>
    srv_msgToExtension s' = srv_msgToExtension s \<and>
    (\<forall>k. k \<noteq> svc_Name (msg_Service m) \<longrightarrow> entry_of s' k = entry_of s k)"
proof -
  let ?n = "svc_Name (msg_Service m)"
  have inv: "server_inv conf s" by (rule reachable_inv [OF assms(1,2)])
  then have w: "srv_workflow s = initWorkflow (cc_WorkflowSteps conf)" by (simp add: server_inv_def Let_def)
  have tab: "b < srv_next s \<and> (\<forall>j. srv_entries s j = Some b \<longrightarrow> j = k)" if "srv_entries s k = Some b" for k b
    using inv that server_inv_entry [OF inv] sound_entry_name by (metis server_inv_def)
  obtain e where e: "makeNewFlowEntry (srv_workflow s) now = Some e"
    using makeNewFlowEntry_wf [OF assms(1)] w by metis
  obtain a t where t: "find_or_create now ?n s = Some (a, t)" "srv_entries t ?n = Some a"
    "srv_workflow t = srv_workflow s" "srv_started t = srv_started s"
    "srv_msgToExtension t = srv_msgToExtension s"
    "\<And>k. k \<noteq> ?n \<Longrightarrow> srv_entries t k = srv_entries s k"
    "\<And>k b. k \<noteq> ?n \<Longrightarrow> srv_entries s k = Some b \<Longrightarrow> b \<noteq> a \<and> srv_heap t b = srv_heap s b"
  proof (cases "srv_entries s ?n")
    case None
    have "b \<noteq> srv_next s" if "srv_entries s k = Some b" for k b using tab [OF that] by simp
    then show ?thesis
      using None e
      by (intro that [of "srv_next s" "store_entry (srv_next s) e
          (s\<lparr>srv_entries := (srv_entries s)(?n \<mapsto> srv_next s), srv_next := Suc (srv_next s)\<rparr>)"])
        (auto simp: find_or_create_def Let_def)
  next
    case (Some a)
    then show ?thesis using tab by (intro that [of a s]) (auto simp: find_or_create_def)
  qed
  let ?s = "(store_entry a (merge_into (srv_workflow s) m (srv_heap t a)) t)
    \<lparr>srv_started := srv_started s @ [(getTransition (srv_workflow s) (msg_Sender m), a, m)]\<rparr>"
  have "mergeMessage now m s = Some ?s"
    using assms(3) t by (simp add: mergeMessage_def Let_def)
  moreover have "entry_of ?s k = entry_of s k" if "k \<noteq> ?n" for k
    using t(6,7) [OF that] by (cases "srv_entries s k") (auto simp: entry_of_def)
  ultimately show ?thesis using t by (intro exI [of _ ?s] exI [of _ a]) simp
qed

theorem changed_service_handled_witness:
  "\<exists>s a. mergeMessage 9 (announce AddAction) (initServer demo_conf) = Some s \<and>
     srv_started s = [(Some providerState, a, announce AddAction)] \<and>
     svc_Name (we_Service (srv_heap s a)) = ''web''"
proof -
  have "serviceNeedUpdate (initServer demo_conf) (announce AddAction)"
    by (simp add: serviceNeedUpdate_def entry_of_def initServer_def Let_def)
  moreover have "''provider.swarm'' \<in> dom (srv_channels (initServer demo_conf))"
    by (simp add: initServer_def Let_def demo_extensions dom_def)
  moreover have "srv_workflow (initServer demo_conf) = initWorkflow doc_config"
    "srv_started (initServer demo_conf) = []" by (simp_all add: initServer_def Let_def)
  ultimately show ?thesis
    using changed_service_handled [of demo_conf "initServer demo_conf" "announce AddAction" 9]
      getTransition_provider [OF doc_config_wf doc_provider]
    by (auto simp: doc_config_wf intro: reachable.start)
qed

text \<open>
  C7. A second deletion brings the core down. When a provider reports as deleted a service whose
  entry is \<open>undeployed\<close> and still holds the targets it was deployed with, the message is not
  recognised as bringing nothing new, since it has no targets; the handler started for it never
  returns.
\<close>

theorem second_delete_crashes:
  assumes "wf_config (cc_WorkflowSteps conf)" and "reachable conf s"
    and "name \<in> dom (srv_channels s)" and "is_provider name"
    and "srv_entries s n = Some a" and "we_State (srv_heap s a) = undeployedState"
    and "\<not> we_WorkInProgress (srv_heap s a)" and "svc_Targets (we_Service (srv_heap s a)) \<noteq> None"
  shows "\<exists>s'. extensionListener [] name now (BuildDeleteMessage n) s = Some s' \<and>
    length (srv_started s') = Suc (length (srv_started s)) \<and>
    run_started (length (srv_started s)) later s' = None"
proof -
  let ?m = "(BuildDeleteMessage n)\<lparr>msg_Sender := name\<rparr>" and ?cfg = "cc_WorkflowSteps conf"
  have inv: "server_inv conf s" by (rule reachable_inv [OF assms(1,2)])
  then have w: "srv_workflow s = initWorkflow ?cfg"
    and "name \<in> dom (initExtensions (initWorkflow ?cfg))"
    using assms(3) by (simp_all add: server_inv_def Let_def)
  then have ch: "name \<in> set (chain ?cfg)" using extension_in_chain(1) [OF assms(1)] by blast
  have m: "SetTargetWeight [] ?m = ?m" "msg_Sender ?m = name" "msg_Action ?m = DeleteAction"
    "svc_Name (msg_Service ?m) = n" "svc_Targets (msg_Service ?m) = None"
    by (simp_all add: SetTargetWeight_def BuildDeleteMessage_def zero_Message_def zero_Service_def)
  have "serviceNeedUpdate s ?m"
    using assms(5,8) m by (simp add: serviceNeedUpdate_def entry_of_def IsSameThan_def Let_def)
  then have l: "extensionListener [] name now (BuildDeleteMessage n) s =
      Some ((store_entry a (merge_into (srv_workflow s) ?m (srv_heap s a)) s)
        \<lparr>srv_started := srv_started s @ [(Some providerState, a, ?m)]\<rparr>)"
    using assms(5) m w getTransition_provider [OF assms(1) ch assms(4)]
    by (simp add: extensionListener_def mergeMessage_def find_or_create_def Let_def)
  have "execute (initWorkflow ?cfg) later (Some providerState) (merge_into (initWorkflow ?cfg) ?m (srv_heap s a)) ?m = None"
    using assms(4,6,7) m by (intro execute_delete_stuck [OF assms(1)]) (simp_all add: stuck_delete_def)
  then show ?thesis using w by (simp add: l run_started_def nth_append)
qed

section \<open>One round of the housekeeper\<close>

lemma housekeep_entry_frame:
  assumes "srv_entries s k = Some a"
  shows "srv_config (housekeep_entry now providers k s) = srv_config s"
    and "srv_entries (housekeep_entry now providers k s) =
      (if expired (srv_config s) now (srv_heap s a) then (srv_entries s)(k := None) else srv_entries s)"
    and "srv_heap (housekeep_entry now providers k s) =
      (srv_heap s)(a := kept_entry (srv_config s) now (srv_heap s a))"
  unfolding housekeep_entry_eq [OF assms] Let_def
  by (auto simp: refreshService_frame kept_entry_def)

definition table_keyed :: "server \<Rightarrow> bool" where
  "table_keyed s \<longleftrightarrow> (\<forall>j k a. srv_entries s j = Some a \<longrightarrow> srv_entries s k = Some a \<longrightarrow> j = k)"

lemma server_inv_keyed: "server_inv conf s \<Longrightarrow> table_keyed s"
  unfolding table_keyed_def by (metis sound_entry_name server_inv_entry)

text \<open>The keys already visited have been treated, each on its own; the others are as before.\<close>

lemma housekeeper_prefix:
  assumes "table_keyed s" and "distinct ks" and "set ks \<subseteq> dom (srv_entries s)"
  shows "srv_config (housekeeper now providers ks s) = srv_config s \<and>
    srv_entries (housekeeper now providers ks s) =
      (\<lambda>k. case srv_entries s k of None \<Rightarrow> None
        | Some a \<Rightarrow> if k \<in> set ks \<and> expired (srv_config s) now (srv_heap s a) then None else Some a) \<and>
    srv_heap (housekeeper now providers ks s) =
      (\<lambda>a. if \<exists>k\<in>set ks. srv_entries s k = Some a then kept_entry (srv_config s) now (srv_heap s a)
           else srv_heap s a)"
  using assms(2,3)
proof (induction ks rule: rev_induct)
  case Nil
  show ?case by (auto simp: housekeeper_def fun_eq_iff split: option.splits)
next
  case (snoc k ks)
  let ?t = "housekeeper now providers ks s"
  have IH: "srv_config ?t = srv_config s"
    "srv_entries ?t = (\<lambda>k. case srv_entries s k of None \<Rightarrow> None
        | Some a \<Rightarrow> if k \<in> set ks \<and> expired (srv_config s) now (srv_heap s a) then None else Some a)"
    "srv_heap ?t = (\<lambda>a. if \<exists>k\<in>set ks. srv_entries s k = Some a
        then kept_entry (srv_config s) now (srv_heap s a) else srv_heap s a)"
    using snoc by simp_all
  obtain a where a: "srv_entries s k = Some a" using snoc.prems by auto
  have own: "j = k" if "srv_entries s j = Some a" for j
    using assms(1) a that unfolding table_keyed_def by blast
  have "srv_entries ?t k = Some a" using snoc.prems(1) a by (simp add: IH(2))
  moreover have "srv_heap ?t a = srv_heap s a" using snoc.prems(1) own by (auto simp: IH(3))
  ultimately have at: "srv_entries ?t k = Some a" "srv_heap ?t a = srv_heap s a" by blast+
  note step = housekeep_entry_frame [OF at(1), of now providers, unfolded at(2) IH(1)]
  have last: "housekeeper now providers (ks @ [k]) s = housekeep_entry now providers k ?t"
    by (simp add: housekeeper_def)
  have k: "k \<notin> set ks" using snoc.prems(1) by simp
  show ?case
    unfolding last
  proof (intro conjI ext)
    show "srv_config (housekeep_entry now providers k ?t) = srv_config s" by (rule step(1))
    fix j
    show "srv_entries (housekeep_entry now providers k ?t) j = (case srv_entries s j of None \<Rightarrow> None
        | Some a \<Rightarrow> if j \<in> set (ks @ [k]) \<and> expired (srv_config s) now (srv_heap s a) then None else Some a)"
      unfolding step(2) IH(2) using a k by (cases "j = k") (auto split: option.splits)
  next
    fix b
    show "srv_heap (housekeep_entry now providers k ?t) b = (if \<exists>k\<in>set (ks @ [k]). srv_entries s k = Some b
        then kept_entry (srv_config s) now (srv_heap s b) else srv_heap s b)"
      unfolding step(3) IH(3) using a by (cases "b = a") auto
  qed
qed

text \<open>
  C8. One round of the housekeeper treats every entry of the table on its own, whatever the order
  in which it visits them: an entry is removed exactly when it is closed, \<open>undeployed\<close> as expected
  and older than \<open>cleanUndeployedServiceAfter\<close>; an entry in progress for longer than
  \<open>serviceWIPTimeout\<close> is closed with an error; every other entry stays as it is.
\<close>

theorem housekeeper_round:
  assumes "wf_config (cc_WorkflowSteps conf)" and "reachable conf s"
    and "map_order order (srv_entries s)" and "srv_entries s k = Some a"
  shows "srv_entries (housekeeper now providers order s) k =
      (if expired conf now (srv_heap s a) then None else Some a) \<and>
    srv_heap (housekeeper now providers order s) a =
      (if timed_out conf now (srv_heap s a)
       then close_entry now (timeout_msg (srv_heap s a)) (srv_heap s a) else srv_heap s a)"
proof -
  have inv: "server_inv conf s" by (rule reachable_inv [OF assms(1,2)])
  then have "srv_config s = conf" by (simp add: server_inv_def Let_def)
  then show ?thesis
    using housekeeper_prefix [OF server_inv_keyed [OF inv], of order now providers] assms(3,4)
    by (auto simp: map_order_def kept_entry_def)
qed

end
