(* ===== verification/System_Runs.thy ===== *)
theory System_Runs
  imports System_Props
begin

text \<open>
  Runs of the core through its steps: a received and handled message as one delivery, concrete runs
  for the witnesses, and what timeouts and repeated deletions lead to (\<open>src/core/server.go\<close>).
\<close>

section \<open>Runs\<close>

text \<open>A message received and then handled, with nothing in between, is one delivery to its entry.\<close>

lemma handled_at_once:
  assumes "reachable conf s" and "srv_started s = []" and "name \<in> dom (srv_channels s)"
    and "target_orders m order" and "now > 0"
    and "m' = SetTargetWeight order (m\<lparr>msg_Sender := name\<rparr>)" and "serviceNeedUpdate s m'"
    and "find_or_create now (svc_Name (msg_Service m')) s = Some (a, t)"
    and "deliver (srv_workflow s) now m' (srv_heap t a) = Some (Inr (e', out))"
  shows "\<exists>s'. reachable conf s' \<and> srv_started s' = [] \<and> srv_entries s' = srv_entries t \<and>
    srv_heap s' = (srv_heap t)(a := e') \<and> srv_msgToExtension s' = srv_msgToExtension s @ out \<and>
    srv_channels s' = srv_channels s \<and> srv_workflow s' = srv_workflow s \<and> srv_next s' = srv_next t"
proof -
  let ?e = "merge_into (srv_workflow s) m' (srv_heap t a)"
  let ?u = "(store_entry a ?e t)\<lparr>srv_started := [(we_transition ?e, a, m')]\<rparr>"
  let ?v = "(store_entry a e' t)\<lparr>srv_started := [], srv_msgToExtension := srv_msgToExtension s @ out\<rparr>"
  have t: "srv_started t = []" "srv_workflow t = srv_workflow s" "srv_channels t = srv_channels s"
    "srv_msgToExtension t = srv_msgToExtension s"
    using assms(2,8) by (auto simp: find_or_create_def Let_def bind_eq_Some_conv split: option.splits)
  have "mergeMessage now m' s = Some ?u"
    using assms(7,8) t by (simp add: mergeMessage_def Let_def)
  then have "sys_step s ?u"
    using sys_step.listen [OF assms(3,4,5), of ?u] assms(6) by (simp add: extensionListener_def Let_def)
  moreover have "run_started 0 now ?u = Some (Inr ?v)"
    using assms(9) t by (simp add: run_started_def deliver_def Let_def store_entry_def)
  then have "sys_step ?u ?v" by (rule sys_step.handle [rotated 2]) (simp_all add: assms(5))
  ultimately have "reachable conf ?v" using assms(1) by (blast intro: reachable.step)
  then show ?thesis using t by (intro exI [of _ ?v]) simp
qed

text \<open>
  A run for the witnesses: a service with a target is announced and withdrawn while its first step
  is in progress, and the housekeeper closes it for its timeout.
\<close>

definition web_up :: Message where
  "web_up = (announce AddAction)\<lparr>msg_Service := (msg_Service (announce AddAction))
     \<lparr>svc_Targets := Some [\<lparr>tgt_Host = ''h'', tgt_Port = 80, tgt_Weight = 0\<rparr>]\<rparr>\<rparr>"

lemma web_up_simps [simp]:
  "msg_Sender web_up = ''provider.swarm''" "msg_Action web_up = AddAction" "msg_Error web_up = ''''"
  "svc_Name (msg_Service web_up) = ''web''" "web_up\<lparr>msg_Sender := ''provider.swarm''\<rparr> = web_up"
  by (simp_all add: web_up_def announce_def zero_Message_def)

lemma SetTargetWeight_passes:
  "msg_Sender (SetTargetWeight order m) = msg_Sender m" "msg_Action (SetTargetWeight order m) = msg_Action m"
  "msg_Error (SetTargetWeight order m) = msg_Error m"
  "svc_Name (msg_Service (SetTargetWeight order m)) = svc_Name (msg_Service m)"
  "svc_Targets (msg_Service (SetTargetWeight order m)) = None \<longleftrightarrow> order = []"
  by (simp_all add: SetTargetWeight_def Let_def foldl_append_nil_iff)

lemma web_up_orders: "target_orders web_up [''h:80'']"
  by (simp add: target_orders_def map_order_def weight_map_def count_key_def target_key_def web_up_def
      Itoa_def itoa_nat.simps)

lemma demo_announced:
  obtains s where "reachable demo_conf s" "srv_started s = []" "srv_entries s = [''web'' \<mapsto> 0]"
    "we_State (srv_heap s 0) = ''ipam.ipalloc''" "we_ExpectedState (srv_heap s 0) = deployedState"
    "we_WorkInProgress (srv_heap s 0)" "we_WIPTime (srv_heap s 0) = 9"
    "svc_Targets (we_Service (srv_heap s 0)) \<noteq> None" "srv_workflow s = initWorkflow doc_config"
    "''provider.swarm'' \<in> dom (srv_channels s)"
proof -
  let ?s = "initServer demo_conf" and ?m = "SetTargetWeight [''h:80''] web_up"
  obtain e where "makeNewFlowEntry (initWorkflow doc_config) 9 = Some e"
    using makeNewFlowEntry_wf [OF doc_config_wf] by metis
  then have "\<exists>t. find_or_create 9 ''web'' ?s = Some (0, t) \<and> srv_entries t = [''web'' \<mapsto> 0]"
    by (simp add: find_or_create_def initServer_def Let_def)
  then obtain t where t: "find_or_create 9 ''web'' ?s = Some (0, t)" "srv_entries t = [''web'' \<mapsto> 0]"
    by blast
  let ?e = "advance ''ipam.ipalloc'' (setState ?m False (setTargetState deployedState
      (setLastUpdate 9 (merge_into (initWorkflow doc_config) ?m (srv_heap t 0)))))"
  have "deliver (initWorkflow doc_config) 9 ?m (srv_heap t 0) = enter 9 (msg_Error ?m) ?e"
    by (rule deliver_add [OF doc_config_wf]) (simp_all add: SetTargetWeight_passes doc_provider doc_next)
  also have "\<dots> = Some (Inr (setWIP 9 True ?e, [request_msg ?e]))"
    by (simp add: enter_def returns_def deployedState_def undeployedState_def)
  finally have d: "deliver (initWorkflow doc_config) 9 ?m (srv_heap t 0) =
    Some (Inr (setWIP 9 True ?e, [request_msg ?e]))" .
  have w: "srv_workflow ?s = initWorkflow doc_config" by (simp add: initServer_def Let_def)
  have c: "''provider.swarm'' \<in> dom (srv_channels ?s)"
    by (simp add: initServer_def Let_def demo_extensions dom_def)
  have need: "serviceNeedUpdate ?s ?m" by (simp add: serviceNeedUpdate_def entry_of_def initServer_def Let_def)
  have st: "srv_started ?s = []" by (simp add: initServer_def Let_def)
  have m: "?m = SetTargetWeight [''h:80''] (web_up\<lparr>msg_Sender := ''provider.swarm''\<rparr>)" by simp
  have t': "find_or_create 9 (svc_Name (msg_Service ?m)) ?s = Some (0, t)"
    using t(1) by (simp add: SetTargetWeight_passes)
  have "svc_Targets (msg_Service ?m) \<noteq> None" by (simp add: SetTargetWeight_passes)
  moreover have "is_provider (msg_Sender ?m)" "msg_Action ?m \<noteq> DeleteAction"
    by (simp_all add: SetTargetWeight_passes doc_provider AddAction_def DeleteAction_def)
  then have "same_definition (we_Service (updateService ?m (srv_heap t 0))) (msg_Service ?m)"
    by (rule updateService_takes_definition)
  ultimately have "svc_Targets (we_Service ?e) \<noteq> None" by (simp add: same_definition_def)
  moreover have "we_ExpectedState ?e = deployedState" by (simp add: setState_def setTargetState_def)
  moreover obtain s' where "reachable demo_conf s'" "srv_started s' = []" "srv_entries s' = srv_entries t"
    "srv_heap s' = (srv_heap t)(0 := setWIP 9 True ?e)" "srv_channels s' = srv_channels ?s"
    "srv_workflow s' = initWorkflow doc_config"
    using handled_at_once [OF reachable.start st c web_up_orders _ m need t' d [folded w], unfolded w] by auto
  ultimately show ?thesis
    using t(2) c by (intro that [of s']) (simp_all only: fun_upd_same setWIP_simps advance_simps if_True simp_thms)
qed

lemma demo_withdrawn:
  obtains s where "reachable demo_conf s" "srv_entries s = [''web'' \<mapsto> 0]"
    "we_State (srv_heap s 0) = ''ipam.ipalloc''" "we_ExpectedState (srv_heap s 0) = undeployedState"
    "we_WorkInProgress (srv_heap s 0)" "we_WIPTime (srv_heap s 0) = 10"
    "svc_Targets (we_Service (srv_heap s 0)) \<noteq> None" "''provider.swarm'' \<in> dom (srv_channels s)"
proof (rule demo_announced)
  fix s assume s: "reachable demo_conf s" "srv_started s = []" "srv_entries s = [''web'' \<mapsto> 0]"
    "we_State (srv_heap s 0) = ''ipam.ipalloc''" "we_ExpectedState (srv_heap s 0) = deployedState"
    "we_WorkInProgress (srv_heap s 0)" "we_WIPTime (srv_heap s 0) = 9"
    "svc_Targets (we_Service (srv_heap s 0)) \<noteq> None" "srv_workflow s = initWorkflow doc_config"
    "''provider.swarm'' \<in> dom (srv_channels s)"
  let ?w = "initWorkflow doc_config"
  let ?m = "(BuildDeleteMessage ''web'')\<lparr>msg_Sender := ''provider.swarm''\<rparr>"
  let ?e = "merge_into ?w ?m (srv_heap s 0)"
  let ?d = "advance ''ipam.ipalloc'' (setTargetState undeployedState (advance ''lb.f5ltm'' ?e))"
  have m: "SetTargetWeight [] ?m = ?m" "msg_Sender ?m = ''provider.swarm''" "msg_Action ?m = DeleteAction"
    "svc_Name (msg_Service ?m) = ''web''" "svc_Targets (msg_Service ?m) = None" "msg_Error ?m = ''''"
    by (simp_all add: SetTargetWeight_def BuildDeleteMessage_def zero_Message_def zero_Service_def)
  have v: "visited doc_config = [''undeployed''] @ ''ipam.ipalloc'' # ''lb.f5ltm'' # [''deployed'']"
    by (simp add: doc_config_visited)
  have nx: "next_name doc_config ''ipam.ipalloc'' False = Some ''lb.f5ltm''"
    "next_name doc_config ''lb.f5ltm'' True = Some ''ipam.ipalloc''"
    using nav.next_forward [OF doc_config_wf v] nav.next_backward [OF doc_config_wf v] .
  have e: "we_State ?e = ''ipam.ipalloc''" "we_WorkInProgress ?e" "\<not> isReverse ?e"
    using s(4-6) by (simp_all add: isReverse_def)
  have "execute ?w 10 (Some providerState) ?e ?m = enter 10 (msg_Error ?m) ?d"
    by (rule execute_delete_busy [OF doc_config_wf]) (simp_all only: m doc_provider e nx advance_simps option.case)
  then have d: "deliver ?w 10 ?m (srv_heap s 0) = Some (Inr (setWIP 10 True ?d, [request_msg ?d]))"
    using m(2) getTransition_provider [OF doc_config_wf doc_provider]
    by (simp only: deliver_def Let_def merge_into_frame m enter_def returns_def advance_simps if_False
        deployedState_def undeployedState_def) simp
  have "\<not> isStateAsWanted DeleteAction (srv_heap s 0)"
    using s(4,5) by (simp add: isStateAsWanted_def deployedState_def)
  then have need: "serviceNeedUpdate s ?m"
    using s(3) m by (simp add: serviceNeedUpdate_def entry_of_def Let_def)
  have f: "find_or_create 10 (svc_Name (msg_Service ?m)) s = Some (0, s)"
    using s(3) m(4) by (simp add: find_or_create_def)
  have o': "target_orders (BuildDeleteMessage ''web'') []"
    by (simp add: target_orders_def map_order_def BuildDeleteMessage_def zero_Message_def zero_Service_def weight_map_def)
  have "svc_Targets (we_Service ?d) \<noteq> None"
    using s(8) m(2,3) doc_provider by (simp add: setTargetState_def updateService_def Let_def HasPrefix_def)
  moreover have "we_ExpectedState ?d = undeployedState" by (simp add: setTargetState_def)
  moreover obtain s' where "reachable demo_conf s'" "srv_entries s' = srv_entries s"
    "srv_heap s' = (srv_heap s)(0 := setWIP 10 True ?d)" "srv_channels s' = srv_channels s"
    using handled_at_once [OF s(1,2,10) o' _ m(1) [symmetric] need f d [folded s(9)], unfolded s(9)] by auto
  ultimately show ?thesis using s(3,10) by (intro that [of s']) (simp_all only: fun_upd_same setWIP_simps advance_simps if_True simp_thms)
qed

lemma demo_timed_out:
  obtains s where "reachable demo_conf s" "srv_entries s = [''web'' \<mapsto> 0]"
    "we_State (srv_heap s 0) = undeployedState" "\<not> we_WorkInProgress (srv_heap s 0)"
    "svc_Targets (we_Service (srv_heap s 0)) \<noteq> None" "''provider.swarm'' \<in> dom (srv_channels s)"
proof (rule demo_withdrawn)
  fix s assume s: "reachable demo_conf s" "srv_entries s = [''web'' \<mapsto> 0]"
    "we_State (srv_heap s 0) = ''ipam.ipalloc''" "we_ExpectedState (srv_heap s 0) = undeployedState"
    "we_WorkInProgress (srv_heap s 0)" "we_WIPTime (srv_heap s 0) = 10"
    "svc_Targets (we_Service (srv_heap s 0)) \<noteq> None" "''provider.swarm'' \<in> dom (srv_channels s)"
  have inv: "server_inv demo_conf s" by (rule reachable_inv [OF _ s(1)]) (simp add: doc_config_wf)
  then have conf: "srv_config s = demo_conf" and x: "srv_extensions s = initExtensions (initWorkflow doc_config)"
    and ch: "dom (srv_channels s) = dom (srv_extensions s)"
    by (simp_all add: server_inv_def Let_def)
  obtain xs where xs: "map_order xs (srv_extensions s)"
  proof -
    have "dom (srv_extensions s) \<subseteq> step_Name ` set (initWorkflow doc_config)"
      unfolding x by (auto simp: initExtensions_def split: if_splits)
    then have "finite (dom (srv_extensions s))" by (rule finite_subset) simp
    then show ?thesis using that finite_distinct_list by (metis map_order_def)
  qed
  let ?t = "housekeeper 200 (\<lambda>k. xs) [''web''] s"
  have o': "map_order [''web''] (srv_entries s)" using s(2) by (simp add: map_order_def)
  then have r: "reachable demo_conf ?t"
    using s(1) xs by (intro reachable.step [OF s(1)] sys_step.tick) simp_all
  have to: "timed_out demo_conf 200 (srv_heap s 0)" "\<not> expired demo_conf 200 (srv_heap s 0)"
    using s(3,5,6) by (simp_all add: timed_out_def expired_def demo_conf_def time_Sub_exact int_min_def int_max_def
        undeployedState_def)
  have eff: "srv_entries ?t = [''web'' \<mapsto> 0]"
    "srv_heap ?t 0 = close_entry 200 (timeout_msg (srv_heap s 0)) (srv_heap s 0)"
    using housekeeper_prefix [OF server_inv_keyed [OF inv], of "[''web'']" 200 "\<lambda>k. xs"] s(2) to conf
    by (auto simp: kept_entry_def fun_eq_iff)
  have "dom (srv_channels ?t) = dom (srv_channels s)"
    using reachable_inv [OF _ r] x ch by (simp add: doc_config_wf server_inv_def Let_def)
  then have "''provider.swarm'' \<in> dom (srv_channels ?t)" using s(8) by (simp only:)
  then show ?thesis using that [OF r eff(1)] eff(2) s(4,7) by (simp add: isReverse_def)
qed

section \<open>Timeouts and repeated deletions\<close>

theorem housekeeper_round_witness:
  "\<exists>s providers. reachable demo_conf s \<and> timed_out demo_conf 200 (srv_heap s 0) \<and>
     srv_entries (housekeeper 200 providers [''web''] s) ''web'' = Some 0 \<and>
     we_State (srv_heap (housekeeper 200 providers [''web''] s) 0) = undeployedState"
proof (rule demo_withdrawn)
  fix s assume s: "reachable demo_conf s" "srv_entries s = [''web'' \<mapsto> 0]"
    "we_State (srv_heap s 0) = ''ipam.ipalloc''" "we_ExpectedState (srv_heap s 0) = undeployedState"
    "we_WorkInProgress (srv_heap s 0)" "we_WIPTime (srv_heap s 0) = 10"
  have to: "timed_out demo_conf 200 (srv_heap s 0)" "\<not> expired demo_conf 200 (srv_heap s 0)"
    using s(3,5,6) by (simp_all add: timed_out_def expired_def demo_conf_def time_Sub_exact int_min_def int_max_def
        undeployedState_def)
  have "map_order [''web''] (srv_entries s)" "srv_entries s ''web'' = Some 0"
    using s(2) by (simp_all add: map_order_def)
  from housekeeper_round [of demo_conf s, OF _ s(1) this, of 200 "\<lambda>k. []"] to
  have "srv_entries (housekeeper 200 (\<lambda>k. []) [''web''] s) ''web'' = Some 0 \<and>
      we_State (srv_heap (housekeeper 200 (\<lambda>k. []) [''web''] s) 0) = undeployedState"
    using s(4) by (simp add: doc_config_wf isReverse_def)
  with s(1) to show ?thesis by blast
qed

theorem second_delete_crashes_witness:
  "\<exists>s s'. reachable demo_conf s \<and>
     extensionListener [] ''provider.swarm'' 300 (BuildDeleteMessage ''web'') s = Some s' \<and>
     run_started (length (srv_started s)) 301 s' = None"
proof (rule demo_timed_out)
  fix s assume s: "reachable demo_conf s" "srv_entries s = [''web'' \<mapsto> 0]"
    "we_State (srv_heap s 0) = undeployedState" "\<not> we_WorkInProgress (srv_heap s 0)"
    "svc_Targets (we_Service (srv_heap s 0)) \<noteq> None" "''provider.swarm'' \<in> dom (srv_channels s)"
  have "srv_entries s ''web'' = Some 0" using s(2) by simp
  from second_delete_crashes [of demo_conf s, OF _ s(1,6) doc_provider(2) this s(3-5), of 300 301]
  show ?thesis using s(1) by (auto simp: doc_config_wf)
qed

lemma timed_out_closed:
  assumes "wf_config (cc_WorkflowSteps conf)" and "reachable conf s"
    and "map_order order (srv_entries s)" and "srv_entries s n = Some a"
    and "timed_out conf now (srv_heap s a)" and "we_ExpectedState (srv_heap s a) = deployedState"
    and "svc_Name (msg_Service m) = n" and "msg_Action m = AddAction"
    and "same_definition (we_Service (srv_heap s a)) (msg_Service m)"
  shows "let t = housekeeper now providers order s in
    srv_entries t n = Some a \<and> we_State (srv_heap t a) = deployedState \<and> we_Error (srv_heap t a) \<noteq> '''' \<and>
    (\<exists>t'. mergeMessage later m t = Some t' \<and> srv_started t' = srv_started t \<and>
       srv_msgToExtension t' = srv_msgToExtension t)"
proof -
  let ?t = "housekeeper now providers order s" and ?e = "srv_heap s a"
  have inv: "server_inv conf s" by (rule reachable_inv [OF assms(1,2)])
  then have "srv_config s = conf" by (simp add: server_inv_def Let_def)
  moreover have "\<not> expired conf now ?e" using assms(5) by (simp add: timed_out_def expired_def)
  ultimately have t: "srv_entries ?t n = Some a" "srv_heap ?t a = close_entry now (timeout_msg ?e) ?e"
    using housekeeper_prefix [OF server_inv_keyed [OF inv], of order now providers] assms(3-5)
    by (auto simp: map_order_def kept_entry_def)
  have e: "we_State (srv_heap ?t a) = deployedState" "we_ExpectedState (srv_heap ?t a) = deployedState"
    "we_Service (srv_heap ?t a) = we_Service ?e" "we_Error (srv_heap ?t a) = timeout_msg ?e"
    using assms(6) by (simp_all add: t(2) isReverse_def timeout_msg_def)
  have "\<not> serviceNeedUpdate ?t m"
    using t(1) e assms(7-9)
    by (simp add: serviceNeedUpdate_def entry_of_def isStateAsWanted_def IsSameThan_def same_definition_def Let_def)
  then have "mergeMessage later m ?t = Some (store_entry a (setLastUpdate later (srv_heap ?t a)) ?t)"
    using t(1) assms(7) by (simp add: mergeMessage_def)
  then show ?thesis using e t(1) by (simp add: Let_def timeout_msg_def)
qed

text \<open>
  C13. A deployment that times out is reported as done, and not tried again. The housekeeper's
  round leaves the entry \<open>deployed\<close> as expected, with the error in a field that nothing acts upon:
  when the provider reports the same service again, the core takes it to be in the desired state.
\<close>

theorem timed_out_deployment_not_retried:
  assumes "wf_config (cc_WorkflowSteps conf)" and "reachable conf s"
    and "map_order order (srv_entries s)" and "srv_entries s n = Some a"
    and "timed_out conf now (srv_heap s a)" and "we_ExpectedState (srv_heap s a) = deployedState"
    and "svc_Name (msg_Service m) = n" and "msg_Action m = AddAction"
    and "same_definition (we_Service (srv_heap s a)) (msg_Service m)"
  shows "let t = housekeeper now providers order s in
    we_State (srv_heap t a) = deployedState \<and> we_Error (srv_heap t a) \<noteq> '''' \<and>
    (\<exists>t'. mergeMessage later m t = Some t' \<and> srv_started t' = srv_started t \<and>
       srv_msgToExtension t' = srv_msgToExtension t)"
  using timed_out_closed [OF assms] by (simp add: Let_def)

theorem timed_out_deployment_not_retried_witness:
  "\<exists>s m t'. reachable demo_conf s \<and> msg_Action m = AddAction \<and>
     mergeMessage 300 m (housekeeper 200 (\<lambda>k. []) [''web''] s) = Some t' \<and>
     srv_started t' = srv_started (housekeeper 200 (\<lambda>k. []) [''web''] s)"
proof (rule demo_announced)
  fix s assume s: "reachable demo_conf s" "srv_entries s = [''web'' \<mapsto> 0]"
    "we_State (srv_heap s 0) = ''ipam.ipalloc''" "we_ExpectedState (srv_heap s 0) = deployedState"
    "we_WorkInProgress (srv_heap s 0)" "we_WIPTime (srv_heap s 0) = 9"
  let ?m = "zero_Message\<lparr>msg_Action := AddAction, msg_Service := we_Service (srv_heap s 0)\<rparr>"
  have inv: "server_inv demo_conf s" by (rule reachable_inv [OF _ s(1)]) (simp add: doc_config_wf)
  have o': "map_order [''web''] (srv_entries s)" and k: "srv_entries s ''web'' = Some 0"
    using s(2) by (simp_all add: map_order_def)
  have n: "svc_Name (msg_Service ?m) = ''web''"
    using sound_entry_name [OF server_inv_entry [OF inv k]] by simp
  have to: "timed_out demo_conf 200 (srv_heap s 0)"
    using s(5,6) by (simp add: timed_out_def demo_conf_def time_Sub_exact int_min_def int_max_def)
  from timed_out_deployment_not_retried [of demo_conf s, OF _ s(1) o' k to s(4) n, of "\<lambda>k. []" 300]
  have "\<exists>t'. mergeMessage 300 ?m (housekeeper 200 (\<lambda>k. []) [''web''] s) = Some t' \<and>
     srv_started t' = srv_started (housekeeper 200 (\<lambda>k. []) [''web''] s)"
    by (simp add: doc_config_wf Let_def) blast
  moreover have "msg_Action ?m = AddAction" by simp
  ultimately show ?thesis using s(1) by blast
qed

end
