(* ===== verification/Lifecycle.thy ===== *)
theory Lifecycle
  imports System
begin

text \<open>
  The life of the process (\<open>Start\<close> and \<open>run\<close> of \<open>src/core/server.go\<close>): what is started, how an
  interrupt brings the parts down one after the other, and the table written at the end. The two wait
  groups are counters; \<open>extension.Stop\<close> is the request to stop, after which \<open>Start\<close> returns on its own.
  The goroutines interleave in any order, each of the steps below being atomic.
\<close>

section \<open>State\<close>

text \<open>
  Where the goroutine that handles the signals stands. In \<open>Down\<close> it waits for signals again; a second
  one leaves it blocked at the housekeeper that is gone, which changes nothing else.
\<close>

datatype shutdown_phase = Serving | StopHousekeeper | StopExtensions | WaitExtensions | StopAPI | Down

fun phase_rank :: "shutdown_phase \<Rightarrow> nat" where
  "phase_rank Serving = 0"
| "phase_rank StopHousekeeper = 1"
| "phase_rank StopExtensions = 2"
| "phase_rank WaitExtensions = 3"
| "phase_rank StopAPI = 4"
| "phase_rank Down = 5"

lemma phase_rank_inject [simp]: "phase_rank p = phase_rank q \<longleftrightarrow> p = q"
  by (cases p; cases q) simp_all

instantiation shutdown_phase :: linorder
begin

definition less_eq_shutdown_phase :: "shutdown_phase \<Rightarrow> shutdown_phase \<Rightarrow> bool" where
  "less_eq_shutdown_phase p q \<longleftrightarrow> phase_rank p \<le> phase_rank q"

definition less_shutdown_phase :: "shutdown_phase \<Rightarrow> shutdown_phase \<Rightarrow> bool" where
  "less_shutdown_phase p q \<longleftrightarrow> phase_rank p < phase_rank q"

instance
  by standard (auto simp: less_eq_shutdown_phase_def less_shutdown_phase_def)

end

text \<open>
  How the process ends: \<open>log.Fatalf\<close>, or the return from \<open>run\<close> after \<open>save\<close>. A message that a listener
  has received is in \<open>lc_merging\<close>, with the name of its extension, until \<open>mergeMessage\<close> has returned.
\<close>

datatype exit_reason = Fatal string | Saved "string option"

record lifecycle =
  lc_server :: server
  lc_file :: entries_file
  lc_phase :: shutdown_phase
  lc_housekeeper :: bool
  lc_toStop :: "string list"
  lc_running :: "string list"
  lc_extensionsWG :: nat
  lc_coreWG :: nat
  lc_merging :: "(string \<times> Message) list"
  lc_exit :: "exit_reason option"

text \<open>
  What \<open>run\<close> starts for the extensions in the order of its loop: the housekeeper and the API count in
  \<open>coreWG\<close>, the extensions in \<open>extensionsWG\<close>.
\<close>

definition run_init :: "string list \<Rightarrow> server \<Rightarrow> entries_file \<Rightarrow> lifecycle" where
  "run_init order s file =
     \<lparr>lc_server = s, lc_file = file, lc_phase = Serving, lc_housekeeper = True, lc_toStop = [],
      lc_running = order, lc_extensionsWG = foldl (\<lambda>n name. n + 1) 0 order, lc_coreWG = 1 + 1,
      lc_merging = [], lc_exit = None\<rparr>"

section \<open>Steps\<close>

text \<open>The core at work. The housekeeper ticks until it is stopped.\<close>

inductive work_step :: "lifecycle \<Rightarrow> lifecycle \<Rightarrow> bool" where
  receive: "name \<in> set (lc_running l) \<Longrightarrow> name \<in> dom (srv_channels (lc_server l)) \<Longrightarrow>
    work_step l (l\<lparr>lc_coreWG := lc_coreWG l + 1, lc_merging := lc_merging l @ [(name, msg)]\<rparr>)"
| merge: "lc_merging l = xs @ (name, msg) # ys \<Longrightarrow> target_orders msg order \<Longrightarrow> now > 0 \<Longrightarrow>
    extensionListener order name now msg (lc_server l) = Some s \<Longrightarrow>
    work_step l (l\<lparr>lc_server := s, lc_merging := xs @ ys, lc_coreWG := lc_coreWG l - 1\<rparr>)"
| handle: "i < length (srv_started (lc_server l)) \<Longrightarrow> now > 0 \<Longrightarrow>
    run_started i now (lc_server l) = Some (Inr s) \<Longrightarrow> work_step l (l\<lparr>lc_server := s\<rparr>)"
| forward: "work_step l (l\<lparr>lc_server := messageSender (lc_server l)\<rparr>)"
| tick: "lc_housekeeper l \<Longrightarrow> map_order order (srv_entries (lc_server l)) \<Longrightarrow>
    \<forall>k. map_order (providers k) (srv_extensions (lc_server l)) \<Longrightarrow> now > 0 \<Longrightarrow>
    work_step l (l\<lparr>lc_server := housekeeper now providers order (lc_server l)\<rparr>)"

text \<open>The way down: the signal handler, the returns of the extensions' \<open>Start\<close>, the end of \<open>run\<close>.\<close>

inductive stop_step :: "lifecycle \<Rightarrow> lifecycle \<Rightarrow> bool" where
  signal: "lc_phase l = Serving \<Longrightarrow> stop_step l (l\<lparr>lc_phase := StopHousekeeper\<rparr>)"
| stop_housekeeper: "lc_phase l = StopHousekeeper \<Longrightarrow> lc_housekeeper l \<Longrightarrow>
    map_order order (srv_extensions (lc_server l)) \<Longrightarrow>
    stop_step l (l\<lparr>lc_housekeeper := False, lc_coreWG := lc_coreWG l - 1, lc_phase := StopExtensions,
      lc_toStop := order\<rparr>)"
| stop_extension: "lc_phase l = StopExtensions \<Longrightarrow> lc_toStop l = name # names \<Longrightarrow>
    stop_step l (l\<lparr>lc_toStop := names\<rparr>)"
| all_asked: "lc_phase l = StopExtensions \<Longrightarrow> lc_toStop l = [] \<Longrightarrow> stop_step l (l\<lparr>lc_phase := WaitExtensions\<rparr>)"
| returned: "name \<in> set (lc_running l) \<Longrightarrow>
    stop_step l (l\<lparr>lc_running := remove1 name (lc_running l), lc_extensionsWG := lc_extensionsWG l - 1\<rparr>)"
| failed: "name \<in> set (lc_running l) \<Longrightarrow>
    stop_step l (l\<lparr>lc_exit := Some (Fatal (''Cannot run extension '' @ name @ '': '' @ err))\<rparr>)"
| all_returned: "lc_phase l = WaitExtensions \<Longrightarrow> lc_extensionsWG l = 0 \<Longrightarrow> stop_step l (l\<lparr>lc_phase := StopAPI\<rparr>)"
| stop_api: "lc_phase l = StopAPI \<Longrightarrow> stop_step l (l\<lparr>lc_coreWG := lc_coreWG l - 1, lc_phase := Down\<rparr>)"
| save: "lc_coreWG l = 0 \<Longrightarrow> map_order order (srv_entries (lc_server l)) \<Longrightarrow>
    entries_save openErr writeErr order (lc_server l) (lc_file l) = (err, file) \<Longrightarrow>
    stop_step l (l\<lparr>lc_file := file, lc_exit := Some (Saved err)\<rparr>)"

definition lc_step :: "lifecycle \<Rightarrow> lifecycle \<Rightarrow> bool" where
  "lc_step l l' \<longleftrightarrow> lc_exit l = None \<and> (work_step l l' \<or> stop_step l l')"

text \<open>Lives of the process: the first one finds no file, each further one what the last has left.\<close>

inductive lives :: "core_config \<Rightarrow> lifecycle \<Rightarrow> bool" where
  first: "map_order order (srv_extensions (startServer conf None)) \<Longrightarrow> lives conf (run_init order (startServer conf None) None)"
| live: "lives conf l \<Longrightarrow> lc_step l l' \<Longrightarrow> lives conf l'"
| again: "lives conf l \<Longrightarrow> lc_exit l \<noteq> None \<Longrightarrow> map_order order (srv_extensions (startServer conf (lc_file l))) \<Longrightarrow>
    lives conf (run_init order (startServer conf (lc_file l)) (lc_file l))"

section \<open>The counters\<close>

lemma foldl_count [simp]: "foldl (\<lambda>n x. Suc n) k xs = k + length xs"
  by (induction xs arbitrary: k) simp_all

definition counted :: "lifecycle \<Rightarrow> bool" where
  "counted l \<longleftrightarrow>
     lc_coreWG l = of_bool (lc_housekeeper l) + of_bool (lc_phase l < Down) + length (lc_merging l) \<and>
     lc_extensionsWG l = length (lc_running l) \<and>
     (lc_housekeeper l \<longleftrightarrow> lc_phase l \<le> StopHousekeeper) \<and>
     (lc_phase l > WaitExtensions \<longrightarrow> lc_running l = [])"

lemmas phase_order = less_eq_shutdown_phase_def less_shutdown_phase_def

lemma counted_init: "counted (run_init order s file)"
  by (simp add: counted_def run_init_def phase_order)

lemma counted_work: "work_step l l' \<Longrightarrow> counted l \<Longrightarrow> counted l'"
  by (induction rule: work_step.induct) (auto simp: counted_def)

lemma counted_stop: "stop_step l l' \<Longrightarrow> counted l \<Longrightarrow> counted l'"
  by (induction rule: stop_step.induct) (auto simp: counted_def phase_order length_remove1)

lemma lives_counted: "lives conf l \<Longrightarrow> counted l"
  by (induction rule: lives.induct) (auto simp: lc_step_def counted_init intro: counted_work counted_stop)

section \<open>The core inside\<close>

text \<open>
  The server of a life is a reachable state of the core, its file gives one at the next start, and
  messages are received from extensions only.
\<close>

definition sound_life :: "core_config \<Rightarrow> lifecycle \<Rightarrow> bool" where
  "sound_life conf l \<longleftrightarrow>
     reachable conf (lc_server l) \<and> reachable conf (startServer conf (lc_file l)) \<and>
     (\<forall>(n, m)\<in>set (lc_merging l). initExtensions (initWorkflow (cc_WorkflowSteps conf)) n \<noteq> None)"

lemma reachable_channels:
  assumes "wf_config (cc_WorkflowSteps conf)" and "reachable conf s"
  shows "n \<in> dom (srv_channels s) \<longleftrightarrow> initExtensions (initWorkflow (cc_WorkflowSteps conf)) n \<noteq> None"
    and "srv_extensions s = initExtensions (initWorkflow (cc_WorkflowSteps conf))"
  using reachable_inv [OF assms] by (auto simp: server_inv_def Let_def dom_def)

lemma sound_work:
  assumes "wf_config (cc_WorkflowSteps conf)" and "work_step l l'" and "sound_life conf l"
  shows "sound_life conf l'"
  using assms(2,3)
proof (induction rule: work_step.induct)
  case (receive name l msg)
  then show ?case using reachable_channels(1) [OF assms(1)] by (auto simp: sound_life_def)
next
  case (merge l xs name msg ys order now s)
  then have "reachable conf (lc_server l)" "initExtensions (initWorkflow (cc_WorkflowSteps conf)) name \<noteq> None"
    by (auto simp: sound_life_def)
  then have "name \<in> dom (srv_channels (lc_server l))" using reachable_channels(1) [OF assms(1)] by blast
  then have "sys_step (lc_server l) s" using merge.hyps by (intro sys_step.listen)
  then show ?case using merge by (auto simp: sound_life_def intro: reachable.step)
next
  case (handle i l now s)
  then have "sys_step (lc_server l) s" by (intro sys_step.handle)
  then show ?case using handle.prems by (auto simp: sound_life_def intro: reachable.step)
next
  case (forward l)
  then show ?case using sys_step.forward by (auto simp: sound_life_def intro: reachable.step)
next
  case (tick l order providers now)
  then have "sys_step (lc_server l) (housekeeper now providers order (lc_server l))" by (intro sys_step.tick)
  then show ?case using tick.prems by (auto simp: sound_life_def intro: reachable.step)
qed

lemma sound_stop: "stop_step l l' \<Longrightarrow> sound_life conf l \<Longrightarrow> sound_life conf l'"
proof (induction rule: stop_step.induct)
  case (save l order openErr writeErr err f)
  then have "openErr = None \<Longrightarrow> f = snd (entries_save None writeErr order (lc_server l) (lc_file l))"
    and "openErr \<noteq> None \<Longrightarrow> f = lc_file l"
    by (auto simp: entries_save_def)
  then show ?case using save.prems save.hyps(2) reachable.restart [of conf "lc_server l" order]
    by (cases openErr) (auto simp: sound_life_def)
qed (auto simp: sound_life_def)

lemma lives_sound:
  assumes "wf_config (cc_WorkflowSteps conf)" and "lives conf l"
  shows "sound_life conf l"
  using assms(2,1)
proof (induction rule: lives.induct)
  case (first order conf)
  then show ?case by (simp add: sound_life_def run_init_def reachable.start)
next
  case (live conf l l')
  then show ?case by (auto simp: lc_step_def intro: sound_stop sound_work)
next
  case (again conf l order)
  then show ?case by (simp add: sound_life_def run_init_def)
qed

section \<open>The end of a life\<close>

definition saved_well :: "lifecycle \<Rightarrow> bool" where
  "saved_well l \<longleftrightarrow>
     (\<forall>err. lc_exit l = Some (Saved err) \<longrightarrow> lc_coreWG l = 0 \<and>
        (err = None \<longrightarrow> (\<forall>conf k. entry_of (startServer conf (lc_file l)) k = map_option persisted (entry_of (lc_server l) k))))"

lemma entries_save_succeeds:
  "entries_save openErr writeErr order s f = (None, g) \<Longrightarrow> g = snd (entries_save None None order s f)"
  by (auto simp: entries_save_def split: option.splits)

lemma saved_step:
  assumes "lc_step l l'"
  shows "saved_well l'"
proof -
  have none: "lc_exit l = None" using assms by (simp add: lc_step_def)
  have "work_step l l' \<or> stop_step l l'" using assms by (simp add: lc_step_def)
  then show ?thesis
  proof
    assume "work_step l l'"
    then show ?thesis using none by cases (simp_all add: saved_well_def)
  next
    assume "stop_step l l'"
    then show ?thesis
    proof cases
      case (save order openErr writeErr err f)
      have "f = snd (entries_save None None order (lc_server l) (lc_file l))" if "err = None"
        using save(4) that by (intro entries_save_succeeds) simp
      then show ?thesis using save(1,2) entry_of_restart [OF save(3)] by (auto simp: saved_well_def)
    qed (use none in \<open>simp_all add: saved_well_def\<close>)
  qed
qed

lemma lives_saved: "lives conf l \<Longrightarrow> saved_well l"
  by (induction rule: lives.induct) (simp_all add: saved_step, simp_all add: saved_well_def run_init_def)

text \<open>What is left to do until the table is saved.\<close>

definition to_do :: "(lifecycle \<times> lifecycle) set" where
  "to_do = measures [\<lambda>l. length (lc_merging l), \<lambda>l. 5 - phase_rank (lc_phase l), \<lambda>l. length (lc_toStop l),
     \<lambda>l. length (lc_running l)]"

lemma wf_to_do: "wf to_do"
  by (simp add: to_do_def)

lemma down_progress:
  assumes "counted l" and "lc_exit l = None" and "lc_merging l = []" and "\<exists>xs. map_order xs (srv_extensions (lc_server l))"
    and "\<exists>xs. map_order xs (srv_entries (lc_server l))"
  shows "\<exists>l'. stop_step l l' \<and> (lc_exit l' = Some (Saved None) \<or> lc_exit l' = None \<and> (l', l) \<in> to_do)"
proof (cases "lc_phase l")
  case Serving
  then show ?thesis using assms(2) stop_step.signal [of l] by (force simp: to_do_def)
next
  case StopHousekeeper
  moreover from this have "lc_housekeeper l" using assms(1) by (simp add: counted_def phase_order)
  moreover obtain xs where "map_order xs (srv_extensions (lc_server l))" using assms(4) by blast
  ultimately show ?thesis using assms(2) stop_step.stop_housekeeper [of l xs] by (force simp: to_do_def)
next
  case StopExtensions
  then show ?thesis
    using assms(2) stop_step.stop_extension [of l] stop_step.all_asked [of l]
    by (cases "lc_toStop l") (force simp: to_do_def)+
next
  case WaitExtensions
  then show ?thesis
  proof (cases "lc_running l")
    case Nil
    then have "lc_extensionsWG l = 0" using assms(1) by (simp add: counted_def)
    then show ?thesis using WaitExtensions assms(2) stop_step.all_returned [of l] by (force simp: to_do_def)
  next
    case (Cons name names)
    then show ?thesis using WaitExtensions assms(2) stop_step.returned [of name l] by (force simp: to_do_def)
  qed
next
  case StopAPI
  then show ?thesis using assms(2) stop_step.stop_api [of l] by (force simp: to_do_def)
next
  case Down
  then have "lc_coreWG l = 0" using assms(1,3) by (simp add: counted_def phase_order)
  moreover obtain xs where "map_order xs (srv_entries (lc_server l))" using assms(5) by blast
  moreover obtain f where "entries_save None None xs (lc_server l) (lc_file l) = (None, f)" by (simp add: entries_save_def)
  ultimately show ?thesis using stop_step.save [of l xs None None None] by force
qed

lemma finite_entries_merge: "finite (dom (srv_entries s)) \<Longrightarrow> mergeMessage now m s = Some s' \<Longrightarrow> finite (dom (srv_entries s'))"
  by (auto simp: mergeMessage_def find_or_create_def bind_eq_Some_conv Let_def split: if_splits option.splits)

lemma housekeep_entry_dom: "dom (srv_entries (housekeep_entry now providers k s)) \<subseteq> dom (srv_entries s)"
proof (cases "srv_entries s k")
  case (Some a)
  then show ?thesis by (auto simp: housekeep_entry_eq Let_def refreshService_frame split: if_splits)
qed (simp add: housekeep_entry_def)

lemma housekeeper_dom: "dom (srv_entries (housekeeper now providers order s)) \<subseteq> dom (srv_entries s)"
proof (induction order arbitrary: s)
  case (Cons k order)
  have "dom (srv_entries (housekeeper now providers order (housekeep_entry now providers k s))) \<subseteq>
      dom (srv_entries (housekeep_entry now providers k s))" by (rule Cons.IH)
  also have "\<dots> \<subseteq> dom (srv_entries s)" by (rule housekeep_entry_dom)
  finally show ?case by (simp add: housekeeper_def)
qed (simp add: housekeeper_def)

lemma finite_entries_load: "finite (dom (srv_entries s)) \<Longrightarrow> finite (dom (srv_entries (load_entries f s)))"
  by (induction f s rule: load_entries.induct) simp_all

lemma reachable_finite: "reachable conf s \<Longrightarrow> finite (dom (srv_entries s))"
proof (induction rule: reachable.induct)
  case (start conf)
  then show ?case by (simp add: initServer_def Let_def)
next
  case (step conf s s')
  from step.hyps(2) step.IH show ?case
  proof (induction rule: sys_step.induct)
    case (listen name s msg order now s')
    then show ?case by (auto simp: extensionListener_def Let_def intro: finite_entries_merge)
  next
    case (handle i s now s')
    then show ?case by (simp add: run_started_frame)
  next
    case (forward s)
    then show ?case by (auto simp: messageSender_def sendMessageToExtension_def split: list.splits option.splits)
  next
    case (tick order s providers now)
    then show ?case using finite_subset [OF housekeeper_dom] by blast
  qed
next
  case (restart conf s order writeErr f)
  then show ?case
    by (simp add: startServer_saved entries_save_def finite_entries_load initServer_def Let_def
        split: option.split)
qed

text \<open>A message that a listener has received can always be merged.\<close>

lemma merge_enabled:
  assumes "wf_config (cc_WorkflowSteps conf)" and "sound_life conf l" and "lc_merging l = (name, msg) # ys"
  shows "\<exists>l'. work_step l l' \<and> lc_exit l' = lc_exit l \<and> (l', l) \<in> to_do"
proof -
  have r: "reachable conf (lc_server l)" and "initExtensions (initWorkflow (cc_WorkflowSteps conf)) name \<noteq> None"
    using assms(2,3) by (auto simp: sound_life_def)
  then have d: "name \<in> dom (srv_extensions (lc_server l))" using reachable_channels(2) [OF assms(1) r] by auto
  obtain order where order: "target_orders msg order" using target_orders_exist by blast
  let ?m = "SetTargetWeight order (msg\<lparr>msg_Sender := name\<rparr>)"
  have "msg_Sender ?m \<in> dom (srv_extensions (lc_server l))" using d by simp
  then obtain s where s: "mergeMessage 1 ?m (lc_server l) = Some s"
    using server_inv_merge [OF assms(1) reachable_inv [OF assms(1) r]] by blast
  have listen: "extensionListener order name 1 msg (lc_server l) = Some s"
    unfolding extensionListener_def Let_def by (rule s)
  let ?l = "l\<lparr>lc_server := s, lc_merging := ys, lc_coreWG := lc_coreWG l - 1\<rparr>"
  have "work_step l ?l"
    using work_step.merge [OF _ order _ listen, of "[]" ys] assms(3) by simp
  moreover have "(?l, l) \<in> to_do" using assms(3) by (simp add: to_do_def)
  moreover have "lc_exit ?l = lc_exit l" by simp
  ultimately show ?thesis by blast
qed

lemma life_progress:
  assumes "wf_config (cc_WorkflowSteps conf)" and "lives conf l" and "lc_exit l = None"
  shows "\<exists>l'. lc_step l l' \<and> (lc_exit l' = Some (Saved None) \<or> lc_exit l' = None \<and> (l', l) \<in> to_do)"
proof (cases "lc_merging l")
  case Nil
  have r: "reachable conf (lc_server l)" using lives_sound [OF assms(1,2)] by (simp add: sound_life_def)
  have "\<exists>xs. map_order xs (srv_entries (lc_server l))"
    using finite_order [OF reachable_finite [OF r]] .
  moreover have "\<exists>xs. map_order xs (srv_extensions (lc_server l))"
    using reachable_channels(2) [OF assms(1) r] extensions_order by simp
  ultimately show ?thesis
    using down_progress [OF lives_counted [OF assms(2)] assms(3) Nil] assms(3) by (auto simp: lc_step_def)
next
  case (Cons m ys)
  then show ?thesis
    using merge_enabled [OF assms(1) lives_sound [OF assms(1,2)], of "fst m" "snd m" ys] assms(3)
    by (auto simp: lc_step_def)
qed

lemma life_ends:
  assumes "wf_config (cc_WorkflowSteps conf)" and "lives conf l" and "lc_exit l = None"
  shows "\<exists>l'. lc_step\<^sup>*\<^sup>* l l' \<and> lives conf l' \<and> lc_exit l' = Some (Saved None)"
  using assms(2,3)
proof (induction l rule: wf_induct_rule [OF wf_to_do])
  case (1 l)
  obtain l' where l': "lc_step l l'" "lc_exit l' = Some (Saved None) \<or> lc_exit l' = None \<and> (l', l) \<in> to_do"
    using life_progress [OF assms(1) 1(2,3)] by blast
  have lv: "lives conf l'" using 1(2) l'(1) by (rule lives.live)
  from l'(2) show ?case
  proof
    assume "lc_exit l' = Some (Saved None)"
    then show ?thesis using l'(1) lv by blast
  next
    assume "lc_exit l' = None \<and> (l', l) \<in> to_do"
    then obtain l'' where "lc_step\<^sup>*\<^sup>* l' l''" "lives conf l''" "lc_exit l'' = Some (Saved None)"
      using 1(1) lv by blast
    then show ?thesis using l'(1) by (meson converse_rtranclp_into_rtranclp)
  qed
qed

end
