(* ===== verification/Restart.thy ===== *)
theory Restart
  imports System_Runs Lifecycle
begin

text \<open>
  What a restart of the core (\<open>save\<close> when it stops, \<open>load\<close> when it starts again) keeps of its state
  and what it loses, and what holds over the lives of the process.
\<close>

text \<open>
  C34. A restart finds the table again: after a save that succeeds, a server that starts with the file
  has an entry for exactly the same services, each as it was in every field but its transition,
  which the next message sets anyway (an empty list of targets or host names comes back as nil).
\<close>

theorem restart_restores:
  assumes "map_order order (srv_entries s)"
  shows "entry_of (startServer conf (snd (entries_save None None order s file))) k = map_option persisted (entry_of s k)"
  by (rule entry_of_restart [OF assms])

lemma deployed_web_order: "map_order [''web''] (srv_entries deployed_web)"
  by (simp add: map_order_def deployed_web_def)

theorem restart_restores_witness:
  "entry_of (startServer demo_conf (snd (entries_save None None [''web''] deployed_web None))) ''web'' =
     Some (zero_entry\<lparr>we_State := deployedState, we_ExpectedState := deployedState,
       we_Service := msg_Service (announce AddAction)\<rparr>)"
  using restart_restores [OF deployed_web_order, of demo_conf None "''web''"]
  by (simp add: deployed_web_def entry_of_def persisted_def written_Service_def written_slice_def announce_def zero_entry_def
      zero_Message_def zero_Service_def)

text \<open>
  C35. A restart is invisible to the recognition of messages that bring nothing new: the restarted
  server handles a message exactly if the old one would have, for every service whose lists of
  targets and host names are not empty slices (nil is allowed). So the providers' first round of
  announcements after a restart does not deploy anything again.
\<close>

theorem restart_same_recognition:
  assumes "map_order order (srv_entries s)"
    and "\<forall>e. entry_of s (svc_Name (msg_Service m)) = Some e \<longrightarrow>
      svc_Targets (we_Service e) \<noteq> Some [] \<and> svc_DNSAliases (we_Service e) \<noteq> Some []"
  shows "serviceNeedUpdate (startServer conf (snd (entries_save None None order s file))) m = serviceNeedUpdate s m"
proof (cases "entry_of s (svc_Name (msg_Service m))")
  case (Some e)
  then have "we_Service (persisted e) = we_Service e" using assms(2) by (simp add: persisted_service)
  then show ?thesis
    using Some by (simp add: serviceNeedUpdate_def entry_of_restart [OF assms(1)] isStateAsWanted_def)
qed (simp add: serviceNeedUpdate_def entry_of_restart [OF assms(1)])

theorem restart_same_recognition_witness:
  "\<not> serviceNeedUpdate (startServer demo_conf (snd (entries_save None None [''web''] deployed_web None)))
     (announce AddAction)"
proof -
  have e: "entry_of deployed_web ''web'' = Some (srv_heap deployed_web 0)"
    by (simp add: deployed_web_def entry_of_def)
  have "\<not> serviceNeedUpdate deployed_web (announce AddAction)"
    by (simp add: serviceNeedUpdate_def e Let_def) (simp add: deployed_web_def isStateAsWanted_def)
  then show ?thesis
    using restart_same_recognition [OF deployed_web_order, of "announce AddAction" demo_conf None] e
    by (simp add: deployed_web_def announce_def zero_Message_def zero_Service_def)
qed

text \<open>
  A deployment that a restart interrupts is not resumed: its entry stays in progress with the
  time it had, but the request it waits for is lost (nothing is started, queued or in a channel),
  and when its timeout has passed the next housekeeper round closes it as deployed with an error,
  after which the same announcement starts nothing.
\<close>

theorem restart_loses_request:
  assumes "wf_config (cc_WorkflowSteps conf)" and "reachable conf s" and "map_order order (srv_entries s)"
    and "srv_entries s n = Some a" and "timed_out conf now (srv_heap s a)"
    and "we_ExpectedState (srv_heap s a) = deployedState"
    and "svc_Name (msg_Service m) = n" and "msg_Action m = AddAction"
    and "same_definition (we_Service (persisted (srv_heap s a))) (msg_Service m)"
  shows "let r = startServer conf (snd (entries_save None None order s file)); t = housekeeper now providers order r in
    srv_started r = [] \<and> srv_msgToExtension r = [] \<and> (\<forall>c q. srv_channels r c = Some q \<longrightarrow> q = []) \<and>
    (\<exists>b. srv_entries t n = Some b \<and> we_State (srv_heap t b) = deployedState \<and> we_Error (srv_heap t b) \<noteq> '''') \<and>
    (\<exists>t'. mergeMessage later m t = Some t' \<and> srv_started t' = srv_started t)"
proof -
  let ?r = "startServer conf (snd (entries_save None None order s file))"
  have same: "entry_of ?r k = map_option persisted (entry_of s k)" for k by (rule entry_of_restart [OF assms(3)])
  have "srv_entries ?r k = None \<longleftrightarrow> srv_entries s k = None" for k
    using same [of k] by (auto simp: entry_of_def)
  then have o': "map_order order (srv_entries ?r)" using assms(3) by (auto simp: map_order_def dom_def)
  obtain b where b: "srv_entries ?r n = Some b" "srv_heap ?r b = persisted (srv_heap s a)"
    using same [of n] assms(4) by (auto simp: entry_of_def)
  have "reachable conf ?r" by (rule reachable.restart [OF assms(2,3)])
  moreover have "timed_out conf now (srv_heap ?r b)" using assms(5) b(2) by (simp add: timed_out_def)
  ultimately show ?thesis
    using timed_out_closed [OF assms(1) _ o' b(1) _ _ assms(7,8)] assms(6,9) b(2)
    by (fastforce simp: Let_def split: if_splits)
qed

theorem restart_loses_request_witness:
  "\<exists>s m t'. reachable demo_conf s \<and> msg_Action m = AddAction \<and>
     (let t = housekeeper 200 (\<lambda>k. []) [''web''] (startServer demo_conf (snd (entries_save None None [''web''] s None)))
      in mergeMessage 300 m t = Some t' \<and> srv_started t' = srv_started t)"
proof (rule demo_announced)
  fix s assume s: "reachable demo_conf s" "srv_entries s = [''web'' \<mapsto> 0]"
    "we_State (srv_heap s 0) = ''ipam.ipalloc''" "we_ExpectedState (srv_heap s 0) = deployedState"
    "we_WorkInProgress (srv_heap s 0)" "we_WIPTime (srv_heap s 0) = 9"
  let ?m = "zero_Message\<lparr>msg_Action := AddAction, msg_Service := we_Service (persisted (srv_heap s 0))\<rparr>"
  have inv: "server_inv demo_conf s" by (rule reachable_inv [OF _ s(1)]) (simp add: doc_config_wf)
  have o': "map_order [''web''] (srv_entries s)" and k: "srv_entries s ''web'' = Some 0"
    using s(2) by (simp_all add: map_order_def)
  have n: "svc_Name (msg_Service ?m) = ''web''"
    using sound_entry_name [OF server_inv_entry [OF inv k]] by (simp add: persisted_def written_Service_def)
  have to: "timed_out demo_conf 200 (srv_heap s 0)"
    using s(5,6) by (simp add: timed_out_def demo_conf_def time_Sub_exact int_min_def int_max_def)
  let ?t = "housekeeper 200 (\<lambda>k. []) [''web''] (startServer demo_conf (snd (entries_save None None [''web''] s None)))"
  from restart_loses_request [of demo_conf s, OF _ s(1) o' k to s(4) n, of None "\<lambda>k. []" 300]
  have "\<exists>t'. mergeMessage 300 ?m ?t = Some t' \<and> srv_started t' = srv_started ?t"
    by (simp add: doc_config_wf Let_def)
  moreover have "msg_Action ?m = AddAction" by simp
  ultimately show ?thesis using s(1) unfolding Let_def by blast
qed

section \<open>Lives of the process\<close>


lemma demo_life: "\<exists>xs. lives demo_conf (run_init xs (startServer demo_conf None) None)"
proof -
  have x: "srv_extensions (startServer demo_conf None) = initExtensions (initWorkflow doc_config)"
    by (simp add: initServer_def Let_def)
  from extensions_order obtain xs where "map_order xs (srv_extensions (startServer demo_conf None))"
    unfolding x by blast
  then show ?thesis by (blast intro: lives.first)
qed


text \<open>
  The table is written last. When a life has ended by \<open>save\<close>, the signal handler is through, the
  housekeeper has stopped, every extension's \<open>Start\<close> has returned, the API is down and no received
  message is left to be merged; and if the save succeeded, the next start finds exactly the final
  table. The counters of the two wait groups are never one off, whatever the order of the goroutines.
\<close>

theorem save_comes_last:
  assumes "lives conf l" and "lc_exit l = Some (Saved err)"
  shows "lc_phase l = Down \<and> \<not> lc_housekeeper l \<and> lc_running l = [] \<and> lc_merging l = [] \<and>
    lc_coreWG l = 0 \<and> lc_extensionsWG l = 0 \<and>
    (err = None \<longrightarrow> (\<forall>k. entry_of (startServer conf (lc_file l)) k = map_option persisted (entry_of (lc_server l) k)))"
proof -
  have c: "counted l" and w: "lc_coreWG l = 0" and t: "err = None \<longrightarrow>
      (\<forall>conf k. entry_of (startServer conf (lc_file l)) k = map_option persisted (entry_of (lc_server l) k))"
    using lives_counted [OF assms(1)] lives_saved [OF assms(1)] assms(2) by (auto simp: saved_well_def)
  then have "\<not> lc_phase l < Down" "\<not> lc_housekeeper l" "lc_merging l = []" by (auto simp: counted_def)
  moreover from this(1) have "lc_phase l = Down" by (cases "lc_phase l") (simp_all add: phase_order)
  moreover from this have "lc_running l = []" using c by (simp add: counted_def phase_order)
  ultimately show ?thesis using c w t by (simp add: counted_def)
qed

theorem save_comes_last_witness:
  "\<exists>l. lives demo_conf l \<and> lc_exit l = Some (Saved None) \<and> lc_phase l = Down \<and> lc_running l = []"
proof -
  obtain xs where "lives demo_conf (run_init xs (startServer demo_conf None) None)" using demo_life by blast
  from life_ends [OF _ this] obtain l where l: "lives demo_conf l" "lc_exit l = Some (Saved None)"
    by (auto simp: doc_config_wf run_init_def)
  from save_comes_last [OF this] l show ?thesis by blast
qed



end
