(* ===== verification/API.thy ===== *)
theory API
  imports Restart
begin

text \<open>
  \<open>src/core/api.go\<close>: the HTTP interface, which shows the state of the core and changes nothing. A
  response has a status, a content type and a JSON body (none for \<open>/health\<close>). The listener itself,
  \<open>http.Server\<close>, is the library's.
\<close>

section \<open>Handlers\<close>










section \<open>Properties\<close>




end
