(* ===== verification/Blocking.thy ===== *)
theory Blocking
  imports System_Props
begin

text \<open>
  The goroutines of \<open>src/core/server.go\<close> with the points at which they block: the unbuffered channels,
  where a sender and a receiver must meet, and the lock of the table, which the housekeeper holds for
  its whole round and \<open>mergeMessage\<close> for a change of the table. Each goroutine is at one of a few
  places, and a step moves one of them, or two that meet at a channel.
\<close>

section \<open>Places\<close>

text \<open>
  The housekeeper rests (at its \<open>select\<close>), visits the keys still to come, or is at the write of a refresh
  request to an extension's channel, for an entry at a key, with the keys to come. It holds the lock
  unless it rests.
\<close>

datatype housekeeper_place = Resting | Visiting "string list" | Asking string Message string "string list"

text \<open>
  A listener waits for a message, has one that it is about to merge, or is in \<open>mergeMessage\<close> before the
  lock, with the message as it will be merged.
\<close>

datatype listener_place = Receiving | Merging Message | Locking Message

text \<open>
  An extension is at its \<open>select\<close> when it has nothing left to write to its listener. The message sender
  has a message to forward or none. A handler that writes to \<open>msgToExtension\<close> has its message in
  \<open>srv_msgToExtension\<close> until the message sender takes it.
\<close>

record blocking =
  bl_server :: server
  bl_housekeeper :: housekeeper_place
  bl_sender :: "Message option"
  bl_writes :: "string \<Rightarrow> Message list"
  bl_listener :: "string \<Rightarrow> listener_place"

section \<open>Steps\<close>

text \<open>The message that a listener merges.\<close>

definition received :: "string list \<Rightarrow> string \<Rightarrow> Message \<Rightarrow> Message" where
  "received order name msg = SetTargetWeight order (msg\<lparr>msg_Sender := name\<rparr>)"

text \<open>The close of an entry in progress for too long, which follows the refresh request of the same key.\<close>

definition close_overdue :: "gotime \<Rightarrow> string \<Rightarrow> server \<Rightarrow> server" where
  "close_overdue now k s =
     (case srv_entries s k of
        None \<Rightarrow> s
      | Some a \<Rightarrow> (let e = srv_heap s a in
          if timed_out (srv_config s) now e then store_entry a (close_entry now (timeout_msg e) e) s else s))"

definition asked_provider :: "string list \<Rightarrow> server \<Rightarrow> string option" where
  "asked_provider order s = find (\<lambda>n. srv_extensions s n = Some ProviderExtension) order"

text \<open>
  What an extension writes to its listener when it has received a message (or, for \<^term>\<open>None\<close>, when its
  poll timer ticks) is the parameter \<open>reacts\<close>. The clock shows any instant after the zero time.
\<close>

inductive bl_step :: "(string \<Rightarrow> Message option \<Rightarrow> Message list \<Rightarrow> bool) \<Rightarrow> blocking \<Rightarrow> blocking \<Rightarrow> bool"
  for reacts :: "string \<Rightarrow> Message option \<Rightarrow> Message list \<Rightarrow> bool" where
  tick: "bl_housekeeper b = Resting \<Longrightarrow> map_order keys (srv_entries (bl_server b)) \<Longrightarrow>
    bl_step reacts b (b\<lparr>bl_housekeeper := Visiting keys\<rparr>)"
| visit: "bl_housekeeper b = Visiting (k # ks) \<Longrightarrow> now > 0 \<Longrightarrow>
    \<not> (\<exists>a. srv_entries (bl_server b) k = Some a \<and> stale (srv_config (bl_server b)) now (srv_heap (bl_server b) a) \<and>
        asked_provider order (bl_server b) \<noteq> None) \<Longrightarrow> map_order order (srv_extensions (bl_server b)) \<Longrightarrow>
    bl_step reacts b (b\<lparr>bl_server := housekeep_entry now (\<lambda>k. order) k (bl_server b), bl_housekeeper := Visiting ks\<rparr>)"
| visit_stale: "bl_housekeeper b = Visiting (k # ks) \<Longrightarrow> now > 0 \<Longrightarrow> srv_entries (bl_server b) k = Some a \<Longrightarrow>
    stale (srv_config (bl_server b)) now (srv_heap (bl_server b) a) \<Longrightarrow> map_order order (srv_extensions (bl_server b)) \<Longrightarrow>
    asked_provider order (bl_server b) = Some name \<Longrightarrow>
    bl_step reacts b (b\<lparr>bl_housekeeper := Asking name (refresh_msg (svc_Name (we_Service (srv_heap (bl_server b) a)))) k ks\<rparr>)"
| asked: "bl_housekeeper b = Asking name m k ks \<Longrightarrow> bl_writes b name = [] \<Longrightarrow> reacts name (Some m) out \<Longrightarrow> now > 0 \<Longrightarrow>
    bl_step reacts b (b\<lparr>bl_writes := (bl_writes b)(name := out), bl_server := close_overdue now k (bl_server b),
      bl_housekeeper := Visiting ks\<rparr>)"
| rest: "bl_housekeeper b = Visiting [] \<Longrightarrow> bl_step reacts b (b\<lparr>bl_housekeeper := Resting\<rparr>)"
| poll: "srv_extensions (bl_server b) name \<noteq> None \<Longrightarrow> bl_writes b name = [] \<Longrightarrow> reacts name None out \<Longrightarrow>
    bl_step reacts b (b\<lparr>bl_writes := (bl_writes b)(name := out)\<rparr>)"
| hand_over: "bl_writes b name = m # ms \<Longrightarrow> bl_listener b name = Receiving \<Longrightarrow>
    bl_step reacts b (b\<lparr>bl_writes := (bl_writes b)(name := ms), bl_listener := (bl_listener b)(name := Merging m)\<rparr>)"
| nothing_new: "bl_listener b name = Merging m \<Longrightarrow> now > 0 \<Longrightarrow> target_orders m order \<Longrightarrow>
    \<not> serviceNeedUpdate (bl_server b) (received order name m) \<Longrightarrow>
    mergeMessage now (received order name m) (bl_server b) = Some s \<Longrightarrow>
    bl_step reacts b (b\<lparr>bl_server := s, bl_listener := (bl_listener b)(name := Receiving)\<rparr>)"
| to_lock: "bl_listener b name = Merging m \<Longrightarrow> target_orders m order \<Longrightarrow>
    serviceNeedUpdate (bl_server b) (received order name m) \<Longrightarrow>
    bl_step reacts b (b\<lparr>bl_listener := (bl_listener b)(name := Locking (received order name m))\<rparr>)"
| locked: "bl_listener b name = Locking m \<Longrightarrow> bl_housekeeper b = Resting \<Longrightarrow> now > 0 \<Longrightarrow> merge_locked now m (bl_server b) = Some s \<Longrightarrow>
    bl_step reacts b (b\<lparr>bl_server := s, bl_listener := (bl_listener b)(name := Receiving)\<rparr>)"
| handler: "i < length (srv_started (bl_server b)) \<Longrightarrow> now > 0 \<Longrightarrow> run_started i now (bl_server b) = Some (Inr s) \<Longrightarrow>
    bl_step reacts b (b\<lparr>bl_server := s\<rparr>)"
| take: "bl_sender b = None \<Longrightarrow> srv_msgToExtension (bl_server b) = xs @ m # ys \<Longrightarrow>
    bl_step reacts b (b\<lparr>bl_sender := Some m, bl_server := (bl_server b)\<lparr>srv_msgToExtension := xs @ ys\<rparr>\<rparr>)"
| unknown: "bl_sender b = Some m \<Longrightarrow> srv_channels (bl_server b) (msg_Destination m) = None \<Longrightarrow>
    bl_step reacts b (b\<lparr>bl_sender := None\<rparr>)"
| forwarded: "bl_sender b = Some m \<Longrightarrow> srv_channels (bl_server b) (msg_Destination m) \<noteq> None \<Longrightarrow>
    bl_writes b (msg_Destination m) = [] \<Longrightarrow> reacts (msg_Destination m) (Some m) out \<Longrightarrow>
    bl_step reacts b (b\<lparr>bl_sender := None, bl_writes := (bl_writes b)(msg_Destination m := out)\<rparr>)"

text \<open>The goroutines as \<open>run\<close> starts them.\<close>

definition bl_start :: "server \<Rightarrow> blocking" where
  "bl_start s = \<lparr>bl_server = s, bl_housekeeper = Resting, bl_sender = None, bl_writes = (\<lambda>n. []),
     bl_listener = (\<lambda>n. Receiving)\<rparr>"

section \<open>The deadlock\<close>

text \<open>
  The housekeeper has the lock and waits for a provider, the provider waits for its listener, the
  listener waits for the lock.
\<close>

definition stuck :: "string \<Rightarrow> blocking \<Rightarrow> bool" where
  "stuck name b \<longleftrightarrow>
     (\<exists>m k ks. bl_housekeeper b = Asking name m k ks) \<and> bl_writes b name \<noteq> [] \<and> (\<exists>m. bl_listener b name = Locking m)"

lemma nothing_new_frame:
  "\<not> serviceNeedUpdate s m \<Longrightarrow> mergeMessage now m s = Some s' \<Longrightarrow> srv_entries s' = srv_entries s \<and> srv_started s' = srv_started s \<and> srv_extensions s' = srv_extensions s"
  by (auto simp: mergeMessage_def Let_def split: option.splits)

definition frozen :: "string \<Rightarrow> blocking \<Rightarrow> blocking \<Rightarrow> bool" where
  "frozen name b c \<longleftrightarrow>
     bl_housekeeper c = bl_housekeeper b \<and> bl_writes c name = bl_writes b name \<and> bl_listener c name = bl_listener b name \<and>
     srv_entries (bl_server c) = srv_entries (bl_server b) \<and>
     set (srv_started (bl_server c)) \<subseteq> set (srv_started (bl_server b))"

lemma stuck_step:
  assumes "bl_step reacts b c" and "stuck name b"
  shows "frozen name b c"
  using assms
proof (induction rule: bl_step.induct)
  case (handler i b now s)
  then show ?case using run_started_frame [OF handler(3)] by (auto simp: frozen_def)
next
  case (nothing_new b n m now order s)
  then show ?case using nothing_new_frame by (auto simp: frozen_def stuck_def)
qed (auto simp: frozen_def stuck_def)

lemma frozen_stuck: "frozen name b c \<Longrightarrow> stuck name b \<Longrightarrow> stuck name c"
  by (auto simp: frozen_def stuck_def)

lemma stuck_run:
  assumes "(bl_step reacts)\<^sup>*\<^sup>* b c" and "stuck name b"
  shows "frozen name b c"
  using assms
proof (induction rule: rtranclp_induct)
  case base
  show ?case by (simp add: frozen_def)
next
  case (step c d)
  then have "frozen name b c" by blast
  moreover have "frozen name c d" using stuck_step [OF step.hyps(2)] frozen_stuck calculation step.prems by blast
  ultimately show ?case by (auto simp: frozen_def)
qed

section \<open>A round of the housekeeper\<close>

lemma housekeep_entry_extensions: "srv_extensions (housekeep_entry now providers k s) = srv_extensions s"
  by (cases "srv_entries s k") (auto simp: housekeep_entry_def housekeep_entry_eq Let_def refreshService_frame)

lemma close_overdue_extensions: "srv_extensions (close_overdue now k s) = srv_extensions s"
  by (auto simp: close_overdue_def Let_def split: option.split)

text \<open>What is left of a round: the keys to come, and before a request what the provider still writes.\<close>

fun round_left :: "housekeeper_place \<Rightarrow> nat" where
  "round_left Resting = 0"
| "round_left (Visiting ks) = 2 * length ks + 1"
| "round_left (Asking name m k ks) = 2 * length ks + 2"

fun listener_left :: "listener_place \<Rightarrow> nat" where
  "listener_left Receiving = 0"
| "listener_left (Merging m) = 1"
| "listener_left (Locking m) = 0"

definition asked_left :: "blocking \<Rightarrow> nat" where
  "asked_left b =
     (case bl_housekeeper b of
        Asking name m k ks \<Rightarrow> 2 * length (bl_writes b name) + listener_left (bl_listener b name)
      | _ \<Rightarrow> 0)"

definition nearer :: "(blocking \<times> blocking) set" where
  "nearer = measures [\<lambda>b. round_left (bl_housekeeper b), asked_left]"

lemma round_step:
  assumes "\<forall>name m. \<exists>out. reacts name (Some m) out" and "map_order order (srv_extensions (bl_server b))"
    and "bl_housekeeper b \<noteq> Resting" and "\<forall>p. \<not> stuck p b"
  shows "\<exists>c. bl_step reacts b c \<and> ((\<exists>p. stuck p c) \<or>
    (c, b) \<in> nearer \<and> srv_extensions (bl_server c) = srv_extensions (bl_server b))"
proof (cases "bl_housekeeper b")
  case Resting
  then show ?thesis using assms(3) by simp
next
  case (Visiting keys)
  show ?thesis
  proof (cases keys)
    case Nil
    then show ?thesis using bl_step.rest [of b reacts] Visiting by (force simp: nearer_def)
  next
    case (Cons k ks)
    let ?quiet = "\<not> (\<exists>a. srv_entries (bl_server b) k = Some a \<and> stale (srv_config (bl_server b)) 1 (srv_heap (bl_server b) a) \<and>
        asked_provider order (bl_server b) \<noteq> None)"
    show ?thesis
    proof (cases ?quiet)
      case True
      from bl_step.visit [OF _ _ this assms(2), of ks reacts] show ?thesis
        using Visiting Cons by (force simp: nearer_def housekeep_entry_extensions)
    next
      case False
      then obtain a name where "srv_entries (bl_server b) k = Some a" "stale (srv_config (bl_server b)) 1 (srv_heap (bl_server b) a)"
        "asked_provider order (bl_server b) = Some name" by auto
      from bl_step.visit_stale [OF _ _ this(1,2) assms(2) this(3), of ks reacts] show ?thesis
        using Visiting Cons by (force simp: nearer_def)
    qed
  qed
next
  case (Asking name m k ks)
  show ?thesis
  proof (cases "bl_writes b name")
    case Nil
    obtain out where "reacts name (Some m) out" using assms(1) by blast
    from bl_step.asked [where reacts = reacts, OF Asking Nil this, of 1] show ?thesis
      using Asking by (force simp: nearer_def close_overdue_extensions)
  next
    case (Cons m1 ms)
    show ?thesis
    proof (cases "bl_listener b name")
      case Receiving
      from bl_step.hand_over [where reacts = reacts, OF Cons this] show ?thesis
        using Asking Cons Receiving by (force simp: nearer_def asked_left_def)
    next
      case (Locking m2)
      then show ?thesis using assms(4) Asking Cons by (simp add: stuck_def)
    next
      case (Merging m2)
      obtain worder where o': "target_orders m2 worder" using target_orders_exist by blast
      show ?thesis
      proof (cases "serviceNeedUpdate (bl_server b) (received worder name m2)")
        case True
        from bl_step.to_lock [where reacts = reacts, OF Merging o' this] show ?thesis
          using Asking Cons by (force simp: stuck_def)
      next
        case False
        then obtain s where s: "mergeMessage 1 (received worder name m2) (bl_server b) = Some s"
          by (cases "srv_entries (bl_server b) (svc_Name (msg_Service (received worder name m2)))")
            (auto simp: mergeMessage_def Let_def)
        from bl_step.nothing_new [where reacts = reacts, OF Merging _ o' False s] show ?thesis
          using Asking Cons Merging nothing_new_frame [OF False s] by (force simp: nearer_def asked_left_def)
      qed
    qed
  qed
qed

lemma round_ends:
  assumes "\<forall>name m. \<exists>out. reacts name (Some m) out" and "map_order order (srv_extensions (bl_server b))"
  shows "\<exists>c. (bl_step reacts)\<^sup>*\<^sup>* b c \<and> (bl_housekeeper c = Resting \<or> (\<exists>p. stuck p c))"
proof -
  have "wf nearer" by (simp add: nearer_def)
  then show ?thesis using assms(2)
  proof (induction b rule: wf_induct_rule)
    case (less b)
    show ?case
    proof (cases "bl_housekeeper b = Resting \<or> (\<exists>p. stuck p b)")
      case False
      then obtain c where c: "bl_step reacts b c" "(\<exists>p. stuck p c) \<or>
          (c, b) \<in> nearer \<and> srv_extensions (bl_server c) = srv_extensions (bl_server b)"
        using round_step [OF assms(1) less.prems] by blast
      then show ?thesis using less.IH less.prems by (metis converse_rtranclp_into_rtranclp rtranclp.rtrancl_refl)
    qed blast
  qed
qed

section \<open>The invariant between the steps\<close>

text \<open>
  The invariant of the server, and what is known of the messages under way: only extensions write to
  listeners, a merged message bears the name of its listener, and the message sender's is a request.
\<close>

definition bl_inv :: "core_config \<Rightarrow> blocking \<Rightarrow> bool" where
  "bl_inv conf b \<longleftrightarrow> server_inv conf (bl_server b) \<and>
     (\<forall>n. bl_writes b n \<noteq> [] \<or> bl_listener b n \<noteq> Receiving \<longrightarrow> n \<in> dom (srv_extensions (bl_server b))) \<and>
     (\<forall>n m. bl_listener b n = Locking m \<longrightarrow> msg_Sender m = n) \<and>
     (\<forall>m. bl_sender b = Some m \<longrightarrow> msg_Destination m \<in> set (visited (cc_WorkflowSteps conf))) \<and>
     (\<forall>n m k ks. bl_housekeeper b = Asking n m k ks \<longrightarrow> n \<in> dom (srv_extensions (bl_server b)))"

lemma received_sender [simp]: "msg_Sender (received order name m) = name"
  by (simp add: received_def)

lemma server_inv_frame:
  assumes "server_inv conf s"
  shows "srv_extensions s = initExtensions (initWorkflow (cc_WorkflowSteps conf))"
    and "dom (srv_channels s) = dom (initExtensions (initWorkflow (cc_WorkflowSteps conf)))"
    and "m \<in> set (srv_msgToExtension s) \<Longrightarrow> msg_Destination m \<in> set (visited (cc_WorkflowSteps conf))"
  using assms by (simp_all add: server_inv_def Let_def)

lemma bl_inv_server:
  assumes "bl_inv conf b" and "server_inv conf s"
  shows "bl_inv conf (b\<lparr>bl_server := s\<rparr>)"
  using assms server_inv_frame(1) [OF assms(2)] server_inv_frame(1) [of conf "bl_server b"]
  by (simp add: bl_inv_def)

lemma close_overdue_inv:
  assumes "server_inv conf s"
  shows "server_inv conf (close_overdue now k s)"
proof (cases "srv_entries s k")
  case (Some a)
  have "sound_entry (cc_WorkflowSteps conf) k (srv_heap s a)" by (rule server_inv_entry [OF assms Some])
  from server_inv_store [OF assms this sound_close_entry [OF this]] assms show ?thesis
    using Some by (simp add: close_overdue_def Let_def)
qed (use assms in \<open>simp add: close_overdue_def\<close>)

lemma bl_step_inv:
  assumes "wf_config (cc_WorkflowSteps conf)" and "bl_step reacts b c" and "bl_inv conf b"
  shows "bl_inv conf c"
  using assms(2,3)
proof (induction rule: bl_step.induct)
  case (visit b k ks now order)
  then have "bl_inv conf (b\<lparr>bl_server := housekeep_entry now (\<lambda>k. order) k (bl_server b)\<rparr>)"
    by (intro bl_inv_server housekeep_entry_inv) (simp_all add: bl_inv_def)
  then show ?case by (simp add: bl_inv_def)
next
  case (visit_stale b k ks now a order name)
  then have "name \<in> dom (srv_extensions (bl_server b))" by (auto simp: asked_provider_def find_Some_iff)
  then show ?case using visit_stale.prems by (simp add: bl_inv_def)
next
  case (asked b name m k ks out now)
  then have "bl_inv conf (b\<lparr>bl_server := close_overdue now k (bl_server b)\<rparr>)"
    by (intro bl_inv_server close_overdue_inv) (simp_all add: bl_inv_def)
  then show ?case using asked by (auto simp: bl_inv_def close_overdue_extensions)
next
  case (nothing_new b name m now order s)
  then have "\<exists>s'. mergeMessage now (received order name m) (bl_server b) = Some s' \<and> server_inv conf s'"
    by (intro server_inv_merge [OF assms(1)]) (auto simp: bl_inv_def)
  then have "bl_inv conf (b\<lparr>bl_server := s\<rparr>)" using nothing_new by (intro bl_inv_server) simp_all
  then show ?case by (auto simp: bl_inv_def)
next
  case (locked b name m now s)
  then have "\<exists>s'. merge_locked now m (bl_server b) = Some s' \<and> server_inv conf s'"
    by (intro server_inv_locked [OF assms(1)]) (auto simp: bl_inv_def)
  then have "bl_inv conf (b\<lparr>bl_server := s\<rparr>)" using locked by (intro bl_inv_server) simp_all
  then show ?case by (auto simp: bl_inv_def)
next
  case (handler i b now s)
  then have "\<exists>s'. (Inr s :: panic + server) = Inr s' \<and> server_inv conf s'"
    by (intro run_started_inv [OF assms(1)]) (simp_all add: bl_inv_def)
  then show ?case using handler by (intro bl_inv_server) simp_all
next
  case (take b xs m ys)
  then have "server_inv conf ((bl_server b)\<lparr>srv_msgToExtension := xs @ ys\<rparr>)"
    by (intro server_inv_outbox) (auto simp: bl_inv_def dest: server_inv_frame(3))
  from bl_inv_server [OF take.prems this] show ?case
    using take server_inv_frame(3) [of conf "bl_server b" m] by (simp add: bl_inv_def)
next
  case (forwarded b m out)
  then have "msg_Destination m \<in> dom (srv_extensions (bl_server b))"
    using server_inv_frame(1,2) [of conf "bl_server b"] by (auto simp: bl_inv_def)
  then show ?case using forwarded.prems by (simp add: bl_inv_def)
qed (auto simp: bl_inv_def)

lemma bl_run_inv:
  assumes "wf_config (cc_WorkflowSteps conf)" and "(bl_step reacts)\<^sup>*\<^sup>* b c" and "bl_inv conf b"
  shows "bl_inv conf c"
  using assms(2,3) by (induction rule: rtranclp_induct) (auto intro: bl_step_inv [OF assms(1)])

lemma bl_start_inv: "server_inv conf s \<Longrightarrow> bl_inv conf (bl_start s)"
  by (simp add: bl_inv_def bl_start_def)

section \<open>Properties\<close>

text \<open>
  C9. The table is sound at every moment. Also between the steps of a goroutine - in the middle of a
  round of the housekeeper, while listeners wait for the lock with messages that were looked at
  before other ones changed the table - each entry of the table is the entry of the service with that
  name and of no other, stands at a step that is no provider, is meant to be \<open>deployed\<close> or \<open>undeployed\<close>,
  and one in progress knows since when. A merge that gets the lock succeeds, and no handler that has
  been started panics.
\<close>

theorem table_sound_between_steps:
  assumes "wf_config (cc_WorkflowSteps conf)" and "reachable conf s" and "(bl_step reacts)\<^sup>*\<^sup>* (bl_start s) b"
  shows "(\<forall>k a. srv_entries (bl_server b) k = Some a \<longrightarrow>
      svc_Name (we_Service (srv_heap (bl_server b) a)) = k \<and> (\<forall>j. srv_entries (bl_server b) j = Some a \<longrightarrow> j = k) \<and>
      we_State (srv_heap (bl_server b) a) \<in> set (visited (cc_WorkflowSteps conf)) \<and>
      we_ExpectedState (srv_heap (bl_server b) a) \<in> {deployedState, undeployedState} \<and>
      (we_WorkInProgress (srv_heap (bl_server b) a) \<longrightarrow> we_WIPTime (srv_heap (bl_server b) a) > 0)) \<and>
    (\<forall>n m now. bl_listener b n = Locking m \<longrightarrow> merge_locked now m (bl_server b) \<noteq> None) \<and>
    (\<forall>i now p. i < length (srv_started (bl_server b)) \<longrightarrow> now > 0 \<longrightarrow> run_started i now (bl_server b) \<noteq> Some (Inl p))"
proof -
  have "bl_inv conf b" by (rule bl_run_inv [OF assms(1,3) bl_start_inv [OF reachable_inv [OF assms(1,2)]]])
  then have inv: "server_inv conf (bl_server b)" and l: "\<And>n m. bl_listener b n = Locking m \<Longrightarrow>
      msg_Sender m = n \<and> n \<in> dom (srv_extensions (bl_server b))" by (auto simp: bl_inv_def)
  have e: "sound_entry (cc_WorkflowSteps conf) k (srv_heap (bl_server b) a)" if "srv_entries (bl_server b) k = Some a" for k a
    by (rule server_inv_entry [OF inv that])
  have "j = k" if "srv_entries (bl_server b) k = Some a" "srv_entries (bl_server b) j = Some a" for j k a
    using sound_entry_name [OF e [OF that(1)]] sound_entry_name [OF e [OF that(2)]] by simp
  moreover have "merge_locked now m (bl_server b) \<noteq> None" if "bl_listener b n = Locking m" for n m now
    using server_inv_locked [OF assms(1) inv, of m now] l [OF that] by auto
  moreover have "run_started i now (bl_server b) \<noteq> Some (Inl p)"
    if "i < length (srv_started (bl_server b))" "now > 0" for i now p
    using run_started_inv [OF assms(1) inv that, of "Inl p"] by auto
  ultimately show ?thesis using e by (auto simp: sound_entry_def)
qed

text \<open>
  C11. The core can deadlock. Let a deployed service be due for a refresh while the provider that is asked
  for it is in a poll with at least two messages to send, the first of which brings something new: its
  listener has taken the first message and waits for the table's lock, which the housekeeper holds
  while it waits for the provider, which waits for its listener to take the second message.
\<close>

theorem deadlock_possible:
  assumes "bl_housekeeper b = Resting" and "bl_writes b p = []" and "bl_listener b p = Receiving"
    and "reacts p None (m1 # m2 # ms)" and "now > 0" and "target_orders m1 worder"
    and "serviceNeedUpdate (bl_server b) (received worder p m1)"
    and "map_order (k # ks) (srv_entries (bl_server b))" and "srv_entries (bl_server b) k = Some a"
    and "stale (srv_config (bl_server b)) now (srv_heap (bl_server b) a)"
    and "map_order order (srv_extensions (bl_server b))" and "asked_provider order (bl_server b) = Some p"
  shows "\<exists>c. (bl_step reacts)\<^sup>*\<^sup>* b c \<and> stuck p c"
proof -
  let ?b1 = "b\<lparr>bl_writes := (bl_writes b)(p := m1 # m2 # ms)\<rparr>"
  let ?b2 = "?b1\<lparr>bl_writes := (bl_writes ?b1)(p := m2 # ms), bl_listener := (bl_listener ?b1)(p := Merging m1)\<rparr>"
  let ?b3 = "?b2\<lparr>bl_listener := (bl_listener ?b2)(p := Locking (received worder p m1))\<rparr>"
  let ?b4 = "?b3\<lparr>bl_housekeeper := Visiting (k # ks)\<rparr>"
  let ?b5 = "?b4\<lparr>bl_housekeeper := Asking p (refresh_msg (svc_Name (we_Service (srv_heap (bl_server ?b4) a)))) k ks\<rparr>"
  have extension: "srv_extensions (bl_server b) p \<noteq> None"
    using assms(12) by (auto simp: asked_provider_def find_Some_iff)
  have "bl_step reacts b ?b1" by (rule bl_step.poll) (use assms(2,4,12) extension in simp_all)
  moreover have "bl_step reacts ?b1 ?b2" by (rule bl_step.hand_over) (use assms(3) in simp_all)
  moreover have "bl_step reacts ?b2 ?b3" by (rule bl_step.to_lock) (use assms(6,7) in simp_all)
  moreover have "bl_step reacts ?b3 ?b4" by (rule bl_step.tick) (use assms(1,8) in simp_all)
  moreover have "bl_step reacts ?b4 ?b5"
  proof (rule bl_step.visit_stale)
    show "bl_housekeeper ?b4 = Visiting (k # ks)" by simp
    show "asked_provider order (bl_server ?b4) = Some p" using assms(12) by simp
  qed (use assms(5,9,10,11) in simp_all)
  ultimately have "(bl_step reacts)\<^sup>*\<^sup>* b ?b5" by (meson rtranclp.rtrancl_into_rtrancl rtranclp.rtrancl_refl)
  moreover have "stuck p ?b5" by (simp add: stuck_def)
  ultimately show ?thesis by blast
qed

text \<open>
  A core whose workflow is its provider alone. The provider announces one service in its first poll and
  two others in the next one.
\<close>

definition lonely_conf :: core_config where
  "lonely_conf = demo_conf\<lparr>cc_WorkflowSteps := ''provider.swarm''\<rparr>"

definition new_service :: "string \<Rightarrow> Message" where
  "new_service n = zero_Message\<lparr>msg_Sender := ''provider.swarm'', msg_Action := AddAction,
     msg_Service := zero_Service\<lparr>svc_Name := n\<rparr>\<rparr>"

definition demo_reacts :: "string \<Rightarrow> Message option \<Rightarrow> Message list \<Rightarrow> bool" where
  "demo_reacts name r out \<longleftrightarrow>
     out \<in> (case r of None \<Rightarrow> {[new_service ''web''], [new_service ''a'', new_service ''b'']}
        | Some m \<Rightarrow> {[new_service (svc_Name (msg_Service m))]})"

lemma lonely_facts:
  "cc_WorkflowSteps lonely_conf = ''provider.swarm''"
  "chain ''provider.swarm'' = [undeployedState, ''provider.swarm'', deployedState]"
  "visited ''provider.swarm'' = [undeployedState, deployedState]"
  "wf_config ''provider.swarm''" "is_provider ''provider.swarm''" "''provider.swarm'' \<in> set (chain ''provider.swarm'')"
  "initExtensions (initWorkflow ''provider.swarm'') = [''provider.swarm'' \<mapsto> ProviderExtension]"
proof -
  show c: "chain ''provider.swarm'' = [undeployedState, ''provider.swarm'', deployedState]"
    by (simp add: chain_def deployedState_def undeployedState_def)
  show w: "wf_config ''provider.swarm''" by (simp add: wf_config_def c deployedState_def undeployedState_def)
  show "visited ''provider.swarm'' = [undeployedState, deployedState]"
    by (simp add: visited_def c is_provider_def HasPrefix_def deployedState_def undeployedState_def)
  have steps: "step_Name ` set (initWorkflow ''provider.swarm'') = {undeployedState, ''provider.swarm'', deployedState}"
    by (simp add: workflow_names [OF w] c)
  have l: "lookup_extension ''provider.swarm'' = Some ProviderExtension" "lookup_extension undeployedState = None"
    "lookup_extension deployedState = None" by (code_simp, code_simp, code_simp)
  show "initExtensions (initWorkflow ''provider.swarm'') = [''provider.swarm'' \<mapsto> ProviderExtension]"
    using l by (auto simp: initExtensions_def steps fun_eq_iff)
qed (simp_all add: lonely_conf_def is_provider_def HasPrefix_def chain_def)

lemma new_service_simps [simp]:
  "msg_Sender (new_service n) = ''provider.swarm''" "msg_Action (new_service n) = AddAction"
  "msg_Error (new_service n) = ''''" "svc_Name (msg_Service (new_service n)) = n"
  "received [] ''provider.swarm'' (new_service n) = new_service n" "target_orders (new_service n) []"
  by (simp_all add: new_service_def zero_Message_def received_def SetTargetWeight_def zero_Service_def
      target_orders_def map_order_def weight_map_def)

text \<open>The first service is merged, and its handler takes it to the end of the workflow.\<close>

lemma lonely_merge:
  obtains s where "merge_locked 9 (new_service ''web'') (initServer lonely_conf) = Some s" "srv_entries s = [''web'' \<mapsto> 0]"
    "srv_started s = [(Some providerState, 0, new_service ''web'')]" "srv_workflow s = initWorkflow ''provider.swarm''"
    "srv_extensions s = [''provider.swarm'' \<mapsto> ProviderExtension]" "srv_config s = lonely_conf"
proof -
  obtain e where e: "makeNewFlowEntry (initWorkflow ''provider.swarm'') 9 = Some e"
    using makeNewFlowEntry_wf [OF lonely_facts(4)] by metis
  show ?thesis
    by (rule that [of "the (merge_locked 9 (new_service ''web'') (initServer lonely_conf))"])
      (simp_all add: merge_locked_def find_or_create_def initServer_def Let_def lonely_facts e
        getTransition_provider [OF lonely_facts(4,6,5)])
qed

lemma lonely_deployed:
  assumes "srv_started s = [(Some providerState, 0, new_service ''web'')]" "srv_workflow s = initWorkflow ''provider.swarm''"
  shows "\<exists>t. run_started 0 9 s = Some (Inr t) \<and> srv_entries t = srv_entries s \<and> srv_extensions t = srv_extensions s \<and>
    srv_config t = srv_config s \<and> we_State (srv_heap t 0) = deployedState \<and> we_LastUpdate (srv_heap t 0) = 9"
proof -
  have "next_name ''provider.swarm'' ''provider.swarm'' False = Some deployedState"
    using route_after_split [OF lonely_facts(4,6,5)]
    by (auto simp: route_after_def lonely_facts(2) is_provider_def HasPrefix_def deployedState_def undeployedState_def)
  then show ?thesis
    using execute_add [OF lonely_facts(4), of "new_service ''web''" deployedState 9 "srv_heap s 0"] lonely_facts(5,6) assms
    by (simp add: run_started_def enter_def returns_def isReverse_def setLastUpdate_def setState_def setTargetState_def
        close_entry_def advance_def)
qed

lemma lonely_run:
  obtains b where "(bl_step demo_reacts)\<^sup>*\<^sup>* (bl_start (initServer lonely_conf)) b" "bl_housekeeper b = Resting"
    "bl_writes b = (\<lambda>n. [])" "bl_listener b = (\<lambda>n. Receiving)" "srv_entries (bl_server b) = [''web'' \<mapsto> 0]"
    "srv_extensions (bl_server b) = [''provider.swarm'' \<mapsto> ProviderExtension]" "srv_config (bl_server b) = lonely_conf"
    "we_State (srv_heap (bl_server b) 0) = deployedState" "we_LastUpdate (srv_heap (bl_server b) 0) = 9"
proof -
  let ?p = "''provider.swarm''" and ?m = "new_service ''web''"
  obtain s where s: "merge_locked 9 ?m (initServer lonely_conf) = Some s" "srv_entries s = [''web'' \<mapsto> 0]"
    "srv_started s = [(Some providerState, 0, ?m)]" "srv_workflow s = initWorkflow ''provider.swarm''"
    "srv_extensions s = [?p \<mapsto> ProviderExtension]" "srv_config s = lonely_conf" by (rule lonely_merge)
  obtain t where t: "run_started 0 9 s = Some (Inr t)" "srv_entries t = srv_entries s" "srv_extensions t = srv_extensions s"
    "srv_config t = srv_config s" "we_State (srv_heap t 0) = deployedState" "we_LastUpdate (srv_heap t 0) = 9"
    using lonely_deployed [OF s(3,4)] by blast
  let ?b0 = "bl_start (initServer lonely_conf)"
  let ?b1 = "?b0\<lparr>bl_writes := (bl_writes ?b0)(?p := [?m])\<rparr>"
  let ?b2 = "?b1\<lparr>bl_writes := (bl_writes ?b1)(?p := []), bl_listener := (bl_listener ?b1)(?p := Merging ?m)\<rparr>"
  let ?b3 = "?b2\<lparr>bl_listener := (bl_listener ?b2)(?p := Locking (received [] ?p ?m))\<rparr>"
  let ?b4 = "?b3\<lparr>bl_server := s, bl_listener := (bl_listener ?b3)(?p := Receiving)\<rparr>"
  let ?b5 = "?b4\<lparr>bl_server := t\<rparr>"
  have x: "srv_extensions (initServer lonely_conf) = [?p \<mapsto> ProviderExtension]"
    by (simp add: initServer_def Let_def lonely_facts)
  have "bl_step demo_reacts ?b0 ?b1"
    by (rule bl_step.poll) (simp_all add: bl_start_def x demo_reacts_def)
  moreover have "bl_step demo_reacts ?b1 ?b2" by (rule bl_step.hand_over) (simp_all add: bl_start_def)
  moreover have "bl_step demo_reacts ?b2 ?b3"
    by (rule bl_step.to_lock) (simp_all add: bl_start_def serviceNeedUpdate_def initServer_def entry_of_def Let_def)
  moreover have "bl_step demo_reacts ?b3 ?b4"
    by (rule bl_step.locked [where now = 9]) (use s(1) in \<open>simp_all add: bl_start_def\<close>)
  moreover have "bl_step demo_reacts ?b4 ?b5"
    by (rule bl_step.handler [where i = 0 and now = 9]) (simp_all add: bl_start_def s(3) t(1))
  ultimately have "(bl_step demo_reacts)\<^sup>*\<^sup>* ?b0 ?b5" by (meson rtranclp.rtrancl_into_rtrancl rtranclp.rtrancl_refl)
  then show ?thesis using that [of ?b5] s t by (simp add: bl_start_def fun_eq_iff)
qed

theorem deadlock_possible_witness:
  "\<exists>c. (bl_step demo_reacts)\<^sup>*\<^sup>* (bl_start (initServer lonely_conf)) c \<and> stuck ''provider.swarm'' c"
proof -
  obtain b where b: "(bl_step demo_reacts)\<^sup>*\<^sup>* (bl_start (initServer lonely_conf)) b" "bl_housekeeper b = Resting"
    "bl_writes b = (\<lambda>n. [])" "bl_listener b = (\<lambda>n. Receiving)" "srv_entries (bl_server b) = [''web'' \<mapsto> 0]"
    "srv_extensions (bl_server b) = [''provider.swarm'' \<mapsto> ProviderExtension]" "srv_config (bl_server b) = lonely_conf"
    "we_State (srv_heap (bl_server b) 0) = deployedState" "we_LastUpdate (srv_heap (bl_server b) 0) = 9"
    by (rule lonely_run)
  have "\<exists>c. (bl_step demo_reacts)\<^sup>*\<^sup>* b c \<and> stuck ''provider.swarm'' c"
  proof (rule deadlock_possible [where k = "''web''" and ks = "[]" and order = "[''provider.swarm'']" and a = 0 and now = 100
        and worder = "[]"])
    show "demo_reacts ''provider.swarm'' None (new_service ''a'' # new_service ''b'' # [])"
      by (simp add: demo_reacts_def)
    show "serviceNeedUpdate (bl_server b) (received [] ''provider.swarm'' (new_service ''a''))"
      by (simp add: serviceNeedUpdate_def entry_of_def b(5))
    show "stale (srv_config (bl_server b)) 100 (srv_heap (bl_server b) 0)"
      by (simp add: stale_def b(7-9) lonely_conf_def demo_conf_def time_Sub_exact int_min_def int_max_def)
  qed (simp_all add: b map_order_def asked_provider_def)
  with b(1) show ?thesis by (meson rtranclp_trans)
qed

text \<open>
  C10. A deadlock is for ever. Whatever the other goroutines do, the housekeeper, the provider and its
  listener stay where they are; no service is added to the table or taken from it again, and no
  handler is started: no message that brings something new is ever acted upon. As the housekeeper is
  never back at its \<open>select\<close>, a shutdown cannot begin either.
\<close>

theorem deadlock_is_final:
  assumes "(bl_step reacts)\<^sup>*\<^sup>* b c" and "stuck p b"
  shows "stuck p c \<and> bl_housekeeper c = bl_housekeeper b \<and> bl_housekeeper c \<noteq> Resting \<and>
    bl_writes c p = bl_writes b p \<and> bl_listener c p = bl_listener b p \<and>
    srv_entries (bl_server c) = srv_entries (bl_server b) \<and>
    set (srv_started (bl_server c)) \<subseteq> set (srv_started (bl_server b))"
  using stuck_run [OF assms] frozen_stuck [OF stuck_run [OF assms] assms(2)] by (auto simp: frozen_def stuck_def)

theorem deadlock_is_final_witness:
  "\<exists>b. stuck ''provider.swarm'' b \<and>
     (\<forall>c. (bl_step demo_reacts)\<^sup>*\<^sup>* b c \<longrightarrow> srv_entries (bl_server c) = srv_entries (bl_server b))"
proof -
  let ?b = "(bl_start (initServer lonely_conf))\<lparr>bl_housekeeper := Asking ''provider.swarm'' (refresh_msg ''web'') ''web'' [],
    bl_writes := (\<lambda>n. [new_service ''b'']), bl_listener := (\<lambda>n. Locking (new_service ''a''))\<rparr>"
  have s: "stuck ''provider.swarm'' ?b" by (simp add: stuck_def)
  have "\<forall>c. (bl_step demo_reacts)\<^sup>*\<^sup>* ?b c \<longrightarrow> srv_entries (bl_server c) = srv_entries (bl_server ?b)"
    using deadlock_is_final [OF _ s] by blast
  with s show ?thesis by blast
qed

text \<open>
  C12. There is no other way to block a round. From every state - wherever the listeners, the extensions
  and the handlers are -, the steps that the housekeeper waits for lead to the end of its round, with
  the lock free again, or to that deadlock, if every extension reacts to what it receives.
\<close>

theorem round_ends_or_deadlocks:
  assumes "\<forall>name m. \<exists>out. reacts name (Some m) out" and "map_order order (srv_extensions (bl_server b))"
  shows "\<exists>c. (bl_step reacts)\<^sup>*\<^sup>* b c \<and> (bl_housekeeper c = Resting \<or> (\<exists>p. stuck p c))"
  by (rule round_ends [OF assms])

theorem round_ends_or_deadlocks_witness:
  "\<exists>c. (bl_step demo_reacts)\<^sup>*\<^sup>* ((bl_start (initServer lonely_conf))\<lparr>bl_housekeeper := Visiting [''web'']\<rparr>) c \<and>
     (bl_housekeeper c = Resting \<or> (\<exists>p. stuck p c))"
proof (rule round_ends_or_deadlocks [where order = "[''provider.swarm'']"])
  show "\<forall>name m. \<exists>out. demo_reacts name (Some m) out" by (simp add: demo_reacts_def)
qed (simp add: bl_start_def initServer_def Let_def lonely_facts map_order_def)

theorem table_sound_between_steps_witness:
  "\<exists>b. (bl_step demo_reacts)\<^sup>*\<^sup>* (bl_start (initServer lonely_conf)) b \<and> srv_entries (bl_server b) ''web'' = Some 0 \<and>
     svc_Name (we_Service (srv_heap (bl_server b) 0)) = ''web''"
proof -
  have w: "wf_config (cc_WorkflowSteps lonely_conf)" by (simp add: lonely_facts)
  obtain b where b: "(bl_step demo_reacts)\<^sup>*\<^sup>* (bl_start (initServer lonely_conf)) b" "srv_entries (bl_server b) = [''web'' \<mapsto> 0]"
    by (rule lonely_run)
  have "srv_entries (bl_server b) ''web'' = Some 0" by (simp add: b(2))
  with table_sound_between_steps [OF w reachable.start b(1)] b(1) show ?thesis by blast
qed

end
