(* ===== verification/Go_Net.thy ===== *)
theory Go_Net
  imports Go_Prelude "HOL-Library.Word"
begin

text \<open>
  What the program uses of Go's package \<open>net\<close> (Go 1.12): addresses as byte slices of 4 or 16 bytes,
  \<open>To4\<close>, \<open>String\<close>, \<open>Mask\<close>, \<open>IsMulticast\<close>, \<open>ParseCIDR\<close>, \<open>IPNet.Contains\<close> and \<open>IPNet.String\<close>. The text
  form of 16-byte addresses is left to two functions that are an argument of the model; the
  theorems are about 4-byte addresses, for which they are not used.
\<close>

unbundle bit_operations_syntax

named_theorems go_net "facts on addresses and networks"

type_synonym byte = "8 word"
type_synonym IP = "byte list"

record IPNet =
  net_IP :: IP
  net_Mask :: IP

record ipv6_text =
  parse_ipv6 :: "string \<Rightarrow> IP option"
  show_ipv6 :: "IP \<Rightarrow> string"

section \<open>Addresses\<close>

definition v4InV6Prefix :: "byte list" where
  "v4InV6Prefix = replicate 10 0 @ [0xff, 0xff]"

definition To4 :: "IP \<Rightarrow> IP option" where
  "To4 ip =
     (if length ip = 4 then Some ip
      else if length ip = 16 \<and> take 12 ip = v4InV6Prefix then Some (drop 12 ip) else None)"

definition dotted :: "byte list \<Rightarrow> string" where
  "dotted bs = Join ''.'' (map (\<lambda>b. itoa_nat (unat b)) bs)"

definition IP_String :: "ipv6_text \<Rightarrow> IP \<Rightarrow> string" where
  "IP_String t ip =
     (if ip = [] then ''<nil>''
      else case To4 ip of Some p4 \<Rightarrow> dotted p4 | None \<Rightarrow> show_ipv6 t ip)"

definition IsMulticast :: "IP \<Rightarrow> bool" where
  "IsMulticast ip =
     (case To4 ip of
        Some ip4 \<Rightarrow> ip4 ! 0 AND 0xf0 = 0xe0
      | None \<Rightarrow> length ip = 16 \<and> ip ! 0 = 0xff)"

definition and_bytes :: "byte list \<Rightarrow> byte list \<Rightarrow> byte list" where
  "and_bytes = map2 (AND)"

definition Mask :: "IP \<Rightarrow> IP \<Rightarrow> IP" where
  "Mask ip m =
     (let m = (if length m = 16 \<and> length ip = 4 \<and> take 12 m = replicate 12 0xff then drop 12 m else m);
          ip = (if length m = 4 \<and> length ip = 16 \<and> take 12 ip = v4InV6Prefix then drop 12 ip else ip)
      in if length ip \<noteq> length m then [] else and_bytes ip m)"

section \<open>Networks\<close>

fun mask_bytes :: "nat \<Rightarrow> nat \<Rightarrow> byte list" where
  "mask_bytes 0 n = []"
| "mask_bytes (Suc l) n =
     (if n \<ge> 8 then 0xff # mask_bytes l (n - 8) else NOT (drop_bit n 0xff) # mask_bytes l 0)"

definition CIDRMask :: "nat \<Rightarrow> nat \<Rightarrow> IP" where
  "CIDRMask ones bits = mask_bytes (bits div 8) ones"

definition networkNumberAndMask :: "IPNet \<Rightarrow> (IP \<times> IP) option" where
  "networkNumberAndMask n =
     (case (case To4 (net_IP n) of
              Some ip \<Rightarrow> Some ip
            | None \<Rightarrow> if length (net_IP n) = 16 then Some (net_IP n) else None) of
        None \<Rightarrow> None
      | Some ip \<Rightarrow>
          (let m = net_Mask n in
           if length m = 4 then (if length ip = 4 then Some (ip, m) else None)
           else if length m = 16 then Some (ip, if length ip = 4 then drop 12 m else m)
           else None))"

definition IPNet_Contains :: "IPNet \<Rightarrow> IP \<Rightarrow> bool" where
  "IPNet_Contains n ip =
     (case networkNumberAndMask n of
        None \<Rightarrow> ip = []
      | Some (nn, m) \<Rightarrow>
          (let ip = (case To4 ip of Some x \<Rightarrow> x | None \<Rightarrow> ip)
           in length ip = length nn \<and> and_bytes nn m = and_bytes ip m))"

text \<open>The length of a mask of ones followed by zeros; other masks have none.\<close>

fun byte_ones :: "nat \<Rightarrow> byte \<Rightarrow> nat option" where
  "byte_ones 0 b = (if b = 0 then Some 0 else None)"
| "byte_ones (Suc k) b =
     (if b AND 0x80 \<noteq> 0 then map_option Suc (byte_ones k (push_bit 1 b))
      else if b = 0 then Some 0 else None)"

fun simpleMaskLength :: "byte list \<Rightarrow> nat option" where
  "simpleMaskLength [] = Some 0"
| "simpleMaskLength (b # bs) =
     (if b = 0xff then map_option ((+) 8) (simpleMaskLength bs)
      else case byte_ones 8 b of
          None \<Rightarrow> None
        | Some n \<Rightarrow> if \<forall>x\<in>set bs. x = 0 then Some n else None)"

definition hex_digit :: "nat \<Rightarrow> char" where
  "hex_digit d = ''0123456789abcdef'' ! d"

definition IPMask_String :: "IP \<Rightarrow> string" where
  "IPMask_String m =
     (if m = [] then ''<nil>''
      else concat (map (\<lambda>b. [hex_digit (unat b div 16), hex_digit (unat b mod 16)]) m))"

definition IPNet_String :: "ipv6_text \<Rightarrow> IPNet \<Rightarrow> string" where
  "IPNet_String t n =
     (case networkNumberAndMask n of
        None \<Rightarrow> ''<nil>''
      | Some (nn, m) \<Rightarrow>
          (case simpleMaskLength m of
             None \<Rightarrow> IP_String t nn @ ''/'' @ IPMask_String m
           | Some l \<Rightarrow> IP_String t nn @ ''/'' @ itoa_nat l))"

section \<open>Parsing\<close>

text \<open>\<open>dtoi\<close> gives the value, the rest of the input and whether it found a number below 0xFFFFFF.\<close>

fun dtoi_loop :: "nat \<Rightarrow> string \<Rightarrow> nat \<times> string \<times> bool" where
  "dtoi_loop n [] = (n, [], True)"
| "dtoi_loop n (c # s) =
     (case digit_val c of
        None \<Rightarrow> (n, c # s, True)
      | Some d \<Rightarrow>
          (let n = 10 * n + d in if n \<ge> 0xFFFFFF then (0xFFFFFF, c # s, False) else dtoi_loop n s))"

definition dtoi :: "string \<Rightarrow> nat \<times> string \<times> bool" where
  "dtoi s = (case s of [] \<Rightarrow> (0, s, False) | c # _ \<Rightarrow> if digit_val c = None then (0, s, False) else dtoi_loop 0 s)"

fun parseIPv4_loop :: "nat \<Rightarrow> byte list \<Rightarrow> string \<Rightarrow> byte list option" where
  "parseIPv4_loop 0 p s = (if s = [] then Some p else None)"
| "parseIPv4_loop (Suc k) p s =
     (if s = [] then None
      else if p \<noteq> [] \<and> hd s \<noteq> CHR ''.'' then None
      else (case dtoi (if p \<noteq> [] then tl s else s) of
          (n, rest, ok) \<Rightarrow>
            if \<not> ok \<or> n > 0xFF then None
            else parseIPv4_loop k (p @ [word_of_nat n]) rest))"

definition parseIPv4 :: "string \<Rightarrow> IP option" where
  "parseIPv4 s = map_option (\<lambda>p. v4InV6Prefix @ p) (parseIPv4_loop 4 [] s)"

definition ParseCIDR :: "ipv6_text \<Rightarrow> string \<Rightarrow> string + (IP \<times> IPNet)" where
  "ParseCIDR t s =
     (let err = Inl (''invalid CIDR address: '' @ s) in
      if CHR ''/'' \<notin> set s then err
      else
        (let addr = takeWhile (\<lambda>c. c \<noteq> CHR ''/'') s;
             mask = tl (dropWhile (\<lambda>c. c \<noteq> CHR ''/'') s);
             (iplen, ip) = (case parseIPv4 addr of
                              Some ip \<Rightarrow> (4, Some ip) | None \<Rightarrow> (16, parse_ipv6 t addr));
             (n, rest, ok) = dtoi mask
         in case ip of
              None \<Rightarrow> err
            | Some ip \<Rightarrow>
                if \<not> ok \<or> rest \<noteq> [] \<or> n > 8 * iplen then err
                else (let m = CIDRMask n (8 * iplen)
                      in Inr (ip, \<lparr>net_IP = Mask ip m, net_Mask = m\<rparr>))))"

section \<open>Addresses as numbers\<close>

fun ip_val :: "byte list \<Rightarrow> nat" where
  "ip_val [] = 0"
| "ip_val (b # bs) = unat b * 256 ^ length bs + ip_val bs"

lemma mult_add_inj:
  fixes k u v x y :: nat
  assumes "u < k" and "v < k"
  shows "x * k + u = y * k + v \<longleftrightarrow> x = y \<and> u = v"
proof
  assume e: "x * k + u = y * k + v"
  have "(x * k + u) div k = x" "(y * k + v) div k = y" using assms by simp_all
  with e show "x = y \<and> u = v" by simp
qed simp

lemma ip_val_less: "ip_val bs < 256 ^ length bs"
proof (induction bs)
  case (Cons b bs)
  have "unat b < 256" using unsigned_less [of b] by simp
  then have "unat b * 256 ^ length bs \<le> 255 * (256::nat) ^ length bs" by (intro mult_right_mono) auto
  then show ?case using Cons unfolding ip_val.simps length_Cons power_Suc by linarith
qed simp

lemma ip_val_inject: "length as = length bs \<Longrightarrow> ip_val as = ip_val bs \<longleftrightarrow> as = bs"
proof (induction as bs rule: list_induct2)
  case (Cons a as b bs)
  then show ?case
    using ip_val_less [of as] ip_val_less [of bs]
      mult_add_inj [of "ip_val as" "256 ^ length as" "ip_val bs" "unat a" "unat b"]
    by (simp add: word_unat_eq_iff)
qed simp

text \<open>Masking keeps the bits of the network part.\<close>

lemma ff_ones: "(0xff :: byte) = - 1"
  by code_simp

lemma and_ff [simp]: "b AND (0xff :: byte) = b"
  unfolding ff_ones by simp

lemma drop_ff: "r < 8 \<Longrightarrow> drop_bit r (0xff :: byte) = mask (8 - r)"
  unfolding ff_ones by (rule bit_eqI) (auto simp: bit_simps)

lemma masked_byte_eq:
  fixes a b :: byte
  assumes "r < 8"
  shows "a AND NOT (drop_bit r 0xff) = b AND NOT (drop_bit r 0xff) \<longleftrightarrow>
    unat a div 2 ^ (8 - r) = unat b div 2 ^ (8 - r)"
proof -
  have "a AND NOT (mask k) = b AND NOT (mask k) \<longleftrightarrow> drop_bit k a = drop_bit k b" for k
  proof
    assume e: "a AND NOT (mask k) = b AND NOT (mask k)"
    show "drop_bit k a = drop_bit k b"
    proof (rule bit_eqI)
      fix n
      have "bit (a AND NOT (mask k)) (n + k) = bit (b AND NOT (mask k)) (n + k)" using e by simp
      then show "bit (drop_bit k a) n = bit (drop_bit k b) n"
        by (auto simp: bit_simps add.commute dest: bit_imp_le_length)
    qed
  next
    assume e: "drop_bit k a = drop_bit k b"
    show "a AND NOT (mask k) = b AND NOT (mask k)"
    proof (rule bit_eqI)
      fix n
      show "bit (a AND NOT (mask k)) n = bit (b AND NOT (mask k)) n"
      proof (cases "k \<le> n")
        case True
        have "bit (drop_bit k a) (n - k) = bit (drop_bit k b) (n - k)" using e by simp
        then show ?thesis using True by (auto simp: bit_simps)
      qed (auto simp: bit_simps)
    qed
  qed
  moreover have "drop_bit k a = drop_bit k b \<longleftrightarrow> unat a div 2 ^ k = unat b div 2 ^ k" for k
    by (metis unat_drop_bit_eq drop_bit_eq_div word_unat_eq_iff)
  ultimately show ?thesis using drop_ff [OF assms] by simp
qed

text \<open>Two addresses agree under a mask of \<open>n\<close> ones exactly when their numbers agree in the first \<open>n\<close> bits.\<close>

lemma not_ff: "NOT (0xff :: byte) = 0" "(- 256 :: byte) = 0"
  by (simp_all only: ff_ones bit.compl_one) code_simp

lemma and_zero_bytes: "and_bytes as (mask_bytes (length as) 0) = replicate (length as) 0"
  by (induction as) (simp_all add: and_bytes_def not_ff)

lemma mult_add_div:
  fixes x y k m :: nat
  assumes "m dvd k" and "m > 0"
  shows "(x * k + y) div m = x * (k div m) + y div m"
proof -
  obtain j where "k = m * j" using assms(1) ..
  then have "x * k + y = y + m * (x * j)" "k div m = j" using assms(2) by simp_all
  then show ?thesis using assms(2) by (metis add.commute div_mult_self2 neq0_conv)
qed

lemma and_mask_eq_iff:
  assumes "length as = length bs" and "n \<le> 8 * length as"
  shows "and_bytes as (mask_bytes (length as) n) = and_bytes bs (mask_bytes (length bs) n) \<longleftrightarrow>
    ip_val as div 2 ^ (8 * length as - n) = ip_val bs div 2 ^ (8 * length bs - n)"
  using assms
proof (induction as bs arbitrary: n rule: list_induct2)
  case (Cons a as b bs)
  let ?l = "length as"
  have p: "(256::nat) ^ ?l = 2 ^ (8 * ?l)" by (simp add: power_mult)
  have lt: "ip_val as < 2 ^ (8 * ?l)" "ip_val bs < 2 ^ (8 * ?l)"
    using ip_val_less [of as] ip_val_less [of bs] Cons.hyps p by simp_all
  show ?case
  proof (cases "n \<ge> 8")
    case True
    define k where "k = 8 * ?l - (n - 8)"
    have k: "8 * length (a # as) - n = k" "8 * length (b # bs) - n = k" "k \<le> 8 * ?l"
      using True Cons.hyps Cons.prems by (simp_all add: k_def)
    have d: "(2::nat) ^ k dvd 2 ^ (8 * ?l)" using k(3) by (rule le_imp_power_dvd)
    have s: "(unat x * 2 ^ (8 * ?l) + v) div 2 ^ k = unat x * 2 ^ (8 * ?l - k) + v div 2 ^ k" for x :: byte and v
      using mult_add_div [OF d] k(3) by (simp add: power_diff)
    have small: "v div 2 ^ k < 2 ^ (8 * ?l - k)" if "v < 2 ^ (8 * ?l)" for v :: nat
      using that k(3) by (simp add: div_less_iff_less_mult power_add [symmetric])
    have "unat a * 2 ^ (8 * ?l - k) + ip_val as div 2 ^ k = unat b * 2 ^ (8 * ?l - k) + ip_val bs div 2 ^ k \<longleftrightarrow>
        unat a = unat b \<and> ip_val as div 2 ^ k = ip_val bs div 2 ^ k"
      by (rule mult_add_inj) (use small lt in blast)+
    then show ?thesis
      using True Cons.IH [of "n - 8"] Cons.prems Cons.hyps k s p
      by (simp add: and_bytes_def word_unat_eq_iff k_def)
  next
    case False
    have e: "8 * length (a # as) - n = 8 * ?l + (8 - n)" using False by simp
    have s: "(unat x * 2 ^ (8 * ?l) + v) div 2 ^ (8 * ?l + (8 - n)) = unat x div 2 ^ (8 - n)"
      if "v < 2 ^ (8 * ?l)" for x :: byte and v :: nat
      using that by (simp add: power_add div_mult2_eq)
    have "and_bytes (a # as) (mask_bytes (length (a # as)) n) = and_bytes (b # bs) (mask_bytes (length (b # bs)) n) \<longleftrightarrow>
        a AND NOT (drop_bit n 0xff) = b AND NOT (drop_bit n 0xff)"
      using False and_zero_bytes [of as] and_zero_bytes [of bs] Cons.hyps by (simp add: and_bytes_def)
    also have "\<dots> \<longleftrightarrow> unat a div 2 ^ (8 - n) = unat b div 2 ^ (8 - n)"
      using False by (intro masked_byte_eq) simp
    finally show ?thesis using e s [OF lt(1)] s [OF lt(2)] p Cons.hyps by simp
  qed
qed simp

text \<open>The address with a given number.\<close>

fun bytes_of :: "nat \<Rightarrow> nat \<Rightarrow> byte list" where
  "bytes_of 0 v = []"
| "bytes_of (Suc l) v = word_of_nat (v div 256 ^ l) # bytes_of l (v mod 256 ^ l)"

lemma length_bytes_of [simp]: "length (bytes_of l v) = l"
  by (induction l arbitrary: v) auto

lemma ip_val_bytes_of: "ip_val (bytes_of l v) = v mod 256 ^ l"
proof (induction l arbitrary: v)
  case (Suc l)
  have "unat (word_of_nat (v div 256 ^ l) :: byte) = v div 256 ^ l mod 256"
    by (simp add: unat_of_nat)
  then show ?case using Suc mod_mult2_eq [of v "256 ^ l" 256] by (simp add: mult.commute)
qed simp

lemma bytes_of_ip_val: "length ip = l \<Longrightarrow> bytes_of l (ip_val ip) = ip"
  using ip_val_less [of ip] ip_val_inject [of "bytes_of l (ip_val ip)" ip]
  by (simp add: ip_val_bytes_of)

section \<open>Networks of 4-byte addresses\<close>

definition v4_net :: "IPNet \<Rightarrow> nat \<Rightarrow> bool" where
  "v4_net net n \<longleftrightarrow> length (net_IP net) = 4 \<and> net_Mask net = mask_bytes 4 n \<and> n \<le> 32 \<and>
     and_bytes (net_IP net) (net_Mask net) = net_IP net"

lemma length_mask_bytes [simp]: "length (mask_bytes l n) = l"
  by (induction l arbitrary: n) auto

lemma and_bytes_idem: "and_bytes (and_bytes as bs) bs = and_bytes as bs"
  unfolding and_bytes_def by (induction as bs rule: list_induct2') (simp_all add: and.assoc)

lemma length_and_bytes [simp]: "length (and_bytes as bs) = min (length as) (length bs)"
  by (simp add: and_bytes_def)

lemma parseIPv4_loop_length: "parseIPv4_loop k p s = Some q \<Longrightarrow> length q = length p + k"
  by (induction k p s rule: parseIPv4_loop.induct) (auto split: if_splits prod.splits)

lemma ParseCIDR_v4:
  assumes "ParseCIDR t s = Inr (ip, net)" and "length (net_Mask net) = 4"
  shows "Mask ip (net_Mask net) = net_IP net" and "\<exists>n. v4_net net n"
proof -
  let ?addr = "takeWhile (\<lambda>c. c \<noteq> CHR ''/'') s"
  obtain iplen n where m: "net_Mask net = CIDRMask n (8 * iplen)" "n \<le> 8 * iplen"
    "net_IP net = Mask ip (net_Mask net)"
    "(case parseIPv4 ?addr of Some i \<Rightarrow> (4, Some i) | None \<Rightarrow> (16, parse_ipv6 t ?addr)) = (iplen, Some ip)"
    using assms(1) by (auto simp: ParseCIDR_def Let_def split: if_splits prod.splits option.splits)
  then show "Mask ip (net_Mask net) = net_IP net" by simp
  have "iplen = 4" using assms(2) m(1,4) by (auto simp: CIDRMask_def split: option.splits)
  then obtain p where "ip = v4InV6Prefix @ p" "length p = 4"
    using m(4) parseIPv4_loop_length by (fastforce simp: parseIPv4_def split: option.splits)
  then have "net_IP net = and_bytes p (net_Mask net)"
    using m(3) assms(2) by (simp add: Mask_def v4InV6Prefix_def)
  then show "\<exists>n. v4_net net n"
    using m(1,2) \<open>iplen = 4\<close> \<open>length p = 4\<close>
    by (auto simp: v4_net_def CIDRMask_def and_bytes_idem)
qed

lemma v4_net_number: "v4_net net n \<Longrightarrow> networkNumberAndMask net = Some (net_IP net, net_Mask net)"
  by (simp add: v4_net_def networkNumberAndMask_def To4_def Let_def)

text \<open>The addresses of a network are an interval, and its own address is the lowest.\<close>

definition net_size :: "nat \<Rightarrow> nat" where
  "net_size n = 2 ^ (32 - n)"

lemma Contains_v4:
  assumes "v4_net net n" and "length ip = 4"
  shows "IPNet_Contains net ip \<longleftrightarrow> ip_val ip div net_size n = ip_val (net_IP net) div net_size n"
proof -
  have "IPNet_Contains net ip \<longleftrightarrow> and_bytes (net_IP net) (mask_bytes 4 n) = and_bytes ip (mask_bytes 4 n)"
    using assms v4_net_number [OF assms(1)] by (simp add: IPNet_Contains_def To4_def Let_def v4_net_def)
  then show ?thesis
    using and_mask_eq_iff [of "net_IP net" ip n] assms by (auto simp: v4_net_def net_size_def)
qed

lemma and_bytes_le: "length as = length bs \<Longrightarrow> ip_val (and_bytes as bs) \<le> ip_val as"
proof (induction as bs rule: list_induct2)
  case (Cons a as b bs)
  have "unat (a AND b) \<le> unat a" using word_and_le2 [of a b] by (simp add: word_le_nat_alt)
  then have "unat (a AND b) * 256 ^ length as \<le> unat a * 256 ^ length as" by (rule mult_right_mono) simp
  then have "unat (a AND b) * 256 ^ length as + ip_val (and_bytes as bs) \<le> unat a * 256 ^ length as + ip_val as"
    using Cons.IH by (rule add_mono)
  then show ?case using Cons.hyps by (simp add: and_bytes_def)
qed (simp add: and_bytes_def)

lemma net_lowest:
  assumes "v4_net net n"
  shows "net_size n dvd ip_val (net_IP net)"
proof -
  let ?v = "ip_val (net_IP net)" and ?k = "net_size n"
  have len: "length (net_IP net) = 4" using assms by (simp add: v4_net_def)
  let ?y = "bytes_of 4 (?v div ?k * ?k)"
  have "?v div ?k * ?k \<le> ?v" by simp
  also have "?v < 256 ^ 4" using ip_val_less [of "net_IP net"] len by simp
  finally have y: "ip_val ?y = ?v div ?k * ?k" by (simp add: ip_val_bytes_of)
  then have "ip_val ?y div ?k = ?v div ?k" by (simp add: net_size_def)
  then have "and_bytes (net_IP net) (mask_bytes 4 n) = and_bytes ?y (mask_bytes 4 n)"
    using and_mask_eq_iff [of "net_IP net" ?y n] len assms by (simp add: v4_net_def net_size_def)
  then have "net_IP net = and_bytes ?y (mask_bytes 4 n)" using assms by (metis v4_net_def)
  then have "?v \<le> ip_val ?y" using and_bytes_le [of ?y "mask_bytes 4 n"] by simp
  with y have "?v = ?v div ?k * ?k" by (metis div_times_less_eq_dividend order_antisym)
  then show ?thesis by (metis dvd_triv_right)
qed

lemma Contains_v4_interval:
  assumes "v4_net net n" and "length ip = 4"
  shows "IPNet_Contains net ip \<longleftrightarrow>
    ip_val (net_IP net) \<le> ip_val ip \<and> ip_val ip < ip_val (net_IP net) + net_size n"
proof -
  obtain q where q: "ip_val (net_IP net) = net_size n * q" using net_lowest [OF assms(1)] ..
  have k: "0 < net_size n" by (simp add: net_size_def)
  have "ip_val ip div net_size n = q \<longleftrightarrow> net_size n * q \<le> ip_val ip \<and> ip_val ip < net_size n * q + net_size n"
  proof
    assume "ip_val ip div net_size n = q"
    then show "net_size n * q \<le> ip_val ip \<and> ip_val ip < net_size n * q + net_size n"
      using k by (metis add.commute dividend_less_times_div times_div_less_eq_dividend)
  next
    assume "net_size n * q \<le> ip_val ip \<and> ip_val ip < net_size n * q + net_size n"
    then show "ip_val ip div net_size n = q" by (intro div_nat_eqI) (auto simp: mult.commute)
  qed
  then show ?thesis using Contains_v4 [OF assms] q k by simp
qed

section \<open>Text of addresses and networks\<close>

lemma byte_less: "unat (b :: byte) < 256"
  using unsigned_less [of b] by simp

lemma dotted_pieces: "bs \<noteq> [] \<Longrightarrow> Split CHR ''.'' (dotted bs) = map (\<lambda>b. itoa_nat (unat b)) bs"
  unfolding dotted_def by (rule Split_Join) (auto intro!: itoa_nat_no_char)

lemma dotted_inject:
  assumes "as \<noteq> []" and "bs \<noteq> []"
  shows "dotted as = dotted bs \<longleftrightarrow> as = bs"
proof
  assume "dotted as = dotted bs"
  then have m: "map (\<lambda>b. itoa_nat (unat b)) as = map (\<lambda>b. itoa_nat (unat b)) bs"
    using dotted_pieces assms by metis
  have "unat (b :: byte) < 2 ^ 64" for b using byte_less [of b] by simp
  then have "inj (\<lambda>b :: byte. itoa_nat (unat b))"
    by (intro injI) (metis itoa_nat_inj word_unat_eq_iff)
  with m show "as = bs" by (simp add: inj_map_eq_map)
qed simp

lemma IP_String_v4 [go_net]: "length ip = 4 \<Longrightarrow> IP_String t ip = dotted ip"
  by (auto simp: IP_String_def To4_def)

lemma simpleMaskLength_mask:
  assumes "n \<le> 32"
  shows "simpleMaskLength (mask_bytes 4 n) = Some n"
proof -
  have "list_all (\<lambda>n. simpleMaskLength (mask_bytes 4 n) = Some n) [0..<33]" by code_simp
  then show ?thesis using assms by (simp add: list_all_iff)
qed

lemma IPNet_String_v4 [go_net]:
  assumes "v4_net net n"
  shows "IPNet_String t net = dotted (net_IP net) @ ''/'' @ itoa_nat n"
proof -
  have "length (net_IP net) = 4" "simpleMaskLength (net_Mask net) = Some n"
    using assms by (simp_all add: v4_net_def simpleMaskLength_mask)
  then show ?thesis by (simp add: IPNet_String_def v4_net_number [OF assms] IP_String_v4)
qed

text \<open>A byte whose digits are a proper beginning or end of another byte's is smaller.\<close>

lemma itoa_nat_length:
  assumes "n < 256"
  shows "length (itoa_nat n) = (if n < 10 then 1 else if n < 100 then 2 else 3)"
  using assms
  by (subst itoa_nat.simps, subst itoa_nat.simps, subst itoa_nat.simps) auto

lemma itoa_nat_part:
  assumes "m < 256" and "n < 256" and "itoa_nat n = x @ itoa_nat m @ y"
  shows "m \<le> n"
proof (cases "x = [] \<and> y = []")
  case True
  then show ?thesis using itoa_nat_inj [of n m] assms by simp
next
  case False
  then have "length (itoa_nat m) < length (itoa_nat n)" using assms(3) by auto
  then show ?thesis using assms(1,2) by (simp add: itoa_nat_length split: if_splits)
qed

lemma Split_append:
  "Split sep (s @ t) = butlast (Split sep s) @ (last (Split sep s) @ hd (Split sep t)) # tl (Split sep t)"
proof (induction s)
  case Nil
  then show ?case by (cases "Split sep t") auto
next
  case (Cons c s)
  then show ?case by (cases "Split sep s") auto
qed

text \<open>
  Within a network, the only address whose text occurs in the text of the network is the
  network's own address: any other is larger, and its text is no part of a larger one's.
\<close>

lemma Contains_net_text:
  assumes "v4_net net n" and "length ip = 4" and "IPNet_Contains net ip"
  shows "Contains (IPNet_String t net) (IP_String t ip) \<longleftrightarrow> ip = net_IP net"
proof
  assume "ip = net_IP net"
  then show "Contains (IPNet_String t net) (IP_String t ip)"
    using assms by (simp add: go_net) (auto simp: Contains_iff)
next
  assume c: "Contains (IPNet_String t net) (IP_String t ip)"
  obtain a1 a2 a3 a4 where a: "ip = [a1, a2, a3, a4]" using assms(2) by (auto simp: numeral_eq_Suc length_Suc_conv)
  have len: "length (net_IP net) = 4" using assms(1) by (simp add: v4_net_def)
  then obtain b1 b2 b3 b4 where b: "net_IP net = [b1, b2, b3, b4]" by (auto simp: numeral_eq_Suc length_Suc_conv)
  obtain x y where xy: "dotted (net_IP net) @ ''/'' @ itoa_nat n = x @ dotted ip @ y"
    using c assms(1,2) by (auto simp: go_net Contains_iff)
  have no_dot: "CHR ''.'' \<notin> set (''/'' @ itoa_nat n)" using itoa_nat_no_char [of "CHR ''.''" n] by auto
  have pieces: "Split CHR ''.'' (dotted (net_IP net) @ ''/'' @ itoa_nat n) =
      [itoa_nat (unat b1), itoa_nat (unat b2), itoa_nat (unat b3), itoa_nat (unat b4) @ ''/'' @ itoa_nat n]"
    by (subst Split_append) (use no_dot in \<open>simp add: dotted_pieces b Split_no_sep\<close>)
  have "Split CHR ''.'' (x @ dotted ip @ y) = butlast (Split CHR ''.'' x) @
      (last (Split CHR ''.'' x) @ itoa_nat (unat a1)) # itoa_nat (unat a2) # itoa_nat (unat a3) #
      (itoa_nat (unat a4) @ hd (Split CHR ''.'' y)) # tl (Split CHR ''.'' y)"
  proof -
    have "Split CHR ''.'' (dotted ip @ y) = itoa_nat (unat a1) # itoa_nat (unat a2) # itoa_nat (unat a3) #
        (itoa_nat (unat a4) @ hd (Split CHR ''.'' y)) # tl (Split CHR ''.'' y)"
      unfolding Split_append [of _ "dotted ip"] by (simp add: dotted_pieces a)
    then show ?thesis by (simp add: Split_append [of _ x])
  qed
  then have e: "[itoa_nat (unat b1), itoa_nat (unat b2), itoa_nat (unat b3), itoa_nat (unat b4) @ ''/'' @ itoa_nat n] =
      butlast (Split CHR ''.'' x) @ (last (Split CHR ''.'' x) @ itoa_nat (unat a1)) # itoa_nat (unat a2) # itoa_nat (unat a3) #
      (itoa_nat (unat a4) @ hd (Split CHR ''.'' y)) # tl (Split CHR ''.'' y)"
    using pieces xy by simp
  then have "butlast (Split CHR ''.'' x) = []" "tl (Split CHR ''.'' y) = []"
    by (cases "butlast (Split CHR ''.'' x)"; cases "tl (Split CHR ''.'' y)"; auto dest: arg_cong [where f = length])+
  with e have p: "itoa_nat (unat b1) = last (Split CHR ''.'' x) @ itoa_nat (unat a1)"
    "itoa_nat (unat b2) = itoa_nat (unat a2)" "itoa_nat (unat b3) = itoa_nat (unat a3)"
    "itoa_nat (unat b4) @ ''/'' @ itoa_nat n = itoa_nat (unat a4) @ hd (Split CHR ''.'' y)" by simp_all
  note lt = byte_less
  have slash: "CHR ''/'' \<notin> set (itoa_nat k)" for k by (rule itoa_nat_no_char) simp
  have "\<exists>z. itoa_nat (unat b4) = itoa_nat (unat a4) @ z"
    using p(4) slash by (auto simp: append_eq_append_conv2 Cons_eq_append_conv) (metis in_set_conv_decomp)
  then have "unat a4 \<le> unat b4" using itoa_nat_part [of "unat a4" "unat b4" "[]"] lt by auto
  moreover have "unat a1 \<le> unat b1" using itoa_nat_part [of "unat a1" "unat b1" _ "[]"] lt p(1) by auto
  moreover have "unat a2 = unat b2" "unat a3 = unat b3"
    using itoa_nat_part [of "unat a2" "unat b2" "[]" "[]"] itoa_nat_part [of "unat b2" "unat a2" "[]" "[]"]
      itoa_nat_part [of "unat a3" "unat b3" "[]" "[]"] itoa_nat_part [of "unat b3" "unat a3" "[]" "[]"] lt p(2,3)
    by auto
  ultimately have "ip_val ip \<le> ip_val (net_IP net)" by (simp add: a b)
  moreover have "ip_val (net_IP net) \<le> ip_val ip" using Contains_v4_interval [OF assms(1,2)] assms(3) by simp
  ultimately have "ip_val ip = ip_val (net_IP net)" by (rule antisym)
  then show "ip = net_IP net" using ip_val_inject [of ip "net_IP net"] assms(2) len by simp
qed

lemma parseIPv4_loop_4: "parseIPv4_loop 4 = parseIPv4_loop (Suc (Suc (Suc (Suc 0))))"
  by (simp add: eval_nat_numeral)

end
