(* ===== verification/IPAlloc.thy ===== *)
theory IPAlloc
  imports Comm Go_Net
begin

text \<open>
  \<open>src/provisioner/ipam/ipalloc/ipalloc.go\<close>: the address manager. The file \<open>db_file\<close> is the list of
  records it holds (\<^term>\<open>None\<close>: not readable); a write succeeds or not as an argument says. The loop
  of \<open>addService\<close> is a partial function, as it does not end on a full network \<open>/0\<close>.
\<close>

section \<open>Records\<close>

record IPAMRecord =
  rec_IP :: string
  rec_Host :: string

record ipalloc =
  ia_NetworkCidr :: string
  ia_Records :: "IPAMRecord list"
  ia_file :: "IPAMRecord list option"

definition db_save :: "bool \<Rightarrow> ipalloc \<Rightarrow> string option \<times> ipalloc" where
  "db_save writable i =
     (if writable then (None, i\<lparr>ia_file := Some (ia_Records i)\<rparr>) else (Some ''open: permission denied'', i))"

definition db_load :: "ipalloc \<Rightarrow> string option \<times> ipalloc" where
  "db_load i =
     (case ia_file i of
        None \<Rightarrow> (Some ''open: no such file or directory'', i)
      | Some f \<Rightarrow> (None, i\<lparr>ia_Records := f\<rparr>))"

definition isIPFree :: "ipv6_text \<Rightarrow> IPAMRecord list \<Rightarrow> IP \<Rightarrow> bool" where
  "isIPFree t recs ip = list_all (\<lambda>r. IP_String t ip \<noteq> rec_IP r) recs"

definition getServiceByName :: "string \<Rightarrow> IPAMRecord list \<Rightarrow> IPAMRecord" where
  "getServiceByName name recs =
     (case find (\<lambda>v. rec_Host v = name) recs of
        Some v \<Rightarrow> v | None \<Rightarrow> \<lparr>rec_IP = '''', rec_Host = ''''\<rparr>)"

definition serviceExist :: "Message \<Rightarrow> ipalloc \<Rightarrow> bool" where
  "serviceExist msg i = list_ex (\<lambda>v. rec_Host v = svc_Name (msg_Service msg)) (ia_Records i)"

fun remove_record :: "string \<Rightarrow> IPAMRecord list \<Rightarrow> IPAMRecord list option" where
  "remove_record name [] = None"
| "remove_record name (v # vs) =
     (if rec_Host v = name then Some vs else map_option ((#) v) (remove_record name vs))"

definition deleteService :: "string \<Rightarrow> ipalloc \<Rightarrow> string option \<times> ipalloc" where
  "deleteService name i =
     (case remove_record name (ia_Records i) of
        Some recs \<Rightarrow> (None, i\<lparr>ia_Records := recs\<rparr>)
      | None \<Rightarrow> (Some (''Could not find record for '' @ name), i))"

section \<open>Allocation\<close>

text \<open>Bytes are incremented from the last one on, while they wrap to 0.\<close>

fun increment_bytes :: "byte list \<Rightarrow> byte list" where
  "increment_bytes [] = []"
| "increment_bytes (b # bs) = (let b = b + 1 in if b > 0 then b # bs else b # increment_bytes bs)"

definition incrementIP :: "IP \<Rightarrow> IP" where
  "incrementIP ip = rev (increment_bytes (rev ip))"

partial_function (option) free_address :: "ipv6_text \<Rightarrow> IPNet \<Rightarrow> IPAMRecord list \<Rightarrow> IP \<Rightarrow> IP option option" where
  "free_address t ipnet recs ip =
     (if \<not> IPNet_Contains ipnet ip then Some None
      else if IsMulticast ip \<or> Contains (IPNet_String t ipnet) (IP_String t ip)
      then free_address t ipnet recs (incrementIP ip)
      else if isIPFree t recs ip then Some (Some ip)
      else free_address t ipnet recs (incrementIP ip))"

definition addService :: "ipv6_text \<Rightarrow> bool \<Rightarrow> string \<Rightarrow> ipalloc \<Rightarrow> ((string + string) \<times> ipalloc) option" where
  "addService t writable name i =
     (case ParseCIDR t (ia_NetworkCidr i) of
        Inl err \<Rightarrow> Some (Inl err, i)
      | Inr (ip, ipnet) \<Rightarrow>
          Option.bind (free_address t ipnet (ia_Records i) (Mask ip (net_Mask ipnet))) (\<lambda>r. case r of
              None \<Rightarrow> Some (Inl ''no available IPAM'', i)
            | Some ip \<Rightarrow>
                (let newRec = \<lparr>rec_IP = IP_String t ip, rec_Host = name\<rparr>;
                     i = i\<lparr>ia_Records := ia_Records i @ [newRec]\<rparr>;
                     i = snd (db_save writable i)
                 in Some (Inr (IP_String t ip), i))))"

section \<open>The message loop\<close>

text \<open>\<open>Start\<close> loads the records and then answers every message with one message.\<close>

definition ipalloc_start :: "ipalloc \<Rightarrow> ipalloc" where
  "ipalloc_start i = snd (db_load i)"

definition ipalloc_receive :: "ipv6_text \<Rightarrow> bool \<Rightarrow> Message \<Rightarrow> ipalloc \<Rightarrow> (Message \<times> ipalloc) option" where
  "ipalloc_receive t writable msg i =
     (if msg_Action msg = DeleteAction then
        (let msg = msg\<lparr>msg_Action := UpdateAction\<rparr> in
         case deleteService (svc_Name (msg_Service msg)) i of
           (Some err, i) \<Rightarrow> Some (msg\<lparr>msg_Error := err\<rparr>, i)
         | (None, i) \<Rightarrow>
             (let i = snd (db_save writable i)
              in Some (msg\<lparr>msg_Service := (msg_Service msg)\<lparr>svc_PublicIP := ''''\<rparr>\<rparr>, i)))
      else
        (let msg = msg\<lparr>msg_Action := UpdateAction\<rparr> in
         if serviceExist msg i then
           (let record = getServiceByName (svc_Name (msg_Service msg)) (ia_Records i);
                msg = msg\<lparr>msg_Service := (msg_Service msg)\<lparr>svc_Name := rec_Host record\<rparr>\<rparr>;
                msg = msg\<lparr>msg_Service := (msg_Service msg)\<lparr>svc_PublicIP := rec_IP record\<rparr>\<rparr>
            in Some (msg, i))
         else
           Option.bind (addService t writable (svc_Name (msg_Service msg)) i) (\<lambda>(r, i). case r of
               Inl err \<Rightarrow> Some (msg\<lparr>msg_Error := err\<rparr>, i)
             | Inr ip \<Rightarrow> Some (msg\<lparr>msg_Service := (msg_Service msg)\<lparr>svc_PublicIP := ip\<rparr>\<rparr>, i))))"

section \<open>Incrementing\<close>

lemma length_increment_bytes [simp]: "length (increment_bytes bs) = length bs"
  by (induction bs) (auto simp: Let_def)

lemma length_incrementIP [simp]: "length (incrementIP ip) = length ip"
  by (simp add: incrementIP_def)

lemma ip_val_snoc: "ip_val (bs @ [b]) = 256 * ip_val bs + unat b"
  by (induction bs) (simp_all add: algebra_simps)

lemma byte_inc:
  fixes b :: byte
  shows "b + 1 > 0 \<Longrightarrow> unat (b + 1) = unat b + 1 \<and> unat b < 255"
    and "\<not> b + 1 > 0 \<Longrightarrow> b + 1 = 0 \<and> unat b = 255"
proof -
  have u: "unat (b + 1) = (unat b + 1) mod 256" by (simp add: unat_word_ariths)
  have lt: "unat b < 256" by (rule byte_less)
  show "unat (b + 1) = unat b + 1 \<and> unat b < 255" if "b + 1 > 0"
  proof -
    have "unat (b + 1) \<noteq> 0" using that by (simp add: word_gt_0 unat_eq_0)
    then have "unat b \<noteq> 255" using u by auto
    then show ?thesis using u lt by simp
  qed
  show "b + 1 = 0 \<and> unat b = 255" if "\<not> b + 1 > 0"
  proof -
    have z: "b + 1 = 0" using that by (simp add: word_gt_0)
    then have "(unat b + 1) mod 256 = 0" using u by (metis unat_0)
    then have "unat b = 255" using lt by (cases "unat b = 255") auto
    then show ?thesis using z by simp
  qed
qed

lemma ip_val_increment: "ip_val (incrementIP ip) = (ip_val ip + 1) mod 256 ^ length ip"
proof -
  have "ip_val (rev (increment_bytes bs)) = (ip_val (rev bs) + 1) mod 256 ^ length bs" for bs
  proof (induction bs)
    case (Cons b bs)
    let ?v = "ip_val (rev bs)" and ?k = "(256::nat) ^ length bs"
    have v: "?v < ?k" using ip_val_less [of "rev bs"] by simp
    show ?case
    proof (cases "b + 1 > 0")
      case True
      then have "256 * ?v + unat b + 1 < 256 * ?k" using byte_inc(1) [OF True] v by linarith
      then show ?thesis using True byte_inc(1) [OF True] by (simp add: Let_def ip_val_snoc)
    next
      case False
      then have "ip_val (rev (increment_bytes (b # bs))) = 256 * ((?v + 1) mod ?k)"
        using byte_inc(2) [OF False] Cons by (simp add: Let_def ip_val_snoc)
      also have "\<dots> = (256 * (?v + 1)) mod (256 * ?k)" by (rule mult_mod_right)
      finally show ?thesis using byte_inc(2) [OF False] by (simp add: ip_val_snoc)
    qed
  qed simp
  from this [of "rev ip"] show ?thesis by (simp add: incrementIP_def)
qed

section \<open>The loop over the addresses of a network\<close>

lemma net_top:
  assumes "v4_net net n"
  shows "ip_val (net_IP net) + net_size n \<le> 2 ^ 32"
proof -
  have len: "length (net_IP net) = 4" and n: "n \<le> 32" using assms by (simp_all add: v4_net_def)
  have "ip_val (net_IP net) < 2 ^ 32" using ip_val_less [of "net_IP net"] len by simp
  moreover have "net_size n dvd 2 ^ 32" unfolding net_size_def by (rule le_imp_power_dvd) simp
  then obtain c where "2 ^ 32 = net_size n * c" ..
  moreover obtain q where "ip_val (net_IP net) = net_size n * q" using net_lowest [OF assms] ..
  moreover have k: "0 < net_size n" by (simp add: net_size_def)
  ultimately have "net_size n * q < net_size n * c" "2 ^ 32 = net_size n * c" "ip_val (net_IP net) = net_size n * q"
    by simp_all
  then have "net_size n * Suc q \<le> net_size n * c" using k by (intro mult_le_mono2) simp
  then show ?thesis using \<open>2 ^ 32 = net_size n * c\<close> \<open>ip_val (net_IP net) = net_size n * q\<close> by simp
qed

text \<open>An address that may be handed out.\<close>

definition usable :: "IPNet \<Rightarrow> IPAMRecord list \<Rightarrow> IP \<Rightarrow> bool" where
  "usable net recs ip \<longleftrightarrow> ip \<noteq> net_IP net \<and> \<not> IsMulticast ip \<and> dotted ip \<notin> rec_IP ` set recs"

definition addresses_from :: "IPNet \<Rightarrow> nat \<Rightarrow> nat \<Rightarrow> IP list" where
  "addresses_from net n v = map (bytes_of 4) [v..<ip_val (net_IP net) + net_size n]"

lemma isIPFree_v4: "length ip = 4 \<Longrightarrow> isIPFree t recs ip \<longleftrightarrow> dotted ip \<notin> rec_IP ` set recs"
  by (auto simp: isIPFree_def IP_String_v4 list_all_iff)

lemma free_address_v4:
  assumes "v4_net net n" and "0 < n"
  shows "length ip = 4 \<Longrightarrow> ip_val (net_IP net) \<le> ip_val ip \<Longrightarrow>
    ip_val ip \<le> ip_val (net_IP net) + net_size n \<Longrightarrow> ip_val ip < 2 ^ 32 \<Longrightarrow>
    free_address t net recs ip = Some (find (usable net recs) (addresses_from net n (ip_val ip)))"
proof (induction "ip_val (net_IP net) + net_size n - ip_val ip" arbitrary: ip rule: less_induct)
  case less
  let ?top = "ip_val (net_IP net) + net_size n"
  show ?case
  proof (cases "ip_val ip < ?top")
    case False
    then have "\<not> IPNet_Contains net ip" using Contains_v4_interval [OF assms(1) less.prems(1)] by simp
    then show ?thesis using False by (subst free_address.simps) (simp add: addresses_from_def)
  next
    case True
    then have c: "IPNet_Contains net ip"
      using Contains_v4_interval [OF assms(1) less.prems(1)] less.prems(2) by simp
    have skip: "IsMulticast ip \<or> Contains (IPNet_String t net) (IP_String t ip) \<longleftrightarrow>
        IsMulticast ip \<or> ip = net_IP net"
      using Contains_net_text [OF assms(1) less.prems(1) c] by simp
    have list: "addresses_from net n (ip_val ip) = ip # addresses_from net n (Suc (ip_val ip))"
      using True bytes_of_ip_val [OF less.prems(1)] by (simp add: addresses_from_def upt_conv_Cons)
    have rest: "free_address t net recs (incrementIP ip) =
        Some (find (usable net recs) (addresses_from net n (Suc (ip_val ip))))"
    proof (cases "Suc (ip_val ip) < 2 ^ 32")
      case lt: True
      then have "ip_val (incrementIP ip) = Suc (ip_val ip)"
        using ip_val_increment [of ip] less.prems(1) by simp
      then show ?thesis using less.hyps [of "incrementIP ip"] less.prems True lt by simp
    next
      case False
      then have e: "Suc (ip_val ip) = 2 ^ 32" using less.prems(4) by simp
      then have "?top = 2 ^ 32" using net_top [OF assms(1)] True by simp
      moreover have "ip_val (incrementIP ip) = 0"
        using ip_val_increment [of ip] less.prems(1) e by simp
      moreover have "net_size n < 2 ^ 32"
        unfolding net_size_def using assms by (intro power_strict_increasing) (auto simp: v4_net_def)
      ultimately have "\<not> IPNet_Contains net (incrementIP ip)"
        using Contains_v4_interval [OF assms(1), of "incrementIP ip"] less.prems(1) by simp
      then show ?thesis using e \<open>?top = 2 ^ 32\<close>
        by (subst free_address.simps) (simp add: addresses_from_def)
    qed
    show ?thesis
      using c skip rest isIPFree_v4 [OF less.prems(1)]
      by (subst free_address.simps) (auto simp: list usable_def)
  qed
qed

lemma find_Some_D: "find p xs = Some x \<Longrightarrow> p x \<and> x \<in> set xs"
  by (auto simp: find_Some_iff)

lemma find_bytes_lowest:
  assumes "find p (map f [v..<w]) = Some x"
  shows "\<exists>u. v \<le> u \<and> u < w \<and> x = f u \<and> p x \<and> (\<forall>k. v \<le> k \<and> k < u \<longrightarrow> \<not> p (f k))"
proof -
  obtain i where i: "i < length (map f [v..<w])" "p (map f [v..<w] ! i)" "x = map f [v..<w] ! i"
    "\<forall>j<i. \<not> p (map f [v..<w] ! j)"
    using assms by (auto simp: find_Some_iff)
  have "\<not> p (f k)" if "v \<le> k" "k < v + i" for k
    using i(4) [rule_format, of "k - v"] i(1) that by simp
  with i show ?thesis by (intro exI [of _ "v + i"]) simp
qed

text \<open>The state of an address manager of an IPv4 network (not \<open>/0\<close>).\<close>

definition manages :: "ipv6_text \<Rightarrow> IPNet \<Rightarrow> nat \<Rightarrow> ipalloc \<Rightarrow> bool" where
  "manages t net n i \<longleftrightarrow>
     v4_net net n \<and> 0 < n \<and> (\<exists>ip. ParseCIDR t (ia_NetworkCidr i) = Inr (ip, net)) \<and>
     distinct (map rec_IP (ia_Records i)) \<and> distinct (map rec_Host (ia_Records i))"

definition next_free :: "IPNet \<Rightarrow> nat \<Rightarrow> IPAMRecord list \<Rightarrow> IP option" where
  "next_free net n recs = find (usable net recs) (addresses_from net n (ip_val (net_IP net)))"

lemma db_save_frame [simp]:
  "ia_Records (snd (db_save w i)) = ia_Records i"
  "ia_NetworkCidr (snd (db_save w i)) = ia_NetworkCidr i"
  by (simp_all add: db_save_def)

lemma length_addresses: "ip \<in> set (addresses_from net n v) \<Longrightarrow> length ip = 4"
  by (auto simp: addresses_from_def)

definition add_record :: "bool \<Rightarrow> string \<Rightarrow> string \<Rightarrow> ipalloc \<Rightarrow> ipalloc" where
  "add_record w ip name i =
     snd (db_save w (i\<lparr>ia_Records := ia_Records i @ [\<lparr>rec_IP = ip, rec_Host = name\<rparr>]\<rparr>))"

lemma add_record_simps [simp]:
  "ia_Records (add_record w ip name i) = ia_Records i @ [\<lparr>rec_IP = ip, rec_Host = name\<rparr>]"
  "ia_NetworkCidr (add_record w ip name i) = ia_NetworkCidr i"
  by (simp_all add: add_record_def)

lemma addService_v4:
  assumes "manages t net n i"
  shows "addService t w name i = Some (case next_free net n (ia_Records i) of
      None \<Rightarrow> (Inl ''no available IPAM'', i)
    | Some ip \<Rightarrow> (Inr (dotted ip), add_record w (dotted ip) name i))"
proof -
  obtain ip where ip: "ParseCIDR t (ia_NetworkCidr i) = Inr (ip, net)"
    and net: "v4_net net n" "0 < n" using assms by (auto simp: manages_def)
  have len: "length (net_IP net) = 4" "length (net_Mask net) = 4" using net by (simp_all add: v4_net_def)
  have m: "Mask ip (net_Mask net) = net_IP net" using ParseCIDR_v4(1) [OF ip len(2)] .
  have "ip_val (net_IP net) < 2 ^ 32" using ip_val_less [of "net_IP net"] len by simp
  then have "free_address t net (ia_Records i) (net_IP net) = Some (next_free net n (ia_Records i))"
    unfolding next_free_def using net len by (intro free_address_v4) simp_all
  moreover have "IP_String t a = dotted a" if "next_free net n (ia_Records i) = Some a" for a
    using length_addresses find_Some_D [OF that [unfolded next_free_def], THEN conjunct2] by (intro IP_String_v4) blast
  ultimately show ?thesis
    using ip m by (auto simp: addService_def add_record_def Let_def split: option.splits)
qed

section \<open>Which service holds which address\<close>

definition address_of :: "ipalloc \<Rightarrow> string \<Rightarrow> string option" where
  "address_of i name = map_option rec_IP (find (\<lambda>v. rec_Host v = name) (ia_Records i))"

lemma address_of_iff:
  assumes "distinct (map rec_Host (ia_Records i))"
  shows "address_of i name = Some ip \<longleftrightarrow> (\<exists>v\<in>set (ia_Records i). rec_Host v = name \<and> rec_IP v = ip)"
proof
  assume "address_of i name = Some ip"
  then obtain v where v: "find (\<lambda>v. rec_Host v = name) (ia_Records i) = Some v" "rec_IP v = ip"
    by (auto simp: address_of_def)
  from find_Some_D [OF v(1)] v(2)
  show "\<exists>v\<in>set (ia_Records i). rec_Host v = name \<and> rec_IP v = ip" by blast
next
  assume "\<exists>v\<in>set (ia_Records i). rec_Host v = name \<and> rec_IP v = ip"
  then obtain u where u: "u \<in> set (ia_Records i)" "rec_Host u = name" "rec_IP u = ip" by blast
  then obtain v where v: "find (\<lambda>v. rec_Host v = name) (ia_Records i) = Some v"
    by (cases "find (\<lambda>v. rec_Host v = name) (ia_Records i)") (auto simp: find_None_iff)
  from find_Some_D [OF this] have "v = u" using assms u by (auto simp: distinct_map dest: inj_onD)
  then show "address_of i name = Some ip" using v u by (simp add: address_of_def)
qed

lemma address_of_None_iff: "address_of i name = None \<longleftrightarrow> name \<notin> rec_Host ` set (ia_Records i)"
  by (auto simp: address_of_def find_None_iff)

lemma ran_address_of:
  "distinct (map rec_Host (ia_Records i)) \<Longrightarrow> ran (address_of i) = rec_IP ` set (ia_Records i)"
proof (intro set_eqI iffI)
  fix ip assume d: "distinct (map rec_Host (ia_Records i))"
  show "ip \<in> ran (address_of i) \<Longrightarrow> ip \<in> rec_IP ` set (ia_Records i)"
    using address_of_iff [OF d] by (force simp: ran_def)
  assume "ip \<in> rec_IP ` set (ia_Records i)"
  then obtain v where "v \<in> set (ia_Records i)" "ip = rec_IP v" by blast
  then have "address_of i (rec_Host v) = Some ip" by (auto simp: address_of_iff [OF d])
  then show "ip \<in> ran (address_of i)" by (auto simp: ran_def)
qed

lemma address_of_add:
  assumes "address_of i name = None"
  shows "address_of (add_record w ip name i) = (address_of i)(name \<mapsto> ip)"
proof (rule ext)
  fix k
  have "find p (xs @ [y]) = (case find p xs of None \<Rightarrow> if p y then Some y else None | Some z \<Rightarrow> Some z)"
    for p and xs :: "IPAMRecord list" and y by (induction xs) auto
  then show "address_of (add_record w ip name i) k = ((address_of i)(name \<mapsto> ip)) k"
    using assms by (auto simp: address_of_def split: option.splits)
qed

lemma remove_record_Some:
  "remove_record name recs = Some recs' \<Longrightarrow> distinct (map rec_Host recs) \<Longrightarrow>
     recs' = filter (\<lambda>v. rec_Host v \<noteq> name) recs"
proof (induction recs arbitrary: recs')
  case (Cons v vs)
  show ?case
  proof (cases "rec_Host v = name")
    case True
    then have "filter (\<lambda>v. rec_Host v \<noteq> name) vs = vs"
      using Cons.prems(2) by (intro filter_True) (metis distinct.simps(2) image_eqI list.map(2) list.set_map)
    then show ?thesis using Cons.prems(1) True by simp
  next
    case False
    then show ?thesis using Cons by auto
  qed
qed simp

lemma remove_record_None_iff: "remove_record name recs = None \<longleftrightarrow> name \<notin> rec_Host ` set recs"
  by (induction recs) auto

lemma address_of_remove:
  "address_of (i\<lparr>ia_Records := filter (\<lambda>v. rec_Host v \<noteq> name) (ia_Records i)\<rparr>) = (address_of i)(name := None)"
proof (rule ext)
  fix k
  have "find (\<lambda>v. rec_Host v = k) (filter (\<lambda>v. rec_Host v \<noteq> name) recs) =
      (if k = name then None else find (\<lambda>v. rec_Host v = k) recs)" for recs :: "IPAMRecord list"
    by (induction recs) auto
  then show "address_of (i\<lparr>ia_Records := filter (\<lambda>v. rec_Host v \<noteq> name) (ia_Records i)\<rparr>) k =
      ((address_of i)(name := None)) k"
    by (simp add: address_of_def)
qed

lemma address_of_save [simp]: "address_of (snd (db_save w i)) = address_of i"
  by (rule ext) (simp add: address_of_def)

section \<open>The contract of an address manager\<close>

datatype alloc_op = Request string | Release string

definition alloc_step :: "(string \<Rightarrow> 's \<Rightarrow> string option \<times> 's) \<Rightarrow> (string \<Rightarrow> 's \<Rightarrow> 's) \<Rightarrow> alloc_op \<Rightarrow> 's \<Rightarrow> 's" where
  "alloc_step request release c s = (case c of Request n \<Rightarrow> snd (request n s) | Release n \<Rightarrow> release n s)"

text \<open>
  What the core relies on: a service that holds an address is given the same one again, a new one
  is given an address nobody holds, a release frees the service's address and no other.
\<close>

locale allocator =
  fixes good :: "'s \<Rightarrow> bool"
    and lookup :: "'s \<Rightarrow> string \<Rightarrow> string option"
    and request :: "string \<Rightarrow> 's \<Rightarrow> string option \<times> 's"
    and release :: "string \<Rightarrow> 's \<Rightarrow> 's"
  assumes request_good: "good s \<Longrightarrow> good (snd (request n s))"
    and release_good: "good s \<Longrightarrow> good (release n s)"
    and request_held: "good s \<Longrightarrow> lookup s n = Some a \<Longrightarrow> request n s = (Some a, s)"
    and request_new: "good s \<Longrightarrow> lookup s n = None \<Longrightarrow> fst (request n s) = Some a \<Longrightarrow>
      a \<notin> ran (lookup s) \<and> lookup (snd (request n s)) = (lookup s)(n \<mapsto> a)"
    and request_refused: "good s \<Longrightarrow> lookup s n = None \<Longrightarrow> fst (request n s) = None \<Longrightarrow>
      lookup (snd (request n s)) = lookup s"
    and release_lookup: "good s \<Longrightarrow> lookup (release n s) = (lookup s)(n := None)"
begin

lemma step_good: "good s \<Longrightarrow> good (alloc_step request release c s)"
  by (cases c) (simp_all add: alloc_step_def request_good release_good)

lemma run_good: "good s \<Longrightarrow> good (fold (alloc_step request release) cs s)"
  by (induction cs arbitrary: s) (simp_all add: step_good)

lemma step_lookup:
  assumes "good s"
  obtains "lookup (alloc_step request release c s) = lookup s"
  | n a where "c = Request n" "lookup s n = None" "a \<notin> ran (lookup s)"
      "lookup (alloc_step request release c s) = (lookup s)(n \<mapsto> a)"
  | n where "c = Release n" "lookup (alloc_step request release c s) = (lookup s)(n := None)"
proof (cases c)
  case (Request n)
  show ?thesis
  proof (cases "lookup s n")
    case (Some a)
    then show ?thesis using request_held [OF assms Some] Request that(1) by (simp add: alloc_step_def)
  next
    case None
    show ?thesis
    proof (cases "fst (request n s)")
      case None': None
      then show ?thesis using request_refused [OF assms None] Request that(1) by (simp add: alloc_step_def)
    next
      case (Some a)
      then show ?thesis
        using request_new [OF assms None Some] Request None by (intro that(2)) (simp_all add: alloc_step_def)
    qed
  qed
next
  case (Release n)
  then show ?thesis using release_lookup [OF assms] that(3) by (simp add: alloc_step_def)
qed

lemma step_unshared:
  assumes "good s" and "inj_on (lookup s) (dom (lookup s))"
  shows "inj_on (lookup (alloc_step request release c s)) (dom (lookup (alloc_step request release c s)))"
  using assms(1)
proof (cases rule: step_lookup [where c = c])
  case 1
  then show ?thesis using assms(2) by simp
next
  case (2 n a)
  then show ?thesis using assms(2)
    by (auto simp: inj_on_def ran_def)
next
  case (3 n)
  then show ?thesis using assms(2) by (auto simp: inj_on_def)
qed

lemma run_unshared:
  "good s \<Longrightarrow> inj_on (lookup s) (dom (lookup s)) \<Longrightarrow>
     inj_on (lookup (fold (alloc_step request release) cs s)) (dom (lookup (fold (alloc_step request release) cs s)))"
  by (induction cs arbitrary: s) (simp_all add: step_good step_unshared)

lemma step_keeps:
  assumes "good s" and "lookup s n = Some a" and "Release n \<noteq> c"
  shows "lookup (alloc_step request release c s) n = Some a"
  using assms(1) by (cases rule: step_lookup [where c = c]) (use assms in auto)

lemma run_keeps:
  "good s \<Longrightarrow> lookup s n = Some a \<Longrightarrow> Release n \<notin> set cs \<Longrightarrow>
     lookup (fold (alloc_step request release) cs s) n = Some a"
  by (induction cs arbitrary: s) (simp_all add: step_good step_keeps)

lemma request_after_run:
  "good s \<Longrightarrow> lookup s n = Some a \<Longrightarrow> Release n \<notin> set cs \<Longrightarrow>
     fst (request n (fold (alloc_step request release) cs s)) = Some a"
  using request_held [OF run_good run_keeps] by simp

end

section \<open>The address manager keeps the contract\<close>

definition ipalloc_request :: "IPNet \<Rightarrow> nat \<Rightarrow> bool \<Rightarrow> string \<Rightarrow> ipalloc \<Rightarrow> string option \<times> ipalloc" where
  "ipalloc_request net n w name i =
     (case address_of i name of
        Some a \<Rightarrow> (Some a, i)
      | None \<Rightarrow> (case next_free net n (ia_Records i) of
            None \<Rightarrow> (None, i) | Some ip \<Rightarrow> (Some (dotted ip), add_record w (dotted ip) name i)))"

definition ipalloc_release :: "bool \<Rightarrow> string \<Rightarrow> ipalloc \<Rightarrow> ipalloc" where
  "ipalloc_release w name i =
     (case address_of i name of
        None \<Rightarrow> i
      | Some a \<Rightarrow> snd (db_save w (i\<lparr>ia_Records := filter (\<lambda>v. rec_Host v \<noteq> name) (ia_Records i)\<rparr>)))"

lemma next_free_unused: "next_free net n recs = Some ip \<Longrightarrow> dotted ip \<notin> rec_IP ` set recs"
  unfolding next_free_def using find_Some_D by (fastforce simp: usable_def)

lemma manages_add:
  assumes "manages t net n i" and "address_of i name = None" and "ip \<notin> rec_IP ` set (ia_Records i)"
  shows "manages t net n (add_record w ip name i)"
  using assms by (auto simp: manages_def address_of_None_iff)

lemma manages_release:
  assumes "manages t net n i"
  shows "manages t net n (ipalloc_release w name i)"
  using assms by (auto simp: manages_def ipalloc_release_def distinct_map_filter split: option.splits)

interpretation book: allocator "manages t net n" address_of "ipalloc_request net n w" "ipalloc_release w"
  for t net n w
proof
  fix s :: ipalloc and name a
  assume m: "manages t net n s"
  then have d: "distinct (map rec_Host (ia_Records s))" by (simp add: manages_def)
  show "manages t net n (snd (ipalloc_request net n w name s))"
    using m manages_add [OF m _ next_free_unused]
    by (auto simp: ipalloc_request_def split: option.splits)
  show "manages t net n (ipalloc_release w name s)" by (rule manages_release [OF m])
  show "address_of s name = Some a \<Longrightarrow> ipalloc_request net n w name s = (Some a, s)"
    by (simp add: ipalloc_request_def)
  show "address_of (ipalloc_release w name s) = (address_of s)(name := None)"
    using address_of_remove [where i = s and name = name]
    by (auto simp: ipalloc_release_def fun_eq_iff split: option.splits)
  assume n: "address_of s name = None"
  show "fst (ipalloc_request net n w name s) = None \<Longrightarrow>
      address_of (snd (ipalloc_request net n w name s)) = address_of s"
    using n by (auto simp: ipalloc_request_def split: option.splits)
  show "fst (ipalloc_request net n w name s) = Some a \<Longrightarrow> a \<notin> ran (address_of s) \<and>
      address_of (snd (ipalloc_request net n w name s)) = (address_of s)(name \<mapsto> a)"
    using n address_of_add [OF n] ran_address_of [OF d]
    by (auto simp: ipalloc_request_def split: option.splits dest!: next_free_unused)
qed

section \<open>Messages\<close>

definition op_of :: "Message \<Rightarrow> alloc_op" where
  "op_of m = (if msg_Action m = DeleteAction then Release (svc_Name (msg_Service m))
              else Request (svc_Name (msg_Service m)))"

definition with_address :: "string \<Rightarrow> Message \<Rightarrow> Message" where
  "with_address a m = m\<lparr>msg_Action := UpdateAction, msg_Service := (msg_Service m)\<lparr>svc_PublicIP := a\<rparr>\<rparr>"

definition with_error :: "string \<Rightarrow> Message \<Rightarrow> Message" where
  "with_error err m = m\<lparr>msg_Action := UpdateAction, msg_Error := err\<rparr>"

definition ipalloc_reply :: "IPNet \<Rightarrow> nat \<Rightarrow> bool \<Rightarrow> ipalloc \<Rightarrow> Message \<Rightarrow> Message" where
  "ipalloc_reply net n w i m =
     (let name = svc_Name (msg_Service m) in
      if msg_Action m = DeleteAction then
        (if address_of i name = None then with_error (''Could not find record for '' @ name) m
         else with_address '''' m)
      else (case fst (ipalloc_request net n w name i) of
          None \<Rightarrow> with_error ''no available IPAM'' m | Some a \<Rightarrow> with_address a m))"

text \<open>Every message is answered with one message, and the state follows the contract's operations.\<close>

lemma ipalloc_receive_eq:
  assumes "manages t net n i"
  shows "ipalloc_receive t w m i = Some (ipalloc_reply net n w i m,
    alloc_step (ipalloc_request net n w) (ipalloc_release w) (op_of m) i)"
proof -
  let ?name = "svc_Name (msg_Service m)"
  have d: "distinct (map rec_Host (ia_Records i))" using assms by (simp add: manages_def)
  have ex: "serviceExist (m\<lparr>msg_Action := UpdateAction\<rparr>) i \<longleftrightarrow> address_of i ?name \<noteq> None"
    by (force simp: serviceExist_def address_of_None_iff list_ex_iff image_iff)
  have rec: "rec_IP (getServiceByName ?name (ia_Records i)) = a \<and>
      rec_Host (getServiceByName ?name (ia_Records i)) = ?name" if "address_of i ?name = Some a" for a
    using that by (auto simp: address_of_def getServiceByName_def dest: find_Some_D)
  show ?thesis
  proof (cases "msg_Action m = DeleteAction")
    case True
    show ?thesis
    proof (cases "address_of i ?name")
      case None
      then have "remove_record ?name (ia_Records i) = None"
        by (simp add: remove_record_None_iff address_of_None_iff)
      then show ?thesis using True None
        by (simp add: ipalloc_receive_def deleteService_def ipalloc_reply_def with_error_def op_of_def
            alloc_step_def ipalloc_release_def Let_def)
    next
      case (Some a)
      then have "remove_record ?name (ia_Records i) \<noteq> None"
        by (simp add: remove_record_None_iff address_of_None_iff [symmetric])
      then have "remove_record ?name (ia_Records i) = Some (filter (\<lambda>v. rec_Host v \<noteq> ?name) (ia_Records i))"
        using remove_record_Some d by blast
      then show ?thesis using True Some
        by (simp add: ipalloc_receive_def deleteService_def ipalloc_reply_def with_address_def op_of_def
            alloc_step_def ipalloc_release_def Let_def)
    qed
  next
    case False
    show ?thesis
    proof (cases "address_of i ?name")
      case None
      then show ?thesis using False ex addService_v4 [OF assms]
        by (auto simp: ipalloc_receive_def ipalloc_reply_def with_error_def with_address_def op_of_def
            alloc_step_def ipalloc_request_def Let_def split: option.splits)
    next
      case (Some a)
      then show ?thesis using False ex rec [OF Some]
        by (simp add: ipalloc_receive_def ipalloc_reply_def with_address_def op_of_def
            alloc_step_def ipalloc_request_def Let_def)
    qed
  qed
qed

text \<open>A sequence of messages.\<close>

fun ipalloc_serve :: "ipv6_text \<Rightarrow> bool \<Rightarrow> Message list \<Rightarrow> ipalloc \<Rightarrow> (Message list \<times> ipalloc) option" where
  "ipalloc_serve t w [] i = Some ([], i)"
| "ipalloc_serve t w (m # ms) i =
     Option.bind (ipalloc_receive t w m i) (\<lambda>(r, i).
     Option.bind (ipalloc_serve t w ms i) (\<lambda>(rs, i). Some (r # rs, i)))"

lemma ipalloc_serve_run:
  "manages t net n i \<Longrightarrow> \<exists>rs. ipalloc_serve t w ms i =
     Some (rs, fold (alloc_step (ipalloc_request net n w) (ipalloc_release w)) (map op_of ms) i) \<and>
     length rs = length ms"
proof (induction ms arbitrary: i)
  case (Cons m ms)
  let ?i = "alloc_step (ipalloc_request net n w) (ipalloc_release w) (op_of m) i"
  have "manages t net n ?i" by (rule book.step_good [OF Cons.prems])
  from Cons.IH [OF this] show ?case using ipalloc_receive_eq [OF Cons.prems] by auto
qed simp

section \<open>Properties\<close>

text \<open>
  C18. The address manager answers every message with exactly one message, whatever its state: an
  update for the same service with the same definition, carrying either an address (empty after a
  deletion) or an error; its records keep one address per service and one service per address.
\<close>

theorem ipalloc_answers:
  assumes "manages t net n i" and "msg_Error m = ''''"
  shows "\<exists>r i'. ipalloc_receive t w m i = Some (r, i') \<and> manages t net n i' \<and>
    msg_Action r = UpdateAction \<and> svc_Name (msg_Service r) = svc_Name (msg_Service m) \<and>
    svc_Targets (msg_Service r) = svc_Targets (msg_Service m) \<and>
    (msg_Action m = DeleteAction \<and> msg_Error r = '''' \<longrightarrow> svc_PublicIP (msg_Service r) = '''') \<and>
    (msg_Action m \<noteq> DeleteAction \<and> msg_Error r = '''' \<longrightarrow>
       address_of i' (svc_Name (msg_Service m)) = Some (svc_PublicIP (msg_Service r)))"
proof -
  let ?name = "svc_Name (msg_Service m)"
  have held: "address_of (snd (ipalloc_request net n w ?name i)) ?name = Some a"
    if "fst (ipalloc_request net n w ?name i) = Some a" for a
    using that book.request_held [OF assms(1), of ?name] book.request_new [OF assms(1), of ?name]
    by (cases "address_of i ?name") auto
  show ?thesis
    unfolding ipalloc_receive_eq [OF assms(1)]
    using book.step_good [OF assms(1)] assms(2) held
    by (auto simp: ipalloc_reply_def with_address_def with_error_def op_of_def alloc_step_def Let_def
        split: option.splits)
qed

text \<open>A small network for the witnesses: 10.0.0.0/30.\<close>

definition no_ipv6 :: ipv6_text where
  "no_ipv6 = \<lparr>parse_ipv6 = (\<lambda>s. None), show_ipv6 = (\<lambda>ip. '''')\<rparr>"

definition small_net :: IPNet where
  "small_net = \<lparr>net_IP = [10, 0, 0, 0], net_Mask = [255, 255, 255, 252]\<rparr>"

definition small_book :: "IPAMRecord list \<Rightarrow> ipalloc" where
  "small_book recs = \<lparr>ia_NetworkCidr = ''10.0.0.0/30'', ia_Records = recs, ia_file = None\<rparr>"

lemma small_manages:
  assumes "distinct (map rec_IP recs)" and "distinct (map rec_Host recs)"
  shows "manages no_ipv6 small_net 30 (small_book recs)"
proof -
  have ip: "parseIPv4 ''10.0.0.0'' = Some (v4InV6Prefix @ [10, 0, 0, 0])"
    by (simp add: parseIPv4_def parseIPv4_loop_4 dtoi_def digit_val_digits)
  have "dtoi ''30'' = (30, [], True)" by (simp add: dtoi_def digit_val_digits)
  moreover have "CIDRMask 30 32 = [255, 255, 255, 252]" by code_simp
  moreover have "and_bytes [10, 0, 0, 0] [255, 255, 255, 252] = [10, 0, 0, 0]" by code_simp
  ultimately have "ParseCIDR no_ipv6 ''10.0.0.0/30'' = Inr (v4InV6Prefix @ [10, 0, 0, 0], small_net)"
    using ip by (simp add: ParseCIDR_def Mask_def v4InV6Prefix_def small_net_def)
  moreover have "v4_net small_net 30"
    unfolding v4_net_def by code_simp
  ultimately show ?thesis using assms by (simp add: manages_def small_book_def)
qed

definition ask :: "string \<Rightarrow> string \<Rightarrow> Message" where
  "ask act name = zero_Message\<lparr>msg_Action := act, msg_Service := zero_Service\<lparr>svc_Name := name\<rparr>\<rparr>"

lemma ask_simps [simp]:
  "msg_Action (ask act name) = act" "svc_Name (msg_Service (ask act name)) = name"
  "msg_Error (ask act name) = ''''"
  by (simp_all add: ask_def zero_Message_def)

theorem ipalloc_answers_witness:
  "\<exists>r i'. ipalloc_receive no_ipv6 True (ask AddAction ''web'') (small_book []) = Some (r, i') \<and>
     msg_Action r = UpdateAction \<and> svc_Name (msg_Service r) = ''web''"
  using ipalloc_answers [OF small_manages, of "[]" "ask AddAction ''web''" True] by auto

text \<open>
  C19. A new service is given the free address with the lowest number in the network, not the
  network's own address and not a multicast one; it is refused exactly when there is none. The
  search always ends.
\<close>

theorem ipalloc_lowest_free:
  assumes "manages t net n i" and "address_of i name = None"
  shows "\<exists>r i'. addService t w name i = Some (r, i') \<and>
    (case r of
       Inr a \<Rightarrow> (\<exists>ip. a = dotted ip \<and> IPNet_Contains net ip \<and> usable net (ia_Records i) ip \<and>
         (\<forall>ip'. length ip' = 4 \<longrightarrow> IPNet_Contains net ip' \<longrightarrow> usable net (ia_Records i) ip' \<longrightarrow>
            ip_val ip \<le> ip_val ip') \<and>
         ia_Records i' = ia_Records i @ [\<lparr>rec_IP = a, rec_Host = name\<rparr>])
     | Inl err \<Rightarrow> i' = i \<and>
         \<not> (\<exists>ip'. length ip' = 4 \<and> IPNet_Contains net ip' \<and> usable net (ia_Records i) ip'))"
proof -
  let ?lo = "ip_val (net_IP net)" and ?u = "usable net (ia_Records i)"
  have net: "v4_net net n" using assms by (simp add: manages_def)
  have top: "?lo + net_size n \<le> 2 ^ 32" by (rule net_top [OF net])
  have val: "ip_val (bytes_of 4 v) = v" if "v < ?lo + net_size n" for v
    using that top by (simp add: ip_val_bytes_of)
  note within = Contains_v4_interval [OF net]
  have inside: "IPNet_Contains net (bytes_of 4 v)" if "?lo \<le> v" "v < ?lo + net_size n" for v
    using within [of "bytes_of 4 v"] val [OF that(2)] that by simp
  show ?thesis
  proof (cases "next_free net n (ia_Records i)")
    case None
    have "\<not> ?u ip" if "length ip = 4" "IPNet_Contains net ip" for ip
    proof -
      have "?lo \<le> ip_val ip \<and> ip_val ip < ?lo + net_size n" using within that by simp
      then have "bytes_of 4 (ip_val ip) \<in> set (addresses_from net n ?lo)" by (auto simp: addresses_from_def)
      then show ?thesis using None bytes_of_ip_val [OF that(1)] by (auto simp: next_free_def find_None_iff)
    qed
    then show ?thesis using None by (auto simp: addService_v4 [OF assms(1)])
  next
    case (Some ip)
    then obtain v where v: "?lo \<le> v" "v < ?lo + net_size n" "ip = bytes_of 4 v" "?u ip"
      "\<forall>k. ?lo \<le> k \<and> k < v \<longrightarrow> \<not> ?u (bytes_of 4 k)"
      using find_bytes_lowest [OF Some [unfolded next_free_def addresses_from_def]] by blast
    have "ip_val ip \<le> ip_val ip'" if "length ip' = 4" "IPNet_Contains net ip'" "?u ip'" for ip'
    proof (rule ccontr)
      assume "\<not> ip_val ip \<le> ip_val ip'"
      then have "ip_val ip' < v" using v(2,3) val by simp
      then show False using v(5) within [OF that(1)] that bytes_of_ip_val [OF that(1)] by auto
    qed
    then show ?thesis using Some v inside by (auto simp: addService_v4 [OF assms(1)])
  qed
qed

theorem ipalloc_lowest_free_witness:
  "\<exists>r i'. addService no_ipv6 True ''web'' (small_book []) = Some (r, i')"
proof -
  have "address_of (small_book []) ''web'' = None" by (simp add: address_of_def small_book_def)
  from ipalloc_lowest_free [OF small_manages this, of True] show ?thesis by fastforce
qed

text \<open>
  C20. An address is stable: as long as no deletion of the service arrives, every further request
  for it, after any sequence of messages, is answered with the address it has.
\<close>

theorem ipalloc_stable:
  assumes "manages t net n i" and "address_of i name = Some a"
    and "\<forall>m\<in>set ms. msg_Action m = DeleteAction \<longrightarrow> svc_Name (msg_Service m) \<noteq> name"
    and "msg_Action q \<noteq> DeleteAction" and "svc_Name (msg_Service q) = name"
  shows "\<exists>rs j r j'. ipalloc_serve t w ms i = Some (rs, j) \<and> length rs = length ms \<and>
    ipalloc_receive t w q j = Some (r, j') \<and> svc_PublicIP (msg_Service r) = a \<and> msg_Error r = msg_Error q"
proof -
  have "Release name \<notin> set (map op_of ms)" using assms(3) by (auto simp: op_of_def split: if_splits)
  note fact = book.request_after_run [OF assms(1,2) this, of w]
  obtain rs j where run: "ipalloc_serve t w ms i = Some (rs, j)" "length rs = length ms"
    "j = fold (alloc_step (ipalloc_request net n w) (ipalloc_release w)) (map op_of ms) i"
    using ipalloc_serve_run [OF assms(1), of w ms] by auto
  have j: "manages t net n j" using book.run_good [OF assms(1)] run(3) by simp
  have "ipalloc_receive t w q j = Some (with_address a q,
      alloc_step (ipalloc_request net n w) (ipalloc_release w) (op_of q) j)"
    unfolding ipalloc_receive_eq [OF j] using fact assms(4,5) run(3)
    by (simp add: ipalloc_reply_def Let_def)
  then show ?thesis using run by (simp add: with_address_def)
qed

theorem ipalloc_stable_witness:
  "\<exists>rs j r j'. ipalloc_serve no_ipv6 True [ask AddAction ''db'', ask DeleteAction ''db'']
       (small_book [\<lparr>rec_IP = ''10.0.0.1'', rec_Host = ''web''\<rparr>]) = Some (rs, j) \<and>
     ipalloc_receive no_ipv6 True (ask AddAction ''web'') j = Some (r, j') \<and>
     svc_PublicIP (msg_Service r) = ''10.0.0.1''"
  using ipalloc_stable [OF small_manages, of "[\<lparr>rec_IP = ''10.0.0.1'', rec_Host = ''web''\<rparr>]" "''web''"
      "''10.0.0.1''" "[ask AddAction ''db'', ask DeleteAction ''db'']" "ask AddAction ''web''" True]
  by (auto simp: address_of_def small_book_def AddAction_def DeleteAction_def)

text \<open>
  C21. No two services ever hold the same address, after any sequence of additions and deletions.
\<close>

theorem ipalloc_unshared:
  assumes "manages t net n i"
  shows "\<exists>rs j. ipalloc_serve t w ms i = Some (rs, j) \<and> length rs = length ms \<and>
    inj_on (address_of j) (dom (address_of j))"
proof -
  have h: "distinct (map rec_Host (ia_Records i))" "distinct (map rec_IP (ia_Records i))"
    using assms by (simp_all add: manages_def)
  have "inj_on (address_of i) (dom (address_of i))"
  proof (rule inj_onI)
    fix x y assume "x \<in> dom (address_of i)" "address_of i x = address_of i y"
    then obtain a u v where "u \<in> set (ia_Records i)" "v \<in> set (ia_Records i)"
      "rec_Host u = x" "rec_Host v = y" "rec_IP u = a" "rec_IP v = a"
      using address_of_iff [OF h(1)] by (metis domD)
    then show "x = y" using h(2) by (metis distinct_map inj_onD)
  qed
  from book.run_unshared [OF assms this] show ?thesis
    using ipalloc_serve_run [OF assms, of w ms] by auto
qed

theorem ipalloc_unshared_witness:
  "\<exists>rs j. ipalloc_serve no_ipv6 True [ask AddAction ''db'', ask AddAction ''web''] (small_book []) = Some (rs, j) \<and>
     inj_on (address_of j) (dom (address_of j))"
  using ipalloc_unshared [OF small_manages, of "[]" True "[ask AddAction ''db'', ask AddAction ''web'']"] by auto

text \<open>
  The broadcast address of the network is an address like any other: when it is the only one
  left, the next new service is given it.
\<close>

theorem ipalloc_hands_out_broadcast:
  assumes "manages t net n i" and "n < 32"
    and "msg_Action m \<noteq> DeleteAction" and "address_of i (svc_Name (msg_Service m)) = None"
    and "broadcast = bytes_of 4 (ip_val (net_IP net) + net_size n - 1)"
    and "\<not> IsMulticast broadcast" and "dotted broadcast \<notin> rec_IP ` set (ia_Records i)"
    and "\<forall>v. ip_val (net_IP net) < v \<and> v < ip_val (net_IP net) + net_size n - 1 \<longrightarrow>
      dotted (bytes_of 4 v) \<in> rec_IP ` set (ia_Records i)"
  shows "\<exists>r i'. ipalloc_receive t w m i = Some (r, i') \<and> svc_PublicIP (msg_Service r) = dotted broadcast"
proof -
  let ?lo = "ip_val (net_IP net)" and ?hi = "ip_val (net_IP net) + net_size n - 1"
  have net: "v4_net net n" using assms by (simp add: manages_def)
  have two: "2 \<le> net_size n"
  proof -
    have "2 ^ 1 \<le> (2::nat) ^ (32 - n)" using assms(2) by (intro power_increasing) simp_all
    then show ?thesis by (simp add: net_size_def)
  qed
  have "?hi < 2 ^ 32" using net_top [OF net] two by simp
  then have "ip_val broadcast = ?hi" using assms(5) by (simp add: ip_val_bytes_of)
  then have "broadcast \<noteq> net_IP net" using two by auto
  then have u: "usable net (ia_Records i) broadcast" using assms(6,7) by (simp add: usable_def)
  have "\<not> usable net (ia_Records i) (bytes_of 4 v)" if "?lo \<le> v" "v < ?hi" for v
  proof (cases "v = ?lo")
    case True
    then show ?thesis using bytes_of_ip_val [of "net_IP net"] net by (simp add: usable_def v4_net_def)
  next
    case False
    then show ?thesis using assms(8) that by (simp add: usable_def)
  qed
  moreover have "?lo + net_size n = Suc ?hi" "?lo \<le> ?hi" using two by simp_all
  then have "[?lo..<?lo + net_size n] = [?lo..<?hi] @ [?hi]" by (metis upt_Suc_append)
  ultimately have "next_free net n (ia_Records i) = Some broadcast"
    unfolding next_free_def addresses_from_def using u assms(5) by (simp add: find_skip)
  then show ?thesis
    unfolding ipalloc_receive_eq [OF assms(1)] using assms(3,4)
    by (simp add: ipalloc_reply_def ipalloc_request_def with_address_def Let_def)
qed
theorem ipalloc_hands_out_broadcast_witness:
  "\<exists>r i'. ipalloc_receive no_ipv6 True (ask AddAction ''web'')
       (small_book [\<lparr>rec_IP = ''10.0.0.1'', rec_Host = ''a''\<rparr>, \<lparr>rec_IP = ''10.0.0.2'', rec_Host = ''b''\<rparr>]) =
       Some (r, i') \<and> svc_PublicIP (msg_Service r) = ''10.0.0.3''"
proof -
  let ?i = "small_book [\<lparr>rec_IP = ''10.0.0.1'', rec_Host = ''a''\<rparr>, \<lparr>rec_IP = ''10.0.0.2'', rec_Host = ''b''\<rparr>]"
  have top: "ip_val (net_IP small_net) + net_size 30 - 1 = 167772163" "ip_val (net_IP small_net) = 167772160"
    "net_size 30 = 4" by (simp_all add: small_net_def net_size_def)
  have "ip_val [10, 0, 0, 3] = 167772163" "ip_val [10, 0, 0, 1] = 167772161" "ip_val [10, 0, 0, 2] = 167772162"
    by simp_all
  then have b: "bytes_of 4 167772163 = [10, 0, 0, 3]" "bytes_of 4 167772161 = [10, 0, 0, 1]"
    "bytes_of 4 167772162 = [10, 0, 0, 2]"
    using bytes_of_ip_val [of "[10, 0, 0, 3]" 4] bytes_of_ip_val [of "[10, 0, 0, 1]" 4]
      bytes_of_ip_val [of "[10, 0, 0, 2]" 4] by (simp_all del: bytes_of.simps)
  have d: "dotted [10, 0, 0, 1] = ''10.0.0.1''" "dotted [10, 0, 0, 2] = ''10.0.0.2''" "dotted [10, 0, 0, 3] = ''10.0.0.3''"
    by (simp_all add: dotted_def itoa_nat.simps)
  have m: "manages no_ipv6 small_net 30 ?i" by (rule small_manages) simp_all
  have "\<exists>r i'. ipalloc_receive no_ipv6 True (ask AddAction ''web'') ?i = Some (r, i') \<and>
      svc_PublicIP (msg_Service r) = dotted [10, 0, 0, 3]"
  proof (rule ipalloc_hands_out_broadcast [OF m])
    show "[10, 0, 0, 3] = bytes_of 4 (ip_val (net_IP small_net) + net_size 30 - 1)" by (simp only: top(1) b)
    show "\<not> IsMulticast [10, 0, 0, 3]" by (simp add: IsMulticast_def To4_def)
    show "dotted [10, 0, 0, 3] \<notin> rec_IP ` set (ia_Records ?i)" by (simp add: d small_book_def)
    show "\<forall>v. ip_val (net_IP small_net) < v \<and> v < ip_val (net_IP small_net) + net_size 30 - 1 \<longrightarrow>
        dotted (bytes_of 4 v) \<in> rec_IP ` set (ia_Records ?i)"
    proof (intro allI impI)
      fix v assume "ip_val (net_IP small_net) < v \<and> v < ip_val (net_IP small_net) + net_size 30 - 1"
      then have "167772160 < v" "v < 167772163" by (simp_all add: top(2,3))
      then have "v = 167772161 \<or> v = 167772162" by linarith
      then show "dotted (bytes_of 4 v) \<in> rec_IP ` set (ia_Records ?i)"
        using b d by (elim disjE) (simp_all add: small_book_def del: bytes_of.simps)
    qed
  qed (simp_all add: address_of_def small_book_def AddAction_def DeleteAction_def)
  then show ?thesis by (simp only: d)
qed

end
