(* ===== verification/Provisioner.thy ===== *)
theory Provisioner
  imports Entry_Machine
begin

text \<open>
  What the core expects of a provisioner (\<open>src/docs/docs/extension.md\<close>, \<open>src/core/extension.go\<close>):
  every add or delete request is answered with exactly one message for the same service. The
  interface is stated as a locale; each provisioner's theory shows that its model keeps it. The
  lemmas of the locale say what the single answer does to the entry that waits for it.
\<close>

section \<open>The contract\<close>

text \<open>
  A provisioner handles a message in a state of its own: \<^term>\<open>None\<close> is a handler that does not
  return, otherwise the messages sent back and the state afterwards.
\<close>

type_synonym 'w provisioner_handler = "Message \<Rightarrow> 'w \<Rightarrow> (Message list \<times> 'w) option"

definition core_request :: "Message \<Rightarrow> bool" where
  "core_request m \<longleftrightarrow> (msg_Action m = AddAction \<or> msg_Action m = DeleteAction) \<and> msg_Error m = ''''"

text \<open>
  The answer is about the same service; its action is \<open>update\<close>, or the request's own where the
  provisioner sends the message back as it came.
\<close>

definition answers :: "Message \<Rightarrow> Message \<Rightarrow> bool" where
  "answers r m \<longleftrightarrow> (msg_Action r = UpdateAction \<or> msg_Action r = msg_Action m) \<and>
     svc_Name (msg_Service r) = svc_Name (msg_Service m)"

text \<open>The listener tags the answer with the name of the extension's step.\<close>

definition tagged :: "string \<Rightarrow> Message \<Rightarrow> Message" where
  "tagged step m = m\<lparr>msg_Sender := step\<rparr>"

lemma tagged_simps [simp]:
  "msg_Sender (tagged step m) = step" "msg_Error (tagged step m) = msg_Error m"
  "msg_Action (tagged step m) = msg_Action m" "msg_Service (tagged step m) = msg_Service m"
  by (simp_all add: tagged_def)

lemma request_msg_core: "core_request (request_msg e)"
  by (simp add: core_request_def)

text \<open>Where an entry stands after the answer to its request.\<close>

definition settled :: "string \<Rightarrow> workflowEntry \<Rightarrow> Message \<Rightarrow> workflowEntry \<Rightarrow> Message list \<Rightarrow> bool" where
  "settled cfg e r e' out \<longleftrightarrow> we_ExpectedState e' = we_ExpectedState e \<and>
     (if msg_Error r \<noteq> '''' then we_State e' = we_State e \<and> \<not> we_WorkInProgress e' \<and> we_Error e' = msg_Error r \<and> out = []
      else Some (we_State e') = next_name cfg (we_State e) (isReverse e) \<and>
        (if we_State e' = end_of (isReverse e) then \<not> we_WorkInProgress e' \<and> out = []
         else we_WorkInProgress e' \<and> map msg_Destination out = [we_State e']))"

lemma deliver_answer:
  assumes "wf_config cfg" and "we_State e \<in> set (visited cfg)"
    and "we_State e \<noteq> undeployedState" and "we_State e \<noteq> deployedState" and "we_WorkInProgress e"
  shows "\<exists>e' out. deliver (initWorkflow cfg) now (tagged (we_State e) r) e = Some (Inr (e', out)) \<and>
    settled cfg e r e' out"
proof -
  let ?w = "initWorkflow cfg" and ?m = "tagged (we_State e) r"
  have tr: "getTransition ?w (we_State e) = Some provisionerState"
    by (rule getTransition_provisioner(1) [OF assms(1-4)])
  show ?thesis
  proof (cases "msg_Error r = ''''")
    case False
    then have "deliver ?w now ?m e = returns (setError (msg_Error r) (setWIP now False (merge_into ?w ?m e))) []"
      using tr assms(5) by (simp add: deliver_def Let_def execute_error_reply)
    then show ?thesis using False by (simp add: returns_def settled_def) (simp add: setError_def)
  next
    case True
    obtain b where b: "b \<in> set (visited cfg)" "next_name cfg (we_State e) (isReverse e) = Some b"
      using next_name_up [OF assms(1,2,4)] next_name_down [OF assms(1,2,3)] by (cases "isReverse e") auto
    have "deliver ?w now ?m e =
        (let e' = advance b (updateService ?m (merge_into ?w ?m e))
         in if b = (if isReverse e then undeployedState else deployedState)
            then returns (close_entry now '''' (e'\<lparr>we_transition := Some closeState\<rparr>)) []
            else returns (setWIP now True e') [request_msg e'])"
      using tr assms(5) True b(2) execute_reply [OF assms(1), of "merge_into ?w ?m e" ?m b now]
      by (simp add: deliver_def Let_def)
    then show ?thesis using True b(2)
      by (auto simp: settled_def end_of_def returns_def Let_def isReverse_def advance_def)
  qed
qed

text \<open>Requests and answers back and forth until the entry is no longer in progress.\<close>

fun drive :: "nat \<Rightarrow> string \<Rightarrow> 'w provisioner_handler \<Rightarrow> gotime \<Rightarrow> workflowEntry \<Rightarrow> 'w \<Rightarrow> (workflowEntry \<times> 'w) option" where
  "drive fuel cfg handle now e w =
     (if \<not> we_WorkInProgress e then Some (e, w)
      else (case fuel of
          0 \<Rightarrow> None
        | Suc n \<Rightarrow>
            (case handle (request_msg e) w of
               Some ([r], w') \<Rightarrow>
                 (case deliver (initWorkflow cfg) now (tagged (we_State e) r) e of
                    Some (Inr (e', out)) \<Rightarrow> drive n cfg handle now e' w'
                  | _ \<Rightarrow> None)
             | _ \<Rightarrow> None)))"

declare drive.simps [simp del]

definition waiting :: "string \<Rightarrow> (string \<Rightarrow> bool) \<Rightarrow> workflowEntry \<Rightarrow> bool" where
  "waiting cfg serves e \<longleftrightarrow>
     we_WorkInProgress e \<and> we_State e \<in> set (visited cfg) \<and> we_State e \<noteq> undeployedState \<and>
     we_State e \<noteq> deployedState \<and> serves (we_State e)"

text \<open>How many steps of the route are left.\<close>

definition steps_left :: "string \<Rightarrow> workflowEntry \<Rightarrow> nat" where
  "steps_left cfg e = (if isReverse e then pos_of cfg (we_State e) else top_of cfg - pos_of cfg (we_State e))"

lemma settled_next:
  assumes "wf_config cfg" and "waiting cfg serves e" and "settled cfg e r e' out" and "msg_Error r = ''''"
  shows "steps_left cfg e = Suc (steps_left cfg e') \<and> we_State e' \<in> set (visited cfg) \<and>
    (we_WorkInProgress e' \<longrightarrow> we_State e' \<noteq> undeployedState \<and> we_State e' \<noteq> deployedState) \<and>
    (\<not> we_WorkInProgress e' \<longrightarrow> we_State e' = end_of (isReverse e))"
proof -
  have s: "we_State e \<in> set (visited cfg)" "we_State e \<noteq> undeployedState" "we_State e \<noteq> deployedState"
    using assms(2) by (simp_all add: waiting_def)
  have n: "next_name cfg (we_State e) (isReverse e) = Some (we_State e')"
    and rev: "isReverse e' = isReverse e"
    and wip: "we_WorkInProgress e' \<longleftrightarrow> we_State e' \<noteq> end_of (isReverse e)"
    using assms(3,4) by (auto simp: settled_def isReverse_def split: if_splits)
  have v: "we_State e' \<in> set (visited cfg)" by (rule next_name_visited [OF assms(1) n])
  show ?thesis
  proof (cases "isReverse e")
    case True
    obtain t where "next_name cfg (we_State e) True = Some t" "Suc (pos_of cfg t) = pos_of cfg (we_State e)"
      using next_name_down [OF assms(1) s(1,2)] by blast
    then have p: "Suc (pos_of cfg (we_State e')) = pos_of cfg (we_State e)" using n True by simp
    then have "we_State e' \<noteq> deployedState"
      using pos_of_le_top [OF s(1)] assms(1) by auto
    then show ?thesis using p v wip rev True by (auto simp: steps_left_def end_of_def)
  next
    case False
    obtain t where "next_name cfg (we_State e) False = Some t" "pos_of cfg t = Suc (pos_of cfg (we_State e))"
      using next_name_up [OF assms(1) s(1,3)] by blast
    then have p: "pos_of cfg (we_State e') = Suc (pos_of cfg (we_State e))" using n False by simp
    then have "we_State e' \<noteq> undeployedState" using assms(1) by auto
    then show ?thesis using p v wip rev False pos_of_le_top [OF v] by (auto simp: steps_left_def end_of_def)
  qed
qed

text \<open>
  \<open>serves\<close> tells the steps (destinations of requests) that the provisioner answers for, \<open>sound\<close> the
  states in which it does.
\<close>

locale provisioner =
  fixes serves :: "string \<Rightarrow> bool" and sound :: "'w \<Rightarrow> bool" and handle :: "'w provisioner_handler"
  assumes one_answer: "sound w \<Longrightarrow> core_request m \<Longrightarrow> serves (msg_Destination m) \<Longrightarrow>
    \<exists>r w'. handle m w = Some ([r], w') \<and> sound w' \<and> answers r m"
begin

text \<open>One round trip: the request of a waiting entry, the answer, and its delivery.\<close>

lemma one_round:
  assumes "sound w" and "wf_config cfg" and "waiting cfg serves e"
  shows "\<exists>r w' e' out. handle (request_msg e) w = Some ([r], w') \<and> sound w' \<and>
    deliver (initWorkflow cfg) now (tagged (we_State e) r) e = Some (Inr (e', out)) \<and>
    settled cfg e r e' out"
proof -
  have s: "we_State e \<in> set (visited cfg)" "we_State e \<noteq> undeployedState" "we_State e \<noteq> deployedState"
    "we_WorkInProgress e" "serves (msg_Destination (request_msg e))"
    using assms(3) by (simp_all add: waiting_def)
  obtain r w' where "handle (request_msg e) w = Some ([r], w')" "sound w'"
    using one_answer [OF assms(1) request_msg_core s(5)] by blast
  moreover obtain e' out where
    "deliver (initWorkflow cfg) now (tagged (we_State e) r) e = Some (Inr (e', out))" "settled cfg e r e' out"
    using deliver_answer [OF assms(2) s(1-4)] by blast
  ultimately show ?thesis by blast
qed

text \<open>Round trips come to an end: at the end of the workflow, or at a step that failed.\<close>

lemma drive_ends:
  assumes "wf_config cfg" and "\<forall>s\<in>set (visited cfg). s \<noteq> undeployedState \<longrightarrow> s \<noteq> deployedState \<longrightarrow> serves s"
  shows "sound w \<Longrightarrow> waiting cfg serves e \<Longrightarrow> steps_left cfg e \<le> n \<Longrightarrow>
    \<exists>e' w'. drive n cfg handle now e w = Some (e', w') \<and> sound w' \<and> \<not> we_WorkInProgress e' \<and>
      we_ExpectedState e' = we_ExpectedState e \<and>
      (we_State e' = end_of (isReverse e) \<or> we_State e' \<in> set (visited cfg) \<and> we_Error e' \<noteq> '''')"
proof (induction n arbitrary: e w)
  case 0
  then have s: "we_State e \<in> set (visited cfg)" "we_State e \<noteq> undeployedState" "we_State e \<noteq> deployedState"
    by (simp_all add: waiting_def)
  then have "steps_left cfg e \<noteq> 0"
    using pos_of_end_iff [OF assms(1) s(1)] pos_of_le_top [OF s(1)] by (auto simp: steps_left_def)
  with 0 show ?case by simp
next
  case (Suc n)
  obtain r w' e' out where h: "handle (request_msg e) w = Some ([r], w')" "sound w'"
    "deliver (initWorkflow cfg) now (tagged (we_State e) r) e = Some (Inr (e', out))" "settled cfg e r e' out"
    using one_round [OF Suc.prems(1) assms(1) Suc.prems(2)] by blast
  have d: "drive (Suc n) cfg handle now e w = drive n cfg handle now e' w'"
    using h Suc.prems(2) by (subst drive.simps) (simp add: waiting_def)
  have ex: "we_ExpectedState e' = we_ExpectedState e" using h(4) by (simp add: settled_def)
  then have rev: "isReverse e' = isReverse e" by (simp add: isReverse_def)
  show ?case
  proof (cases "we_WorkInProgress e'")
    case False
    then have stop: "drive n cfg handle now e' w' = Some (e', w')" by (subst drive.simps) simp
    have "we_State e' = end_of (isReverse e) \<or> we_State e' \<in> set (visited cfg) \<and> we_Error e' \<noteq> ''''"
      using settled_next [OF assms(1) Suc.prems(2) h(4)] h(4) False Suc.prems(2)
      by (cases "msg_Error r = ''''") (auto simp: settled_def waiting_def)
    then show ?thesis using d stop h(2) False ex by simp
  next
    case True
    then have ok: "msg_Error r = ''''" using h(4) by (auto simp: settled_def split: if_splits)
    note nx = settled_next [OF assms(1) Suc.prems(2) h(4) ok]
    have "waiting cfg serves e'" using nx True assms(2) by (simp add: waiting_def)
    from Suc.IH [OF h(2) this] show ?thesis using d nx Suc.prems(3) ex rev by simp
  qed
qed

end

end
