(* ===== verification/Consul.thy ===== *)
theory Consul
  imports Provisioner
begin

text \<open>
  \<open>src/provisioner/dns/consul/consul.go\<close>: the DNS provisioner. The catalog client of Consul's Go
  package is not part of the repository; it is an argument of the model: three calls on a state of
  its own, each with an error or a result.
\<close>

section \<open>The catalog\<close>

record registration =
  reg_Node :: string
  reg_Address :: string
  reg_NodeMeta :: "(string \<times> string) list"
  reg_Service :: string
  reg_ServiceAddress :: string
  reg_ServicePort :: int
  reg_CheckStatus :: string
  reg_CheckName :: string
  reg_CheckInterval :: int

record 'w catalog =
  cat_Service :: "string \<Rightarrow> 'w \<Rightarrow> (string + string list) \<times> 'w"
  cat_Register :: "registration \<Rightarrow> 'w \<Rightarrow> string option \<times> 'w"
  cat_Deregister :: "string \<Rightarrow> 'w \<Rightarrow> string option \<times> 'w"

text \<open>The result of \<open>cat_Service\<close> lists the \<open>ServiceName\<close> fields of the entries returned.\<close>

definition isServiceExist :: "'w catalog \<Rightarrow> string \<Rightarrow> 'w \<Rightarrow> (bool \<times> string option) \<times> 'w" where
  "isServiceExist c name w =
     (case cat_Service c name w of
        (Inl err, w) \<Rightarrow> ((False, Some err), w)
      | (Inr consulServices, w) \<Rightarrow> ((list_ex (\<lambda>s. s = name) consulServices, None), w))"

definition deregister :: "'w catalog \<Rightarrow> string \<Rightarrow> 'w \<Rightarrow> string option \<times> 'w" where
  "deregister c node w =
     (case cat_Deregister c node w of (Some err, w) \<Rightarrow> (Some err, w) | (None, w) \<Rightarrow> (None, w))"

text \<open>\<open>init\<close> fails only with an error: a catalog without the service \<open>consul\<close> passes.\<close>

definition consul_init :: "'w catalog \<Rightarrow> 'w \<Rightarrow> string option \<times> 'w" where
  "consul_init c w =
     (case isServiceExist c ''consul'' w of
        ((cliOK, err), w) \<Rightarrow> if \<not> cliOK \<or> err \<noteq> None then (err, w) else (None, w))"

text \<open>A catalog without the service \<open>consul\<close> fails the check but not the start.\<close>

lemma consul_init_unchecked:
  "isServiceExist c ''consul'' w = ((False, None), w') \<Longrightarrow> consul_init c w = (None, w')"
  by (simp add: consul_init_def)

section \<open>The message handler\<close>

fun consul_delete :: "'w catalog \<Rightarrow> string list \<Rightarrow> Message \<Rightarrow> 'w \<Rightarrow> Message \<times> 'w" where
  "consul_delete c [] msg w = (msg, w)"
| "consul_delete c (dnsAlias # rest) msg w =
     (case deregister c dnsAlias w of
        (Some err, w) \<Rightarrow> consul_delete c rest (msg\<lparr>msg_Error := err\<rparr>) w
      | (None, w) \<Rightarrow> consul_delete c rest msg w)"

definition registration_of :: "string \<Rightarrow> string \<Rightarrow> int \<Rightarrow> registration" where
  "registration_of dnsAlias publicIP servicePort =
     \<lparr>reg_Node = dnsAlias, reg_Address = publicIP, reg_NodeMeta = [(''external-node'', ''true'')],
      reg_Service = dnsAlias, reg_ServiceAddress = dnsAlias, reg_ServicePort = servicePort,
      reg_CheckStatus = ''passing'', reg_CheckName = ''basic-tcp-check'', reg_CheckInterval = 10000\<rparr>"

text \<open>One alias; the result is the error of the registration, the only one that is not just logged.\<close>

definition consul_register :: "'w catalog \<Rightarrow> int \<Rightarrow> string \<Rightarrow> string \<Rightarrow> 'w \<Rightarrow> string option \<times> 'w" where
  "consul_register c servicePort publicIP dnsAlias w =
     (case isServiceExist c dnsAlias w of
        ((alreadyRegistered, err), w) \<Rightarrow>
          (let w = (if alreadyRegistered then snd (deregister c dnsAlias w) else w)
           in cat_Register c (registration_of dnsAlias publicIP servicePort) w))"

text \<open>The loop sends the message after a failed registration and goes on with the next alias.\<close>

fun consul_add :: "'w catalog \<Rightarrow> int \<Rightarrow> string list \<Rightarrow> Message \<Rightarrow> 'w \<Rightarrow> Message list \<times> 'w" where
  "consul_add c servicePort [] msg w = ([msg], w)"
| "consul_add c servicePort (dnsAlias # rest) msg w =
     (case consul_register c servicePort (svc_PublicIP (msg_Service msg)) dnsAlias w of
        (Some err, w) \<Rightarrow>
          (let msg = msg\<lparr>msg_Error := err\<rparr>;
               (sent, w) = consul_add c servicePort rest msg w
           in (msg # sent, w))
      | (None, w) \<Rightarrow> consul_add c servicePort rest msg w)"

definition consul_receive :: "'w catalog \<Rightarrow> Message \<Rightarrow> 'w \<Rightarrow> Message list \<times> 'w" where
  "consul_receive c msg w =
     (if msg_Action msg = DeleteAction then
        (let msg = msg\<lparr>msg_Action := UpdateAction\<rparr>;
             (msg, w) = consul_delete c (elems (svc_DNSAliases (msg_Service msg))) msg w
         in ([msg], w))
      else
        (let msg = msg\<lparr>msg_Action := UpdateAction\<rparr>;
             servicePort = (if svc_TLS (msg_Service msg) then 443 else 80)
         in consul_add c servicePort (elems (svc_DNSAliases (msg_Service msg))) msg w))"

section \<open>How many messages are sent\<close>

text \<open>The errors of the registrations of a list of aliases, in order.\<close>

fun registration_errors :: "'w catalog \<Rightarrow> int \<Rightarrow> string \<Rightarrow> string list \<Rightarrow> 'w \<Rightarrow> string list" where
  "registration_errors c port ip [] w = []"
| "registration_errors c port ip (a # as) w =
     (case consul_register c port ip a w of
        (Some err, w) \<Rightarrow> err # registration_errors c port ip as w
      | (None, w) \<Rightarrow> registration_errors c port ip as w)"

lemma consul_add_sent:
  "map msg_Error (fst (consul_add c port as msg w)) =
     (let es = registration_errors c port (svc_PublicIP (msg_Service msg)) as w
      in es @ [last (msg_Error msg # es)]) \<and>
   (\<forall>r\<in>set (fst (consul_add c port as msg w)). msg_Service r = msg_Service msg \<and> msg_Action r = msg_Action msg)"
proof (induction as arbitrary: msg w)
  case (Cons a as)
  obtain err w' where r: "consul_register c port (svc_PublicIP (msg_Service msg)) a w = (err, w')"
    by (cases "consul_register c port (svc_PublicIP (msg_Service msg)) a w")
  show ?case
  proof (cases err)
    case None
    then show ?thesis using r Cons.IH [of msg w'] by simp
  next
    case (Some x)
    obtain sent w'' where s: "consul_add c port as (msg\<lparr>msg_Error := x\<rparr>) w' = (sent, w'')"
      by (cases "consul_add c port as (msg\<lparr>msg_Error := x\<rparr>) w'")
    then show ?thesis using r Some Cons.IH [of "msg\<lparr>msg_Error := x\<rparr>" w']
      by (simp add: Let_def)
  qed
qed simp

lemma consul_delete_frame:
  "msg_Service (fst (consul_delete c as msg w)) = msg_Service msg \<and>
   msg_Action (fst (consul_delete c as msg w)) = msg_Action msg"
  by (induction as arbitrary: msg w) (auto split: prod.splits option.splits)

text \<open>Deletions keep the contract of a provisioner, additions do when every registration succeeds.\<close>

lemma consul_delete_answers:
  assumes "msg_Action m = DeleteAction"
  shows "\<exists>r w'. consul_receive c m w = ([r], w') \<and> answers r m"
  using assms consul_delete_frame [of c _ "m\<lparr>msg_Action := UpdateAction\<rparr>" w]
  by (auto simp: consul_receive_def answers_def Let_def split: prod.splits) (metis fst_conv Message.simps)+

definition registers_all :: "'w catalog \<Rightarrow> bool" where
  "registers_all c \<longleftrightarrow> (\<forall>r w. fst (cat_Register c r w) = None)"

lemma registers_all_errors: "registers_all c \<Longrightarrow> registration_errors c port ip as w = []"
proof (induction as arbitrary: w)
  case (Cons a as)
  obtain err w' where r: "consul_register c port ip a w = (err, w')" by (cases "consul_register c port ip a w")
  moreover have "fst (consul_register c port ip a w) = None"
    using Cons.prems by (auto simp: consul_register_def registers_all_def Let_def split: prod.splits)
  ultimately show ?case using Cons by simp
qed simp

lemma consul_add_single:
  assumes "registration_errors c port (svc_PublicIP (msg_Service m)) as w = []"
  shows "\<exists>r w'. consul_add c port as m w = ([r], w') \<and> msg_Error r = msg_Error m \<and>
    msg_Service r = msg_Service m \<and> msg_Action r = msg_Action m"
proof -
  have s: "map msg_Error (fst (consul_add c port as m w)) = [msg_Error m]"
    "\<forall>r\<in>set (fst (consul_add c port as m w)). msg_Service r = msg_Service m \<and> msg_Action r = msg_Action m"
    using consul_add_sent [of c port as m w] assms by (simp_all add: Let_def)
  then obtain r where "fst (consul_add c port as m w) = [r]" by (auto simp: map_eq_Cons_conv)
  then show ?thesis using s by (cases "consul_add c port as m w") auto
qed

interpretation dns: provisioner "\<lambda>s. True" "\<lambda>w. registers_all c" "\<lambda>m w. Some (consul_receive c m w)" for c
proof
  fix w and m :: Message
  assume a: "registers_all c" "core_request m"
  show "\<exists>r w'. Some (consul_receive c m w) = Some ([r], w') \<and> registers_all c \<and> answers r m"
  proof (cases "msg_Action m = DeleteAction")
    case True
    then show ?thesis using consul_delete_answers [OF True, of c w] a(1) by auto
  next
    case False
    let ?m = "m\<lparr>msg_Action := UpdateAction\<rparr>"
    have "registration_errors c (if svc_TLS (msg_Service m) then 443 else 80) (svc_PublicIP (msg_Service ?m))
        (elems (svc_DNSAliases (msg_Service m))) w = []" by (rule registers_all_errors [OF a(1)])
    from consul_add_single [OF this] show ?thesis
      using False a(1) by (auto simp: consul_receive_def answers_def)
  qed
qed

section \<open>Properties\<close>

text \<open>A catalog for the witnesses: a map from nodes, which refuses the nodes of a list.\<close>

definition map_catalog :: "string list \<Rightarrow> (string \<Rightarrow> registration option) catalog" where
  "map_catalog refused =
     \<lparr>cat_Service = (\<lambda>n w. (Inr (case w n of None \<Rightarrow> [] | Some r \<Rightarrow> [reg_Service r]), w)),
      cat_Register = (\<lambda>r w. if reg_Node r \<in> set refused then (Some ''refused'', w)
                             else (None, w(reg_Node r \<mapsto> r))),
      cat_Deregister = (\<lambda>n w. (None, w(n := None)))\<rparr>"

text \<open>
  What Consul sends for an addition, whatever the catalog does: one message for each
  registration that fails, at the time it fails, and one at the end, which carries the last error.
\<close>

theorem consul_messages:
  assumes "msg_Action m \<noteq> DeleteAction"
    and "es = registration_errors c (if svc_TLS (msg_Service m) then 443 else 80)
      (svc_PublicIP (msg_Service m)) (elems (svc_DNSAliases (msg_Service m))) w"
  shows "map msg_Error (fst (consul_receive c m w)) = es @ [last (msg_Error m # es)]"
  using consul_add_sent [of c _ _ "m\<lparr>msg_Action := UpdateAction\<rparr>" w] assms
  by (simp add: consul_receive_def Let_def)

definition aliased :: "string list \<Rightarrow> Message" where
  "aliased as = zero_Message\<lparr>msg_Action := AddAction,
     msg_Service := zero_Service\<lparr>svc_Name := ''web'', svc_PublicIP := ''10.0.0.1'', svc_DNSAliases := Some as\<rparr>\<rparr>"

theorem consul_messages_witness:
  "map msg_Error (fst (consul_receive (map_catalog [''b'']) (aliased [''a'', ''b'', ''c'']) Map.empty)) =
     [''refused'', ''refused'']"
proof -
  have "registration_errors (map_catalog [''b'']) 80 ''10.0.0.1'' [''a'', ''b'', ''c''] Map.empty = [''refused'']"
    by (simp add: consul_register_def isServiceExist_def map_catalog_def registration_of_def)
  then show ?thesis
    using consul_messages [of "aliased [''a'', ''b'', ''c'']" _ "map_catalog [''b'']" Map.empty, OF _ refl]
    by (simp add: aliased_def zero_Service_def AddAction_def DeleteAction_def)
qed

text \<open>
  A failed registration makes the core ask again at once, without end. The first message with
  the error stops the entry at the DNS step; the second one, sent when the loop is done, finds the
  entry no longer in progress and is taken for a transition: the entry is in progress again and
  the same add request goes to the DNS extension a second time.
\<close>

theorem consul_failure_asked_again:
  assumes "wf_config cfg" and "we_State e \<in> set (visited cfg)"
    and "we_State e \<noteq> undeployedState" and "we_State e \<noteq> deployedState"
    and "we_WorkInProgress e" and "\<not> isReverse e" and "err \<noteq> ''''"
    and "registration_errors c (if svc_TLS (we_Service e) then 443 else 80)
      (svc_PublicIP (we_Service e)) (elems (svc_DNSAliases (we_Service e))) w = [err]"
  shows "\<exists>e' out. deliver_all (initWorkflow cfg)
      (map (\<lambda>m. (now, tagged (we_State e) m)) (fst (consul_receive c (request_msg e) w))) e =
        Some (Inr (e', [out])) \<and>
    we_WorkInProgress e' \<and> we_State e' = we_State e \<and> we_Error e' = err \<and>
    msg_Destination out = we_State e \<and> msg_Action out = AddAction"
proof -
  let ?w = "initWorkflow cfg"
  let ?sent = "fst (consul_receive c (request_msg e) w)"
  have tr: "getTransition ?w (we_State e) = Some provisionerState"
    by (rule getTransition_provisioner(1) [OF assms(1-4)])
  have "map msg_Error ?sent = [err, err]"
    using consul_add_sent [of c _ _ "(request_msg e)\<lparr>msg_Action := UpdateAction\<rparr>" w] assms(6,8)
    by (simp add: consul_receive_def AddAction_def DeleteAction_def Let_def)
  then obtain a b where ab: "?sent = [a, b]" "msg_Error a = err" "msg_Error b = err"
    by (auto simp: map_eq_Cons_conv)
  let ?e = "setError err (setWIP now False (merge_into ?w (tagged (we_State e) a) e))"
  have st: "\<not> we_WorkInProgress ?e" "we_State ?e = we_State e" "isReverse ?e = isReverse e"
    by (simp_all add: setError_def isReverse_def)
  have one: "deliver ?w now (tagged (we_State e) a) e = returns ?e []"
    using tr assms(5,7) ab by (simp add: deliver_def Let_def execute_error_reply)
  let ?f = "merge_into ?w (tagged (we_State e) b) ?e"
  have "deliver ?w now (tagged (we_State e) b) ?e = returns (setWIP now True ?f) [request_msg ?f]"
    using tr st by (simp add: deliver_def Let_def execute_provisionerState sendToExtension_eq)
  then have "deliver_all ?w [(now, tagged (we_State e) b)] ?e = returns (setWIP now True ?f) [request_msg ?f]"
    by (simp add: returns_def)
  from deliver_all_Cons [OF one this] have
    "deliver_all ?w (map (\<lambda>m. (now, tagged (we_State e) m)) ?sent) e = returns (setWIP now True ?f) [request_msg ?f]"
    using ab by simp
  then show ?thesis using st assms(6) by (simp add: returns_def) (simp add: setError_def)
qed

theorem consul_failure_asked_again_witness:
  "\<exists>e' out. deliver_all (initWorkflow long_config)
      (map (\<lambda>m. (9, tagged ''dns.consul'' m))
        (fst (consul_receive (map_catalog [''b'']) (request_msg (setWIP 4 True (zero_entry
          \<lparr>we_State := ''dns.consul'', we_Service := msg_Service (aliased [''b''])\<rparr>))) Map.empty)))
      (setWIP 4 True (zero_entry\<lparr>we_State := ''dns.consul'', we_Service := msg_Service (aliased [''b''])\<rparr>)) =
        Some (Inr (e', [out])) \<and> msg_Destination out = ''dns.consul''"
proof -
  let ?e = "setWIP 4 True (zero_entry\<lparr>we_State := ''dns.consul'', we_Service := msg_Service (aliased [''b''])\<rparr>)"
  have "registration_errors (map_catalog [''b'']) (if svc_TLS (we_Service ?e) then 443 else 80)
      (svc_PublicIP (we_Service ?e)) (elems (svc_DNSAliases (we_Service ?e))) Map.empty = [''refused'']"
    by (simp add: consul_register_def isServiceExist_def map_catalog_def registration_of_def aliased_def zero_Service_def)
  from consul_failure_asked_again [OF long_config_facts(1) _ _ _ _ _ _ this, of 9] show ?thesis
    by (auto simp: long_config_facts deployedState_def undeployedState_def zero_entry_def isReverse_def)
qed

section \<open>The catalog after an addition\<close>

text \<open>
  What Consul documents of the three calls, on a view of the catalog as a map from nodes: a
  successful registration sets its node, a deregistration touches no other node, a query none.
\<close>

definition catalog_laws :: "'w catalog \<Rightarrow> ('w \<Rightarrow> string \<Rightarrow> registration option) \<Rightarrow> bool" where
  "catalog_laws c view \<longleftrightarrow>
     (\<forall>n w. view (snd (cat_Service c n w)) = view w) \<and>
     (\<forall>r w. fst (cat_Register c r w) = None \<longrightarrow> view (snd (cat_Register c r w)) = (view w)(reg_Node r \<mapsto> r)) \<and>
     (\<forall>n w k. k \<noteq> n \<longrightarrow> view (snd (cat_Deregister c n w)) k = view w k)"

lemma catalog_call_worlds [simp]:
  "snd (isServiceExist c a w) = snd (cat_Service c a w)" "snd (deregister c a w) = snd (cat_Deregister c a w)"
  by (auto simp: isServiceExist_def deregister_def split: prod.splits sum.splits option.splits)

lemma register_view:
  assumes "catalog_laws c view" and "consul_register c port ip a w = (None, w')"
  shows "view w' = (view w)(a \<mapsto> registration_of a ip port)"
proof -
  obtain b err u where s: "isServiceExist c a w = ((b, err), u)" by (cases "isServiceExist c a w") auto
  have vu: "view u = view w"
    using assms(1) arg_cong [OF s, of snd] by (simp add: catalog_laws_def) metis
  let ?v = "if b then snd (deregister c a u) else u"
  have "view ?v k = view w k" if "k \<noteq> a" for k
    using assms(1) vu that
    by (auto simp: catalog_laws_def)
  moreover have "cat_Register c (registration_of a ip port) ?v = (None, w')"
    using assms(2) s by (simp add: consul_register_def Let_def)
  then have "view w' = (view ?v)(a \<mapsto> registration_of a ip port)"
    using assms(1) [unfolded catalog_laws_def, THEN conjunct2, THEN conjunct1, rule_format, of "registration_of a ip port" ?v]
    by (simp add: registration_of_def)
  ultimately show ?thesis by (intro ext) simp
qed

lemma consul_register_error:
  "consul_register c port ip a w = (Some e, w') \<Longrightarrow> \<exists>r v. fst (cat_Register c r v) = Some e"
  by (auto simp: consul_register_def Let_def split: prod.splits) (metis fst_conv)+

lemma registration_errors_from:
  "e \<in> set (registration_errors c port ip as w) \<Longrightarrow> \<exists>r v. fst (cat_Register c r v) = Some e"
  by (induction as arbitrary: w) (auto split: prod.splits option.splits dest: consul_register_error [OF sym])

lemma consul_add_view:
  assumes "catalog_laws c view"
  shows "registration_errors c port (svc_PublicIP (msg_Service m)) as w = [] \<Longrightarrow>
    view (snd (consul_add c port as m w)) =
      (\<lambda>k. if k \<in> set as then Some (registration_of k (svc_PublicIP (msg_Service m)) port) else view w k)"
proof (induction as arbitrary: w)
  case (Cons a as)
  obtain err w' where r: "consul_register c port (svc_PublicIP (msg_Service m)) a w = (err, w')"
    by (cases "consul_register c port (svc_PublicIP (msg_Service m)) a w")
  then have none: "err = None" using Cons.prems by (cases err) auto
  have "view w' = (view w)(a \<mapsto> registration_of a (svc_PublicIP (msg_Service m)) port)"
    using register_view [OF assms] r none by blast
  then show ?case using Cons r none by (auto simp: fun_eq_iff)
qed simp

text \<open>
  C23. With a catalog that behaves as documented, an addition that is answered without an error has
  registered every DNS name of the service, at the service's public address and at port 443 or 80
  by its TLS flag, and has changed no other node of the catalog.
\<close>

theorem consul_registers_aliases:
  assumes "catalog_laws c view" and "msg_Action m = AddAction" and "msg_Error m = ''''"
    and "\<forall>e r w. fst (cat_Register c r w) = Some e \<longrightarrow> e \<noteq> ''''"
    and "consul_receive c m w = (sent, w')" and "\<forall>r\<in>set sent. msg_Error r = ''''"
  shows "view w' = (\<lambda>k. if k \<in> set (elems (svc_DNSAliases (msg_Service m)))
    then Some (registration_of k (svc_PublicIP (msg_Service m)) (if svc_TLS (msg_Service m) then 443 else 80))
    else view w k)"
proof -
  let ?m = "m\<lparr>msg_Action := UpdateAction\<rparr>" and ?port = "if svc_TLS (msg_Service m) then 443 else 80"
  let ?as = "elems (svc_DNSAliases (msg_Service m))"
  have r: "consul_add c ?port ?as ?m w = (sent, w')"
    using assms(2,5) by (simp add: consul_receive_def AddAction_def DeleteAction_def Let_def)
  define es where "es = registration_errors c ?port (svc_PublicIP (msg_Service ?m)) ?as w"
  have nonempty: "x \<noteq> ''''" if "x \<in> set es" for x
  proof -
    obtain r v where "fst (cat_Register c r v) = Some x"
      using registration_errors_from \<open>x \<in> set es\<close> unfolding es_def by metis
    then show ?thesis using assms(4) by blast
  qed
  have "map msg_Error sent = es @ [last (msg_Error ?m # es)]"
    using consul_add_sent [of c ?port ?as ?m w] r unfolding es_def by (simp add: Let_def)
  then have "set (map msg_Error sent) = set (es @ [last (msg_Error ?m # es)])" by (rule arg_cong)
  then have "es = []" using nonempty assms(6) by (cases es) auto
  then have "registration_errors c ?port (svc_PublicIP (msg_Service ?m)) ?as w = []" unfolding es_def .
  from consul_add_view [OF assms(1) this] show ?thesis using r by (simp cong: if_cong)
qed

theorem consul_registers_aliases_witness:
  "snd (consul_receive (map_catalog []) (aliased [''a'', ''b'']) Map.empty) ''b'' =
     Some (registration_of ''b'' ''10.0.0.1'' 80)"
proof -
  let ?c = "map_catalog []" and ?m = "aliased [''a'', ''b'']"
  have laws: "catalog_laws ?c (\<lambda>w. w)" by (simp add: catalog_laws_def map_catalog_def)
  obtain sent w' where s: "consul_receive ?c ?m Map.empty = (sent, w')" by (cases "consul_receive ?c ?m Map.empty")
  have "registers_all ?c" by (simp add: registers_all_def map_catalog_def)
  then have none: "registration_errors ?c port ip as w = []" for port ip as w by (rule registers_all_errors)
  have m: "msg_Action ?m = AddAction" "msg_Error ?m = ''''" "svc_TLS (msg_Service ?m) = False"
    "elems (svc_DNSAliases (msg_Service ?m)) = [''a'', ''b'']" "svc_PublicIP (msg_Service ?m) = ''10.0.0.1''"
    by (simp_all add: aliased_def zero_Message_def zero_Service_def)
  have "sent = fst (consul_add ?c 80 [''a'', ''b''] (?m\<lparr>msg_Action := UpdateAction\<rparr>) Map.empty)"
    using s m by (simp add: consul_receive_def AddAction_def DeleteAction_def Let_def del: consul_add.simps)
  then have "map msg_Error sent = ['''']"
    using consul_add_sent [of ?c 80 "[''a'', ''b'']" "?m\<lparr>msg_Action := UpdateAction\<rparr>" Map.empty] none m(2)
    by (simp add: Let_def del: consul_add.simps registration_errors.simps)
  then have "\<forall>r\<in>set sent. msg_Error r = ''''" by (auto simp: map_eq_Cons_conv)
  from consul_registers_aliases [OF laws m(1,2) _ s this] show ?thesis
    using s m by (simp add: map_catalog_def)
qed

end
