(* ===== verification/KempLM.thy ===== *)
theory KempLM
  imports Provisioner
begin

text \<open>
  \<open>src/provisioner/loadbalancer/kemplm/kemplm.go\<close>: the KEMP LoadMaster provisioner, which drives the
  device by HTTP GET requests. The network is an argument of the model: whether a URL is accepted by
  \<open>http.NewRequest\<close>, and what the device answers to a request, with a state of its own. A request's
  query is the list of its parameters (\<open>Encode\<close> and \<open>Query\<close> are inverse to each other).
\<close>

section \<open>Requests\<close>

record http_request =
  req_method :: string
  req_url :: string
  req_query :: "(string \<times> string) list"
  req_user :: string
  req_password :: string

text \<open>An answer is a transport error, or a body, an error while reading it, and a status code.\<close>

record 'w network =
  url_error :: "string \<Rightarrow> string option"
  round_trip :: "http_request \<Rightarrow> 'w \<Rightarrow> (string + string \<times> string option \<times> int) \<times> 'w"

record kemp =
  kemp_Endpoint :: string
  kemp_User :: string
  kemp_Password :: string
  kemp_HttpPort :: int
  kemp_HttpsPort :: int

definition kemp_initialize :: "kemp \<Rightarrow> kemp" where
  "kemp_initialize k =
     (let k = (if kemp_HttpPort k = 0 then k\<lparr>kemp_HttpPort := 80\<rparr> else k)
      in if kemp_HttpsPort k = 0 then k\<lparr>kemp_HttpsPort := 443\<rparr> else k)"

definition newAuthRequest :: "'w network \<Rightarrow> kemp \<Rightarrow> string \<Rightarrow> string \<Rightarrow> (string \<times> string) list \<Rightarrow> string + http_request" where
  "newAuthRequest net k method url query =
     (case url_error net url of
        Some err \<Rightarrow> Inl err
      | None \<Rightarrow> Inr \<lparr>req_method = method, req_url = url, req_query = query,
                    req_user = kemp_User k, req_password = kemp_Password k\<rparr>)"

definition newVSRequest :: "'w network \<Rightarrow> kemp \<Rightarrow> string \<Rightarrow> Message \<Rightarrow> string + http_request" where
  "newVSRequest net k path msg =
     (case newAuthRequest net k ''GET'' (kemp_Endpoint k @ path) [] of
        Inl err \<Rightarrow> Inl err
      | Inr req \<Rightarrow>
          (let port = Itoa (kemp_HttpsPort k);
               port = (if \<not> svc_TLS (msg_Service msg) then Itoa (kemp_HttpPort k) else port)
           in Inr (req\<lparr>req_query := req_query req @
                [(''vs'', svc_PublicIP (msg_Service msg)), (''port'', port), (''prot'', ''tcp'')]\<rparr>)))"

text \<open>An error while reading the body is logged and not returned.\<close>

definition executeRequest :: "'w network \<Rightarrow> http_request \<Rightarrow> 'w \<Rightarrow> (string + string \<times> int) \<times> 'w" where
  "executeRequest net r w =
     (case round_trip net r w of
        (Inl err, w) \<Rightarrow> (Inl err, w)
      | (Inr (body, readErr, statusCode), w) \<Rightarrow> (Inr (body, statusCode), w))"

section \<open>Virtual and real servers\<close>

definition testConnection :: "'w network \<Rightarrow> kemp \<Rightarrow> 'w \<Rightarrow> string option \<times> 'w" where
  "testConnection net k w =
     (case newAuthRequest net k ''GET'' (kemp_Endpoint k @ ''/access/listvs'') [] of
        Inl err \<Rightarrow> (Some err, w)
      | Inr req \<Rightarrow> (case executeRequest net req w of
            (Inl err, w) \<Rightarrow> (Some err, w)
          | (Inr (body, httpCode), w) \<Rightarrow>
              (if httpCode \<noteq> 200 then Some ''could not establish connection'' else None, w)))"

definition deleteVS :: "'w network \<Rightarrow> kemp \<Rightarrow> Message \<Rightarrow> 'w \<Rightarrow> string option \<times> 'w" where
  "deleteVS net k msg w =
     (case newVSRequest net k ''/access/delvs'' msg of
        Inl err \<Rightarrow> (Some err, w)
      | Inr req \<Rightarrow> (case executeRequest net req w of
            (Inl err, w) \<Rightarrow> (Some err, w)
          | (Inr (body, httpCode), w) \<Rightarrow>
              (if httpCode \<noteq> 200 then Some ''could not delete VS'' else None, w)))"

definition isVSDefined :: "'w network \<Rightarrow> kemp \<Rightarrow> Message \<Rightarrow> 'w \<Rightarrow> (bool \<times> string option) \<times> 'w" where
  "isVSDefined net k msg w =
     (case newVSRequest net k ''/access/showvs'' msg of
        Inl err \<Rightarrow> ((False, Some err), w)
      | Inr req \<Rightarrow> (case executeRequest net req w of
            (Inl err, w) \<Rightarrow> ((False, Some err), w)
          | (Inr (body, httpCode), w) \<Rightarrow>
              (if httpCode = 200 then (True, None)
               else if httpCode = 422 then (False, None)
               else (False, Some (''Unexpected http exit code '' @ Itoa httpCode)), w)))"

definition isRSDefined :: "'w network \<Rightarrow> kemp \<Rightarrow> Message \<Rightarrow> Target \<Rightarrow> 'w \<Rightarrow> (bool \<times> string option) \<times> 'w" where
  "isRSDefined net k msg target w =
     (case newVSRequest net k ''/access/showrs'' msg of
        Inl err \<Rightarrow> ((False, Some err), w)
      | Inr req \<Rightarrow>
          (let req = req\<lparr>req_query := req_query req @
                 [(''rsport'', Itoa (uint (tgt_Port target))), (''rs'', tgt_Host target)]\<rparr>
           in case executeRequest net req w of
                (Inl err, w) \<Rightarrow> ((False, Some err), w)
              | (Inr (body, httpCode), w) \<Rightarrow> ((httpCode = 200, None), w)))"

definition addVS :: "'w network \<Rightarrow> kemp \<Rightarrow> Message \<Rightarrow> 'w \<Rightarrow> string option \<times> 'w" where
  "addVS net k msg w =
     (case isVSDefined net k msg w of
        ((exist, Some err), w) \<Rightarrow> (Some err, w)
      | ((exist, None), w) \<Rightarrow>
          (if \<not> exist then
             (case newVSRequest net k ''/access/addvs'' msg of
                Inl err \<Rightarrow> (Some err, w)
              | Inr req \<Rightarrow>
                  (let req = req\<lparr>req_query := req_query req @
                         [(''nickname'', svc_Name (msg_Service msg)), (''vstype'', ''gen''), (''checktype'', ''icmp'')]\<rparr>
                   in case executeRequest net req w of
                        (Inl err, w) \<Rightarrow> (Some err, w)
                      | (Inr (body, httpCode), w) \<Rightarrow> (None, w)))
           else (None, w)))"

fun addRS_loop :: "'w network \<Rightarrow> kemp \<Rightarrow> Message \<Rightarrow> Target list \<Rightarrow> 'w \<Rightarrow> string option \<times> 'w" where
  "addRS_loop net k msg [] w = (None, w)"
| "addRS_loop net k msg (t # ts) w =
     (case isRSDefined net k msg t w of
        ((rsExists, err), w) \<Rightarrow>
          (if \<not> rsExists then
             (case newVSRequest net k ''/access/addrs'' msg of
                Inl err \<Rightarrow> (Some err, w)
              | Inr req \<Rightarrow>
                  (let q = req_query req @ [(''rs'', tgt_Host t), (''rsport'', Itoa (uint (tgt_Port t))),
                                            (''non_local'', ''1'')]
                   in case newAuthRequest net k ''GET'' (req_url req) q of
                        Inl err \<Rightarrow> (Some err, w)
                      | Inr req \<Rightarrow> (case executeRequest net req w of
                            (Inl err, w) \<Rightarrow> (Some err, w)
                          | (Inr (body, httpCode), w) \<Rightarrow> addRS_loop net k msg ts w)))
           else addRS_loop net k msg ts w))"

definition addRS :: "'w network \<Rightarrow> kemp \<Rightarrow> Message \<Rightarrow> 'w \<Rightarrow> string option \<times> 'w" where
  "addRS net k msg w = addRS_loop net k msg (elems (svc_Targets (msg_Service msg))) w"

section \<open>The message handler\<close>

definition kemp_receive :: "'w network \<Rightarrow> kemp \<Rightarrow> Message \<Rightarrow> 'w \<Rightarrow> Message list \<times> 'w" where
  "kemp_receive net k msg w =
     (if msg_Action msg = AddAction then
        (let msg = msg\<lparr>msg_Action := UpdateAction\<rparr> in
         case addVS net k msg w of
           (Some err, w) \<Rightarrow> ([msg\<lparr>msg_Error := err\<rparr>], w)
         | (None, w) \<Rightarrow> (case addRS net k msg w of
               (Some err, w) \<Rightarrow> ([msg\<lparr>msg_Error := err\<rparr>], w)
             | (None, w) \<Rightarrow> ([msg], w)))
      else if msg_Action msg = UpdateAction then ([msg], w)
      else if msg_Action msg = DeleteAction then
        (let msg = msg\<lparr>msg_Action := UpdateAction\<rparr> in
         case isVSDefined net k msg w of
           ((exist, err), w) \<Rightarrow>
             (let msg = (case err of None \<Rightarrow> msg | Some err \<Rightarrow> msg\<lparr>msg_Error := err\<rparr>) in
              if exist then
                (case deleteVS net k msg w of
                   (Some err, w) \<Rightarrow> ([msg\<lparr>msg_Error := err\<rparr>], w)
                 | (None, w) \<Rightarrow> ([msg], w))
              else ([msg], w)))
      else ([], w))"

section \<open>The contract of a provisioner\<close>

lemma kemp_one_answer:
  assumes "core_request m"
  shows "\<exists>r w'. kemp_receive net k m w = ([r], w') \<and> answers r m"
  using assms
  by (auto simp: kemp_receive_def core_request_def answers_def AddAction_def DeleteAction_def Let_def
      split: prod.splits option.splits)

interpretation lb: provisioner "\<lambda>s. True" "\<lambda>w. True" "\<lambda>m w. Some (kemp_receive net k m w)" for net k
  by unfold_locales (use kemp_one_answer in fastforce)

section \<open>Properties\<close>

text \<open>
  The load balancer's refusals are not noticed. When the device answers every request, says
  that the virtual server is not defined, and answers the requests that create it and its real
  servers with whatever status, the service is reported as added, without an error.
\<close>

theorem kemp_refusal_unnoticed:
  assumes "msg_Action m = AddAction" and "msg_Error m = ''''"
    and "\<forall>url. url_error net url = None"
    and "\<forall>r w. \<exists>body err code w'. round_trip net r w = (Inr (body, err, code), w')"
    and "fst (isVSDefined net k (m\<lparr>msg_Action := UpdateAction\<rparr>) w) = (False, None)"
  shows "\<exists>w'. kemp_receive net k m w = ([m\<lparr>msg_Action := UpdateAction\<rparr>], w')"
proof -
  let ?m = "m\<lparr>msg_Action := UpdateAction\<rparr>"
  have vs: "\<exists>req. newVSRequest net k path x = Inr req" for path and x :: Message
    using assms(3) by (simp add: newVSRequest_def newAuthRequest_def Let_def)
  have ex: "\<exists>b c w'. executeRequest net req v = (Inr (b, c), w')" for req v
    using assms(4) [rule_format, of req v] by (auto simp: executeRequest_def)
  obtain w1 where d: "isVSDefined net k ?m w = ((False, None), w1)"
    using assms(5) by (cases "isVSDefined net k ?m w") auto
  obtain req where "newVSRequest net k ''/access/addvs'' ?m = Inr req" using vs by blast
  then obtain w2 where add: "addVS net k ?m w = (None, w2)"
    using d ex [of _ w1] by (simp add: addVS_def Let_def) (metis (no_types, lifting) old.prod.case sum.case(2))
  have "\<exists>v'. addRS_loop net k ?m ts v = (None, v')" for ts v
  proof (induction ts arbitrary: v)
    case (Cons t ts)
    obtain b err v1 where d: "isRSDefined net k ?m t v = ((b, err), v1)" by (cases "isRSDefined net k ?m t v") auto
    obtain req where req: "newVSRequest net k ''/access/addrs'' ?m = Inr req" using vs by blast
    obtain req' where req': "newAuthRequest net k ''GET'' (req_url req)
        (req_query req @ [(''rs'', tgt_Host t), (''rsport'', Itoa (uint (tgt_Port t))), (''non_local'', ''1'')]) = Inr req'"
      using assms(3) by (simp add: newAuthRequest_def)
    obtain x c v2 where "executeRequest net req' v1 = (Inr (x, c), v2)" using ex by blast
    then show ?case using d req req' Cons.IH [of v1] Cons.IH [of v2] by (auto simp: Let_def)
  qed simp
  then obtain w3 where "addRS net k ?m w2 = (None, w3)" unfolding addRS_def by blast
  with add show ?thesis using assms(1) by (simp add: kemp_receive_def Let_def)
qed

text \<open>A device that knows no server and refuses every request that is not a query.\<close>

definition refusing_device :: "unit network" where
  "refusing_device = \<lparr>url_error = (\<lambda>u. None),
     round_trip = (\<lambda>r w. (Inr (''...'', None, if req_url r = ''https://lm/access/showvs'' then 422 else 500), w))\<rparr>"

definition demo_kemp :: kemp where
  "demo_kemp = \<lparr>kemp_Endpoint = ''https://lm'', kemp_User = ''u'', kemp_Password = ''p'', kemp_HttpPort = 80,
     kemp_HttpsPort = 443\<rparr>"

theorem kemp_refusal_unnoticed_witness:
  "\<exists>w'. kemp_receive refusing_device demo_kemp
     (zero_Message\<lparr>msg_Action := AddAction, msg_Service := zero_Service
        \<lparr>svc_Targets := Some [\<lparr>tgt_Host = ''10.1.1.1'', tgt_Port = 80, tgt_Weight = 1\<rparr>]\<rparr>\<rparr>) () =
     ([zero_Message\<lparr>msg_Action := UpdateAction, msg_Service := zero_Service
        \<lparr>svc_Targets := Some [\<lparr>tgt_Host = ''10.1.1.1'', tgt_Port = 80, tgt_Weight = 1\<rparr>]\<rparr>\<rparr>], w')"
  using kemp_refusal_unnoticed [of "zero_Message\<lparr>msg_Action := AddAction, msg_Service := zero_Service
        \<lparr>svc_Targets := Some [\<lparr>tgt_Host = ''10.1.1.1'', tgt_Port = 80, tgt_Weight = 1\<rparr>]\<rparr>\<rparr>" refusing_device demo_kemp "()"]
  by (simp add: refusing_device_def demo_kemp_def isVSDefined_def newVSRequest_def newAuthRequest_def
      executeRequest_def zero_Message_def zero_Service_def Let_def)

section \<open>Requests sent\<close>

text \<open>The network with a log of the requests made.\<close>

definition logged :: "'w network \<Rightarrow> ('w \<times> http_request list) network" where
  "logged net = \<lparr>url_error = url_error net,
     round_trip = (\<lambda>r (w, l). case round_trip net r w of (a, w') \<Rightarrow> (a, (w', l @ [r])))\<rparr>"

definition vs_request :: "kemp \<Rightarrow> string \<Rightarrow> Message \<Rightarrow> http_request" where
  "vs_request k path m =
     \<lparr>req_method = ''GET'', req_url = kemp_Endpoint k @ path,
      req_query = [(''vs'', svc_PublicIP (msg_Service m)),
        (''port'', Itoa (if svc_TLS (msg_Service m) then kemp_HttpsPort k else kemp_HttpPort k)), (''prot'', ''tcp'')],
      req_user = kemp_User k, req_password = kemp_Password k\<rparr>"

lemma newVSRequest_ok:
  "url_error net (kemp_Endpoint k @ path) = None \<Longrightarrow> newVSRequest net k path m = Inr (vs_request k path m)"
  by (simp add: newVSRequest_def newAuthRequest_def vs_request_def Let_def)

text \<open>
  A deletion asks the device once whether the virtual server (the service's public address and
  port, by its TLS flag) is defined, and sends exactly one delete request for it if so and none
  otherwise; the answer carries an error if the query fails, if its status is neither 200 nor 422,
  or if the deletion fails or is refused.
\<close>

theorem kemp_delete_requests:
  assumes "msg_Action m = DeleteAction" and "\<forall>url. url_error net url = None"
    and "round_trip net (vs_request k ''/access/showvs'' m) w = (a, w1)"
    and "round_trip net (vs_request k ''/access/delvs'' m) w1 = (b, w2)"
  shows "\<exists>r v. kemp_receive (logged net) k m (w, l) = ([r], v) \<and>
    (case a of
       Inl err \<Rightarrow> snd v = l @ [vs_request k ''/access/showvs'' m] \<and> msg_Error r = err
     | Inr (body, e, code) \<Rightarrow>
         if code = 200 then
           snd v = l @ [vs_request k ''/access/showvs'' m, vs_request k ''/access/delvs'' m] \<and>
           msg_Error r = (case b of Inl err \<Rightarrow> err
             | Inr (body, e, code) \<Rightarrow> if code = 200 then msg_Error m else ''could not delete VS'')
         else snd v = l @ [vs_request k ''/access/showvs'' m] \<and>
           msg_Error r = (if code = 422 then msg_Error m else ''Unexpected http exit code '' @ Itoa code))"
proof -
  let ?net = "logged net" and ?m = "m\<lparr>msg_Action := UpdateAction\<rparr>"
  have m: "vs_request k path ?m = vs_request k path m" for path by (simp add: vs_request_def)
  have ok: "newVSRequest ?net k path ?m = Inr (vs_request k path m)" for path
    using newVSRequest_ok [of ?net k path ?m] assms(2) m by (simp add: logged_def)
  have rt: "round_trip ?net r (v, l) = (fst (round_trip net r v), (snd (round_trip net r v), l @ [r]))" for r v l
    by (simp add: logged_def split: prod.splits)
  show ?thesis
  proof (cases a)
    case (Inl err)
    then show ?thesis using assms(1,3)
      by (simp add: kemp_receive_def isVSDefined_def ok executeRequest_def rt Let_def)
  next
    case (Inr x)
    obtain body e code where x: "x = (body, e, code)" by (cases x)
    show ?thesis
      using assms(1,3,4) Inr x
      by (cases b) (auto simp: kemp_receive_def isVSDefined_def deleteVS_def ok executeRequest_def rt Let_def split: prod.splits)
  qed
qed

theorem kemp_delete_requests_witness:
  "\<exists>r v. kemp_receive (logged refusing_device) demo_kemp (zero_Message\<lparr>msg_Action := DeleteAction\<rparr>) ((), []) = ([r], v) \<and>
     length (snd v) = 1 \<and> msg_Error r = ''''"
proof -
  let ?m = "zero_Message\<lparr>msg_Action := DeleteAction\<rparr>"
  have "round_trip refusing_device (vs_request demo_kemp ''/access/showvs'' ?m) () = (Inr (''...'', None, 422), ())"
    "round_trip refusing_device (vs_request demo_kemp ''/access/delvs'' ?m) () = (Inr (''...'', None, 500), ())"
    by (simp_all add: refusing_device_def vs_request_def demo_kemp_def)
  from kemp_delete_requests [OF _ _ this, of "[]"] show ?thesis
    by (auto simp: refusing_device_def zero_Message_def)
qed

end
