(* ===== verification/F5LTM.thy ===== *)
theory F5LTM
  imports Comm
begin

text \<open>
  \<open>src/provisioner/loadbalancer/f5ltm/f5ltm.go\<close> and \<open>helper.go\<close>: the F5 BIG-IP provisioner, which keeps
  a pool per service and either a virtual server per service (update mode \<open>vs\<close>) or a rule per service
  in a shared policy (mode \<open>policy\<close>). The device client of \<open>go-bigip\<close> is an argument of the model,
  one function per method of the interface \<open>f5Cli\<close> on a device state \<^typ>\<open>'w\<close>.

  The functions of the model return \<^typ>\<open>('a \<times> 'w) option\<close>: \<^term>\<open>None\<close> is a panic, the use of a nil
  pointer that a client method returned without an error.
\<close>

section \<open>Objects of the device\<close>

text \<open>The fields of the \<open>go-bigip\<close> structs that the provisioner sets or reads.\<close>

record bigip_Node =
  nd_Name :: string
  nd_Address :: string
  nd_Partition :: string

record bigip_PoolMember =
  pm_Name :: string
  pm_FullPath :: string
  pm_Address :: string
  pm_Partition :: string
  pm_Ratio :: int
  pm_Monitor :: string
  pm_Description :: string

record bigip_Pool =
  pl_Name :: string
  pl_Partition :: string
  pl_FullPath :: string
  pl_Description :: string
  pl_LoadBalancingMode :: string
  pl_Monitor :: string

record bigip_PolicyRuleCondition =
  prc_Name :: string
  prc_CaseInsensitive :: bool
  prc_Equals :: bool
  prc_External :: bool
  prc_Remote :: bool
  prc_Values :: "string slice"
  prc_Present :: bool
  prc_ServerName :: bool
  prc_SslExtension :: bool
  prc_SslClientHello :: bool
  prc_HttpHost :: bool
  prc_Host :: bool
  prc_Request :: bool

record bigip_PolicyRuleAction =
  pra_Name :: string
  pra_Forward :: bool
  pra_Pool :: string
  pra_SslClientHello :: bool
  pra_Request :: bool

record bigip_PolicyRule =
  pr_Name :: string
  pr_Description :: string
  pr_Conditions :: "bigip_PolicyRuleCondition list"
  pr_Actions :: "bigip_PolicyRuleAction list"

text \<open>Of a policy only the rules are used.\<close>

type_synonym bigip_Policy = "bigip_PolicyRule list"

record bigip_VirtualServer =
  vs_Name :: string
  vs_Destination :: string
  vs_IPProtocol :: string
  vs_Pool :: string
  vs_Partition :: string
  vs_Description :: string
  vs_SourceAddressTranslation :: string

definition zero_VirtualServer :: bigip_VirtualServer where
  "zero_VirtualServer = \<lparr>vs_Name = '''', vs_Destination = '''', vs_IPProtocol = '''', vs_Pool = '''',
     vs_Partition = '''', vs_Description = '''', vs_SourceAddressTranslation = ''''\<rparr>"

text \<open>
  A method that changes the device answers with an error text or none; one that reads answers with
  an error text or a pointer, \<^term>\<open>None\<close> for nil. \<open>cli_Quote\<close> is \<open>strconv.Quote\<close>, which the text of a
  conversion error contains.
\<close>

type_synonym 'w change = "'w \<Rightarrow> string option \<times> 'w"
type_synonym ('a, 'w) query = "'w \<Rightarrow> (string + 'a option) \<times> 'w"

record 'w f5Cli =
  cli_AddPool :: "bigip_Pool \<Rightarrow> 'w change"
  cli_AddRuleToPolicy :: "string \<Rightarrow> bigip_PolicyRule \<Rightarrow> 'w change"
  cli_AddVirtualServer :: "bigip_VirtualServer \<Rightarrow> 'w change"
  cli_CreateDraftFromPolicy :: "string \<Rightarrow> 'w change"
  cli_DeletePolicy :: "string \<Rightarrow> 'w change"
  cli_DeletePool :: "string \<Rightarrow> 'w change"
  cli_DeleteVirtualServer :: "string \<Rightarrow> 'w change"
  cli_GetPolicy :: "string \<Rightarrow> (bigip_Policy, 'w) query"
  cli_GetPool :: "string \<Rightarrow> (bigip_Pool, 'w) query"
  cli_GetVirtualServer :: "string \<Rightarrow> (bigip_VirtualServer, 'w) query"
  cli_ModifyPolicyRule :: "string \<Rightarrow> string \<Rightarrow> bigip_PolicyRule \<Rightarrow> 'w change"
  cli_ModifyPool :: "string \<Rightarrow> bigip_Pool \<Rightarrow> 'w change"
  cli_ModifyVirtualServer :: "string \<Rightarrow> bigip_VirtualServer \<Rightarrow> 'w change"
  cli_Nodes :: "(bigip_Node list, 'w) query"
  cli_PoolMembers :: "string \<Rightarrow> (bigip_PoolMember list, 'w) query"
  cli_PublishDraftPolicy :: "string \<Rightarrow> 'w change"
  cli_RefreshTokenSession :: "int \<Rightarrow> 'w change"
  cli_RemoveRuleFromPolicy :: "string \<Rightarrow> string \<Rightarrow> 'w change"
  cli_UpdatePoolMembers :: "string \<Rightarrow> bigip_PoolMember list \<Rightarrow> 'w change"
  cli_Quote :: "string \<Rightarrow> string"

section \<open>Configuration\<close>

record BigIP =
  f5_Endpoint :: string
  f5_User :: string
  f5_Password :: string
  f5_AuthProvider :: string
  f5_HttpPort :: int
  f5_HttpsPort :: int
  f5_MonitorName :: string
  f5_LoadBalancingMode :: string
  f5_Partition :: string
  f5_UpdateMode :: string
  f5_GlobalHTTPPolicy :: string
  f5_GlobalSSLPolicy :: string
  f5_ObjectDescriptionSuffix :: string

text \<open>
  \<open>initialize\<close> fills in defaults and opens a session (\<open>setCli\<close>, by \<open>bigip.NewTokenSession\<close>) unless a
  client is set already; an error of the session is the error of \<open>Start\<close>.
\<close>

definition setCli :: "(string \<Rightarrow> string \<Rightarrow> string \<Rightarrow> string \<Rightarrow> string + 'c) \<Rightarrow> BigIP \<Rightarrow> string + 'c" where
  "setCli NewTokenSession f5 =
     NewTokenSession (f5_Endpoint f5) (f5_User f5) (f5_Password f5) (f5_AuthProvider f5)"

definition f5_initialize :: "(string \<Rightarrow> string \<Rightarrow> string \<Rightarrow> string \<Rightarrow> string + 'c) \<Rightarrow> 'c option \<Rightarrow> BigIP \<Rightarrow>
    string + BigIP \<times> 'c" where
  "f5_initialize NewTokenSession cli f5 =
     (let f5 = (if f5_HttpPort f5 = 0 then f5\<lparr>f5_HttpPort := 80\<rparr> else f5);
          f5 = (if f5_HttpsPort f5 = 0 then f5\<lparr>f5_HttpsPort := 443\<rparr> else f5);
          f5 = (if f5_LoadBalancingMode f5 = '''' then f5\<lparr>f5_LoadBalancingMode := ''least-connections-member''\<rparr> else f5);
          f5 = (if f5_AuthProvider f5 = '''' \<and> f5_User f5 \<noteq> '''' then f5\<lparr>f5_AuthProvider := ''tmos''\<rparr> else f5);
          f5 = (if f5_ObjectDescriptionSuffix f5 = ''''
                then f5\<lparr>f5_ObjectDescriptionSuffix := ''(auto generated - do not edit)''\<rparr> else f5)
      in case cli of
           Some c \<Rightarrow> Inr (f5, c)
         | None \<Rightarrow> (case setCli NewTokenSession f5 of Inl err \<Rightarrow> Inl err | Inr c \<Rightarrow> Inr (f5, c)))"

section \<open>Names and objects built from a message\<close>

definition addPartitionToPath :: "BigIP \<Rightarrow> string \<Rightarrow> string" where
  "addPartitionToPath f5 name =
     (if f5_Partition f5 \<noteq> '''' then ''/'' @ f5_Partition f5 @ ''/'' @ name else name)"

definition addPartitionToName :: "BigIP \<Rightarrow> string \<Rightarrow> string" where
  "addPartitionToName f5 name =
     (if f5_Partition f5 \<noteq> '''' then ''~'' @ f5_Partition f5 @ ''~'' @ name else name)"

definition getGlobalPolicyInfo :: "BigIP \<Rightarrow> bool \<Rightarrow> string \<times> string \<times> string" where
  "getGlobalPolicyInfo f5 tls =
     (let globalPolicy = f5_GlobalHTTPPolicy f5;
          globalPolicy = (if tls then f5_GlobalSSLPolicy f5 else globalPolicy)
      in (globalPolicy, addPartitionToName f5 (''Drafts~'' @ globalPolicy),
          addPartitionToPath f5 (''Drafts/'' @ globalPolicy)))"

definition getLBPort :: "BigIP \<Rightarrow> Message \<Rightarrow> int" where
  "getLBPort f5 msg = (if \<not> svc_TLS (msg_Service msg) then f5_HttpPort f5 else f5_HttpsPort f5)"

definition newPoolFromService :: "BigIP \<Rightarrow> Message \<Rightarrow> bigip_Pool" where
  "newPoolFromService f5 msg =
     \<lparr>pl_Name = svc_Name (msg_Service msg), pl_Partition = f5_Partition f5, pl_FullPath = '''',
      pl_Description = ''Pool for '' @ svc_Name (msg_Service msg) @ '' '' @ f5_ObjectDescriptionSuffix f5,
      pl_LoadBalancingMode = f5_LoadBalancingMode f5, pl_Monitor = f5_MonitorName f5\<rparr>"

definition buildPolicyRuleFromMsg :: "BigIP \<Rightarrow> Message \<Rightarrow> bigip_PolicyRule" where
  "buildPolicyRuleFromMsg f5 msg =
     (let prc = \<lparr>prc_Name = ''0'', prc_CaseInsensitive = True, prc_Equals = False, prc_External = False,
            prc_Remote = False, prc_Values = svc_DNSAliases (msg_Service msg), prc_Present = False,
            prc_ServerName = False, prc_SslExtension = False, prc_SslClientHello = False,
            prc_HttpHost = False, prc_Host = False, prc_Request = False\<rparr>;
          pra = \<lparr>pra_Name = ''0'', pra_Forward = True,
            pra_Pool = addPartitionToPath f5 (svc_Name (msg_Service msg)),
            pra_SslClientHello = False, pra_Request = False\<rparr>;
          (prc, pra) =
            (if svc_TLS (msg_Service msg)
             then (prc\<lparr>prc_Present := True, prc_ServerName := True, prc_SslExtension := True,
                       prc_SslClientHello := True\<rparr>, pra\<lparr>pra_SslClientHello := True\<rparr>)
             else (prc\<lparr>prc_HttpHost := True, prc_Host := True, prc_Request := True\<rparr>,
                   pra\<lparr>pra_Request := True\<rparr>))
      in \<lparr>pr_Name = svc_Name (msg_Service msg),
          pr_Description = ''ingress rule for '' @ svc_Name (msg_Service msg) @ '' '' @ f5_ObjectDescriptionSuffix f5,
          pr_Conditions = [prc], pr_Actions = [pra]\<rparr>)"

section \<open>Pools\<close>

text \<open>A node or its absence, as the flag beside the node says; an error counts as absence.\<close>

definition getNodeByAddress :: "'w f5Cli \<Rightarrow> string \<Rightarrow> 'w \<Rightarrow> (bigip_Node option \<times> 'w) option" where
  "getNodeByAddress c address w =
     (case cli_Nodes c w of
        (Inl err, w) \<Rightarrow> Some (None, w)
      | (Inr None, w) \<Rightarrow> None
      | (Inr (Some nodes), w) \<Rightarrow> Some (find (\<lambda>n. nd_Address n = address) nodes, w))"

definition pool_member :: "BigIP \<Rightarrow> Message \<Rightarrow> bigip_Node option \<Rightarrow> Target \<Rightarrow> bigip_PoolMember" where
  "pool_member f5 msg node t =
     (let description = ''Pool Member for '' @ svc_Name (msg_Service msg) @ '' '' @ f5_ObjectDescriptionSuffix f5
      in case node of
        Some node \<Rightarrow> \<lparr>pm_Name = nd_Name node @ '':'' @ Itoa (uint (tgt_Port t)), pm_FullPath = '''',
            pm_Address = nd_Address node, pm_Partition = nd_Partition node, pm_Ratio = tgt_Weight t,
            pm_Monitor = f5_MonitorName f5, pm_Description = description\<rparr>
      | None \<Rightarrow> \<lparr>pm_Name = tgt_Host t @ '':'' @ Itoa (uint (tgt_Port t)), pm_FullPath = '''',
            pm_Address = tgt_Host t, pm_Partition = f5_Partition f5, pm_Ratio = tgt_Weight t,
            pm_Monitor = f5_MonitorName f5, pm_Description = description\<rparr>)"

fun build_members :: "BigIP \<Rightarrow> 'w f5Cli \<Rightarrow> Message \<Rightarrow> Target list \<Rightarrow> 'w \<Rightarrow> (bigip_PoolMember list \<times> 'w) option" where
  "build_members f5 c msg [] w = Some ([], w)"
| "build_members f5 c msg (t # ts) w = do {
     (node, w) \<leftarrow> getNodeByAddress c (tgt_Host t) w;
     (members, w) \<leftarrow> build_members f5 c msg ts w;
     Some (pool_member f5 msg node t # members, w)
   }"

definition buildPoolMembersFromMessage :: "BigIP \<Rightarrow> 'w f5Cli \<Rightarrow> Message \<Rightarrow> 'w \<Rightarrow> (bigip_PoolMember list \<times> 'w) option" where
  "buildPoolMembersFromMessage f5 c msg w = build_members f5 c msg (elems (svc_Targets (msg_Service msg))) w"

text \<open>\<open>createPool\<close> returns the pool and an error or none.\<close>

definition createPool :: "BigIP \<Rightarrow> 'w f5Cli \<Rightarrow> Message \<Rightarrow> 'w \<Rightarrow> ((bigip_Pool \<times> string option) \<times> 'w) option" where
  "createPool f5 c msg w =
     (let pool = newPoolFromService f5 msg in
      case cli_AddPool c pool w of
        (Some err, w) \<Rightarrow> Some ((pool, Some err), w)
      | (None, w) \<Rightarrow> do {
          (members, w) \<leftarrow> buildPoolMembersFromMessage f5 c msg w;
          (case cli_UpdatePoolMembers c (addPartitionToName f5 (pl_Name pool)) members w of
             (Some err, w) \<Rightarrow> Some ((pool, Some err), w)
           | (None, w) \<Rightarrow>
               (case cli_ModifyPool c (addPartitionToName f5 (pl_Name pool)) pool w of
                  (Some err, w) \<Rightarrow> Some ((pool, Some err), w)
                | (None, w) \<Rightarrow> Some ((pool, None), w)))
        })"

text \<open>
  The targets that a pool's members stand for, read until the first port that is no number. The port
  follows the last colon of the member's path; all of a path without one is read as the port.
\<close>

definition member_port :: "string \<Rightarrow> string" where
  "member_port path = drop (nat (LastIndex CHR '':'' path + 1)) path"

fun read_members :: "'w f5Cli \<Rightarrow> Target slice \<Rightarrow> bigip_PoolMember list \<Rightarrow> string + Target slice" where
  "read_members c targets [] = Inr targets"
| "read_members c targets (member # ms) =
     (case Atoi (member_port (pm_FullPath member)) of
        (port, Some err) \<Rightarrow> Inl (''Could not convert Pool member port '' @ pm_FullPath member @ '' '' @
            atoi_error (cli_Quote c) (member_port (pm_FullPath member)) err)
      | (port, None) \<Rightarrow> read_members c (append_slice targets
            \<lparr>tgt_Host = pm_Address member, tgt_Port = word_of_int port, tgt_Weight = pm_Ratio member\<rparr>) ms)"

definition poolMembersNeedsUpdate :: "'w f5Cli \<Rightarrow> bigip_Pool \<Rightarrow> Message \<Rightarrow> 'w \<Rightarrow> ((string + bool) \<times> 'w) option" where
  "poolMembersNeedsUpdate c pool msg w =
     (case cli_PoolMembers c (pl_FullPath pool) w of
        (Inl err, w) \<Rightarrow> Some (Inl (''Could not get members of Pool '' @ pl_FullPath pool @ '' '' @ err), w)
      | (Inr None, w) \<Rightarrow> None
      | (Inr (Some pm), w) \<Rightarrow>
          (case read_members c None pm of
             Inl err \<Rightarrow> Some (Inl err, w)
           | Inr targets \<Rightarrow> Some (Inr (if targets \<noteq> svc_Targets (msg_Service msg) then True else False), w)))"

definition updatePoolMembers :: "BigIP \<Rightarrow> 'w f5Cli \<Rightarrow> bigip_Pool \<Rightarrow> Message \<Rightarrow> 'w \<Rightarrow> (string option \<times> 'w) option" where
  "updatePoolMembers f5 c pool msg w = do {
     (un, w) \<leftarrow> poolMembersNeedsUpdate c pool msg w;
     (case un of
        Inl err \<Rightarrow> Some (Some err, w)
      | Inr un \<Rightarrow>
          if \<not> un then Some (None, w)
          else do {
            (members, w) \<leftarrow> buildPoolMembersFromMessage f5 c msg w;
            (case cli_UpdatePoolMembers c (addPartitionToName f5 (pl_Name pool)) members w of
               (Some err, w) \<Rightarrow> Some (Some err, w)
             | (None, w) \<Rightarrow>
                 (case cli_ModifyPool c (addPartitionToName f5 (pl_Name pool)) pool w of
                    (Some err, w) \<Rightarrow> Some (Some err, w)
                  | (None, w) \<Rightarrow> Some (None, w)))
          })
   }"

definition upsertPool :: "BigIP \<Rightarrow> 'w f5Cli \<Rightarrow> Message \<Rightarrow> 'w \<Rightarrow> (string option \<times> 'w) option" where
  "upsertPool f5 c msg w =
     (let name = svc_Name (msg_Service msg) in
      case cli_GetPool c (addPartitionToName f5 name) w of
        (Inl err, w) \<Rightarrow> Some (Some (''Could not get Pool '' @ name @ '' '' @ err), w)
      | (Inr None, w) \<Rightarrow> do {
          ((pool, err), w) \<leftarrow> createPool f5 c msg w;
          (case err of
             Some err \<Rightarrow> Some (Some (''could not create Pool '' @ name @ '' '' @ err), w)
           | None \<Rightarrow> Some (None, w))
        }
      | (Inr (Some pool), w) \<Rightarrow> updatePoolMembers f5 c pool msg w)"

section \<open>Policies\<close>

text \<open>
  The scan of a policy's rules: whether the rule of the service needs an update, and whether one was
  found. A rule that differs ends the scan.
\<close>

fun scan_rules :: "BigIP \<Rightarrow> Message \<Rightarrow> bool \<Rightarrow> bigip_PolicyRule list \<Rightarrow> bool \<times> bool" where
  "scan_rules f5 msg exist [] = (False, exist)"
| "scan_rules f5 msg exist (r # rs) =
     (if pr_Name r = svc_Name (msg_Service msg) then
        (if list_ex (\<lambda>condition. (prc_HttpHost condition \<or> prc_ServerName condition) \<and>
              prc_Values condition \<noteq> svc_DNSAliases (msg_Service msg)) (pr_Conditions r) then (True, True)
         else if list_ex (\<lambda>action. pra_Forward action \<and>
              pra_Pool action \<noteq> addPartitionToPath f5 (svc_Name (msg_Service msg))) (pr_Actions r) then (True, True)
         else scan_rules f5 msg True rs)
      else scan_rules f5 msg exist rs)"

definition policyNeedsUpdate :: "BigIP \<Rightarrow> 'w f5Cli \<Rightarrow> string \<Rightarrow> Message \<Rightarrow> 'w \<Rightarrow> (string + bool \<times> bool) \<times> 'w" where
  "policyNeedsUpdate f5 c name msg w =
     (case cli_GetPolicy c name w of
        (Inl err, w) \<Rightarrow> (Inl (''Could not get policy '' @ name @ '' '' @ err), w)
      | (Inr None, w) \<Rightarrow> (Inl ''policy not found'', w)
      | (Inr (Some rules), w) \<Rightarrow> (Inr (scan_rules f5 msg False rules), w))"

section \<open>Virtual server mode\<close>

definition createVirtualServer :: "BigIP \<Rightarrow> 'w f5Cli \<Rightarrow> Message \<Rightarrow> 'w \<Rightarrow> string option \<times> 'w" where
  "createVirtualServer f5 c msg w =
     (let name = svc_Name (msg_Service msg);
          vs = zero_VirtualServer\<lparr>vs_Name := name,
            vs_Destination := svc_PublicIP (msg_Service msg) @ '':'' @ Itoa (getLBPort f5 msg),
            vs_IPProtocol := ''tcp'', vs_Pool := name, vs_Partition := f5_Partition f5,
            vs_Description := ''Virtual Server for '' @ name @ '' '' @ f5_ObjectDescriptionSuffix f5\<rparr>;
          vs = vs\<lparr>vs_SourceAddressTranslation := ''automap''\<rparr>
      in cli_AddVirtualServer c vs w)"

definition HandleVSUpdate :: "BigIP \<Rightarrow> 'w f5Cli \<Rightarrow> Message \<Rightarrow> 'w \<Rightarrow> (Message \<times> 'w) option" where
  "HandleVSUpdate f5 c msg w =
     (let name = svc_Name (msg_Service msg);
          dest = svc_PublicIP (msg_Service msg) @ '':'' @ Itoa (getLBPort f5 msg) in
      case cli_GetVirtualServer c (addPartitionToName f5 name) w of
        (Inl err, w) \<Rightarrow> Some (msg\<lparr>msg_Error := ''Could not get VS '' @ name @ '' '' @ err\<rparr>, w)
      | (Inr (Some vs), w) \<Rightarrow> do {
          (err, w) \<leftarrow> upsertPool f5 c msg w;
          (case err of
             Some err \<Rightarrow> Some (msg\<lparr>msg_Error := err\<rparr>, w)
           | None \<Rightarrow>
               if \<not> Contains (vs_Destination vs) dest then
                 (case cli_ModifyVirtualServer c (vs_Name vs) (zero_VirtualServer\<lparr>vs_Destination := dest\<rparr>) w of
                    (Some err, w) \<Rightarrow> Some (msg\<lparr>msg_Error := err\<rparr>, w)
                  | (None, w) \<Rightarrow> Some (msg, w))
               else Some (msg, w))
        }
      | (Inr None, w) \<Rightarrow> do {
          ((pool, err), w) \<leftarrow> createPool f5 c msg w;
          (case err of
             Some err \<Rightarrow> Some (msg\<lparr>msg_Error := err\<rparr>, w)
           | None \<Rightarrow>
               (case createVirtualServer f5 c msg w of
                  (Some err, w) \<Rightarrow> Some (msg\<lparr>msg_Error := err\<rparr>, w)
                | (None, w) \<Rightarrow> Some (msg, w)))
        })"

definition handleVSDelete :: "BigIP \<Rightarrow> 'w f5Cli \<Rightarrow> Message \<Rightarrow> 'w \<Rightarrow> Message \<times> 'w" where
  "handleVSDelete f5 c msg w =
     (let msg = msg\<lparr>msg_Action := UpdateAction\<rparr>;
          (err, w) = cli_DeleteVirtualServer c (addPartitionToName f5 (svc_Name (msg_Service msg))) w;
          msg = (case err of Some err \<Rightarrow> msg\<lparr>msg_Error := err\<rparr> | None \<Rightarrow> msg);
          (err, w) = cli_DeletePool c (addPartitionToName f5 (svc_Name (msg_Service msg))) w;
          msg = (case err of Some err \<Rightarrow> msg\<lparr>msg_Error := err\<rparr> | None \<Rightarrow> msg)
      in (msg, w))"

section \<open>Policy mode\<close>

text \<open>
  The deferred deletion of the draft runs at every return after the draft is created; its error is
  only logged.
\<close>

definition drop_draft :: "'w f5Cli \<Rightarrow> string \<Rightarrow> Message \<times> 'w \<Rightarrow> Message \<times> 'w" where
  "drop_draft c draftName res = (case res of (msg, w) \<Rightarrow> (msg, snd (cli_DeletePolicy c draftName w)))"

definition handleGlobalPolicyUpdate :: "BigIP \<Rightarrow> 'w f5Cli \<Rightarrow> Message \<Rightarrow> 'w \<Rightarrow> (Message \<times> 'w) option" where
  "handleGlobalPolicyUpdate f5 c msg w = do {
     (err, w) \<leftarrow> upsertPool f5 c msg w;
     (case err of
        Some err \<Rightarrow> Some (msg\<lparr>msg_Error := err\<rparr>, w)
      | None \<Rightarrow>
        (let name = svc_Name (msg_Service msg);
             (globalPolicy, draftName, draftPath) = getGlobalPolicyInfo f5 (svc_TLS (msg_Service msg)) in
         case policyNeedsUpdate f5 c (addPartitionToName f5 globalPolicy) msg w of
           (Inl err, w) \<Rightarrow> Some (msg\<lparr>msg_Error := err\<rparr>, w)
         | (Inr (needsUpdate, policyRuleExist), w) \<Rightarrow>
           if policyRuleExist \<and> \<not> needsUpdate then Some (msg, w)
           else (case cli_CreateDraftFromPolicy c (addPartitionToName f5 globalPolicy) w of
               (Some err, w) \<Rightarrow> Some (msg\<lparr>msg_Error := ''error creating '' @ draftPath @ '' policy '' @ err\<rparr>, w)
             | (None, w) \<Rightarrow> Some (drop_draft c draftName
                 (if needsUpdate then
                    (case cli_ModifyPolicyRule c draftName name (buildPolicyRuleFromMsg f5 msg) w of
                       (Some err, w) \<Rightarrow> (msg\<lparr>msg_Error := ''could not modify policy rule '' @ name @ '' '' @ err\<rparr>, w)
                     | (None, w) \<Rightarrow> (case cli_PublishDraftPolicy c draftPath w of
                           (Some err, w) \<Rightarrow> (msg\<lparr>msg_Error := ''could not publish draft '' @ globalPolicy @ '' '' @ err\<rparr>, w)
                         | (None, w) \<Rightarrow> (msg, w)))
                  else if \<not> policyRuleExist then
                    (case cli_AddRuleToPolicy c draftName (buildPolicyRuleFromMsg f5 msg) w of
                       (Some err, w) \<Rightarrow> (msg\<lparr>msg_Error := ''error adding rule '' @ name @ '' to draftPath policy '' @ err\<rparr>, w)
                     | (None, w) \<Rightarrow> (case cli_PublishDraftPolicy c draftPath w of
                           (Some err, w) \<Rightarrow> (msg\<lparr>msg_Error := ''could not publish draft '' @ draftPath @ '' '' @ err\<rparr>, w)
                         | (None, w) \<Rightarrow> (msg, w)))
                  else (msg, w))))))
   }"

definition handleGlobalPolicyDelete :: "BigIP \<Rightarrow> 'w f5Cli \<Rightarrow> Message \<Rightarrow> 'w \<Rightarrow> Message \<times> 'w" where
  "handleGlobalPolicyDelete f5 c msg w =
     (let name = svc_Name (msg_Service msg);
          (globalPolicy, draftName, draftPath) = getGlobalPolicyInfo f5 (svc_TLS (msg_Service msg)) in
      case cli_CreateDraftFromPolicy c (addPartitionToName f5 globalPolicy) w of
        (Some err, w) \<Rightarrow> (msg\<lparr>msg_Error := ''error creating '' @ draftPath @ '' policy '' @ err\<rparr>, w)
      | (None, w) \<Rightarrow> drop_draft c draftName
          (let (err, w) = cli_RemoveRuleFromPolicy c name draftName w;
               msg = (case err of
                   Some err \<Rightarrow> msg\<lparr>msg_Error := ''error remove rule '' @ name @ '' from policy '' @ err\<rparr>
                 | None \<Rightarrow> msg)
           in case cli_PublishDraftPolicy c draftPath w of
                (Some err, w) \<Rightarrow> (msg\<lparr>msg_Error := ''could not publish draft '' @ draftPath @ '' '' @ err\<rparr>, w)
              | (None, w) \<Rightarrow>
                  (case cli_DeletePool c (addPartitionToName f5 name) w of
                     (Some err, w) \<Rightarrow> (msg\<lparr>msg_Error := err\<rparr>, w)
                   | (None, w) \<Rightarrow> (msg, w))))"

section \<open>The message handler\<close>

definition f5_handleUpdate :: "BigIP \<Rightarrow> 'w f5Cli \<Rightarrow> Message \<Rightarrow> 'w \<Rightarrow> (Message \<times> 'w) option" where
  "f5_handleUpdate f5 c msg w =
     (if f5_UpdateMode f5 = ''vs'' then HandleVSUpdate f5 c msg w
      else if f5_UpdateMode f5 = ''policy'' then handleGlobalPolicyUpdate f5 c msg w
      else Some (msg\<lparr>msg_Error := ''unsupported updateMode '' @ f5_UpdateMode f5\<rparr>, w))"

definition f5_handleDelete :: "BigIP \<Rightarrow> 'w f5Cli \<Rightarrow> Message \<Rightarrow> 'w \<Rightarrow> Message \<times> 'w" where
  "f5_handleDelete f5 c msg w =
     (if f5_UpdateMode f5 = ''vs'' then handleVSDelete f5 c msg w
      else if f5_UpdateMode f5 = ''policy'' then handleGlobalPolicyDelete f5 c msg w
      else (msg\<lparr>msg_Error := ''unsupported updateMode '' @ f5_UpdateMode f5\<rparr>, w))"

text \<open>
  One round of the loop of \<open>Start\<close>: the session is renewed (for ten minutes, in nanoseconds) and the
  message is handled. The number beside the device state is the count of the wait group, which a
  message of another action raises and never lowers.
\<close>

definition f5_receive :: "BigIP \<Rightarrow> 'w f5Cli \<Rightarrow> Message \<Rightarrow> nat \<times> 'w \<Rightarrow> (Message list \<times> nat \<times> 'w) option" where
  "f5_receive f5 c msg s =
     (let (wg, w) = s;
          wg = wg + 1;
          w = snd (cli_RefreshTokenSession c 600000000000 w)
      in if msg_Action msg = AddAction \<or> msg_Action msg = UpdateAction then
           do { (updatedMsg, w) \<leftarrow> f5_handleUpdate f5 c msg w; Some ([updatedMsg], wg - 1, w) }
         else if msg_Action msg = DeleteAction then
           (let (updatedMsg, w) = f5_handleDelete f5 c msg w in Some ([updatedMsg], wg - 1, w))
         else Some ([], wg, w))"

end
