(* ===== verification/F5_Device.thy ===== *)
theory F5_Device
  imports F5LTM
begin

text \<open>
  The device of the F5 provisioner (\<open>src/provisioner/loadbalancer/f5ltm\<close>) as its handlers see it: the
  record of the changes a handler asks for, the lemmas on which handler asks for which, and what the
  device's lists of pool members say about a message's targets.
\<close>

section \<open>The record of changes\<close>

datatype f5_change =
    ChAddPool bigip_Pool
  | ChAddRule string bigip_PolicyRule
  | ChAddVirtualServer bigip_VirtualServer
  | ChCreateDraft string
  | ChDeletePolicy string
  | ChDeletePool string
  | ChDeleteVirtualServer string
  | ChModifyRule string string bigip_PolicyRule
  | ChModifyPool string bigip_Pool
  | ChModifyVirtualServer string bigip_VirtualServer
  | ChPublishDraft string
  | ChRemoveRule string string
  | ChUpdateMembers string "bigip_PoolMember list"

text \<open>A client that keeps, beside the device's state, the changes asked for with their errors.\<close>

type_synonym f5_log = "(f5_change \<times> string option) list"

definition noting :: "f5_change \<Rightarrow> 'w change \<Rightarrow> ('w \<times> f5_log) change" where
  "noting e f s = (fst (f (fst s)), snd (f (fst s)), snd s @ [(e, fst (f (fst s)))])"

definition unnoted :: "('w \<Rightarrow> 'r \<times> 'w) \<Rightarrow> 'w \<times> f5_log \<Rightarrow> 'r \<times> 'w \<times> f5_log" where
  "unnoted f s = (fst (f (fst s)), snd (f (fst s)), snd s)"

definition noted :: "'w f5Cli \<Rightarrow> ('w \<times> f5_log) f5Cli" where
  "noted c =
     \<lparr>cli_AddPool = (\<lambda>p. noting (ChAddPool p) (cli_AddPool c p)),
      cli_AddRuleToPolicy = (\<lambda>n r. noting (ChAddRule n r) (cli_AddRuleToPolicy c n r)),
      cli_AddVirtualServer = (\<lambda>v. noting (ChAddVirtualServer v) (cli_AddVirtualServer c v)),
      cli_CreateDraftFromPolicy = (\<lambda>n. noting (ChCreateDraft n) (cli_CreateDraftFromPolicy c n)),
      cli_DeletePolicy = (\<lambda>n. noting (ChDeletePolicy n) (cli_DeletePolicy c n)),
      cli_DeletePool = (\<lambda>n. noting (ChDeletePool n) (cli_DeletePool c n)),
      cli_DeleteVirtualServer = (\<lambda>n. noting (ChDeleteVirtualServer n) (cli_DeleteVirtualServer c n)),
      cli_GetPolicy = (\<lambda>n. unnoted (cli_GetPolicy c n)),
      cli_GetPool = (\<lambda>n. unnoted (cli_GetPool c n)),
      cli_GetVirtualServer = (\<lambda>n. unnoted (cli_GetVirtualServer c n)),
      cli_ModifyPolicyRule = (\<lambda>n m r. noting (ChModifyRule n m r) (cli_ModifyPolicyRule c n m r)),
      cli_ModifyPool = (\<lambda>n p. noting (ChModifyPool n p) (cli_ModifyPool c n p)),
      cli_ModifyVirtualServer = (\<lambda>n v. noting (ChModifyVirtualServer n v) (cli_ModifyVirtualServer c n v)),
      cli_Nodes = unnoted (cli_Nodes c),
      cli_PoolMembers = (\<lambda>n. unnoted (cli_PoolMembers c n)),
      cli_PublishDraftPolicy = (\<lambda>n. noting (ChPublishDraft n) (cli_PublishDraftPolicy c n)),
      cli_RefreshTokenSession = (\<lambda>d. unnoted (cli_RefreshTokenSession c d)),
      cli_RemoveRuleFromPolicy = (\<lambda>r n. noting (ChRemoveRule r n) (cli_RemoveRuleFromPolicy c r n)),
      cli_UpdatePoolMembers = (\<lambda>n ms. noting (ChUpdateMembers n ms) (cli_UpdatePoolMembers c n ms)),
      cli_Quote = cli_Quote c\<rparr>"

lemma noted_methods [simp]:
  "cli_AddPool (noted c) p = noting (ChAddPool p) (cli_AddPool c p)"
  "cli_AddRuleToPolicy (noted c) n r = noting (ChAddRule n r) (cli_AddRuleToPolicy c n r)"
  "cli_AddVirtualServer (noted c) v = noting (ChAddVirtualServer v) (cli_AddVirtualServer c v)"
  "cli_CreateDraftFromPolicy (noted c) n = noting (ChCreateDraft n) (cli_CreateDraftFromPolicy c n)"
  "cli_DeletePolicy (noted c) n = noting (ChDeletePolicy n) (cli_DeletePolicy c n)"
  "cli_DeletePool (noted c) n = noting (ChDeletePool n) (cli_DeletePool c n)"
  "cli_DeleteVirtualServer (noted c) n = noting (ChDeleteVirtualServer n) (cli_DeleteVirtualServer c n)"
  "cli_GetPolicy (noted c) n = unnoted (cli_GetPolicy c n)"
  "cli_GetPool (noted c) n = unnoted (cli_GetPool c n)"
  "cli_GetVirtualServer (noted c) n = unnoted (cli_GetVirtualServer c n)"
  "cli_ModifyPolicyRule (noted c) n m r = noting (ChModifyRule n m r) (cli_ModifyPolicyRule c n m r)"
  "cli_ModifyPool (noted c) n p = noting (ChModifyPool n p) (cli_ModifyPool c n p)"
  "cli_ModifyVirtualServer (noted c) n v = noting (ChModifyVirtualServer n v) (cli_ModifyVirtualServer c n v)"
  "cli_Nodes (noted c) = unnoted (cli_Nodes c)"
  "cli_PoolMembers (noted c) n = unnoted (cli_PoolMembers c n)"
  "cli_PublishDraftPolicy (noted c) n = noting (ChPublishDraft n) (cli_PublishDraftPolicy c n)"
  "cli_RefreshTokenSession (noted c) d = unnoted (cli_RefreshTokenSession c d)"
  "cli_RemoveRuleFromPolicy (noted c) m n = noting (ChRemoveRule m n) (cli_RemoveRuleFromPolicy c m n)"
  "cli_UpdatePoolMembers (noted c) n ms = noting (ChUpdateMembers n ms) (cli_UpdatePoolMembers c n ms)"
  "cli_Quote (noted c) = cli_Quote c"
  by (simp_all add: noted_def)

lemmas noted_simps = noting_def unnoted_def

section \<open>Panics\<close>

text \<open>
  The documented behaviour of \<open>go-bigip\<close>: lists of nodes and of pool members are not nil unless
  there is an error. Then no handler panics.
\<close>

definition lists_answered :: "'w f5Cli \<Rightarrow> bool" where
  "lists_answered c \<longleftrightarrow> (\<forall>w. fst (cli_Nodes c w) \<noteq> Inr None) \<and> (\<forall>n w. fst (cli_PoolMembers c n w) \<noteq> Inr None)"

lemma lists_answered_noted [simp]: "lists_answered (noted c) = lists_answered c"
  by (simp add: lists_answered_def noted_simps)

lemma getNodeByAddress_returns: "lists_answered c \<Longrightarrow> (getNodeByAddress c a w = None) = False"
  by (simp add: lists_answered_def getNodeByAddress_def split: prod.splits sum.splits option.splits)
    (metis fst_conv)

lemma build_members_returns: "lists_answered c \<Longrightarrow> (build_members f5 c msg ts w = None) = False"
  by (induction ts arbitrary: w)
    (simp_all add: bind_eq_None_conv getNodeByAddress_returns split: prod.split del: not_None_eq)

lemma poolMembersNeedsUpdate_returns: "lists_answered c \<Longrightarrow> (poolMembersNeedsUpdate c pool msg w = None) = False"
  by (simp add: lists_answered_def poolMembersNeedsUpdate_def split: prod.splits sum.splits option.splits)
    (metis fst_conv)

lemmas returns_simps = bind_eq_None_conv getNodeByAddress_returns build_members_returns
  poolMembersNeedsUpdate_returns buildPoolMembersFromMessage_def Let_def

lemma createPool_returns: "lists_answered c \<Longrightarrow> (createPool f5 c msg w = None) = False"
  by (simp add: createPool_def returns_simps split: option.split prod.split del: not_None_eq)

lemma updatePoolMembers_returns: "lists_answered c \<Longrightarrow> (updatePoolMembers f5 c pool msg w = None) = False"
  by (simp add: updatePoolMembers_def returns_simps split: option.split prod.split sum.split del: not_None_eq)

lemma upsertPool_returns: "lists_answered c \<Longrightarrow> (upsertPool f5 c msg w = None) = False"
  by (simp add: upsertPool_def returns_simps createPool_returns updatePoolMembers_returns
      split: option.split prod.split sum.split del: not_None_eq)

lemma HandleVSUpdate_returns: "lists_answered c \<Longrightarrow> (HandleVSUpdate f5 c msg w = None) = False"
  by (simp add: HandleVSUpdate_def returns_simps createPool_returns upsertPool_returns
      split: option.split prod.split sum.split del: not_None_eq)

lemma handleGlobalPolicyUpdate_returns: "lists_answered c \<Longrightarrow> (handleGlobalPolicyUpdate f5 c msg w = None) = False"
  by (simp add: handleGlobalPolicyUpdate_def returns_simps upsertPool_returns
      split: option.split prod.split sum.split del: not_None_eq)

section \<open>Changes to the pool\<close>

fun pool_change :: "f5_change \<Rightarrow> bool" where
  "pool_change (ChAddPool p) = True"
| "pool_change (ChUpdateMembers n ms) = True"
| "pool_change (ChModifyPool n p) = True"
| "pool_change _ = False"

definition pool_stage :: "('w \<times> f5_log) \<Rightarrow> ('w \<times> f5_log) \<Rightarrow> bool" where
  "pool_stage s s' \<longleftrightarrow> (\<exists>ws. snd s' = snd s @ ws \<and> list_all (\<lambda>e. pool_change (fst e)) ws)"

lemma pool_stage_same: "snd s' = snd s \<Longrightarrow> pool_stage s s'"
  by (auto simp: pool_stage_def)

lemma build_members_noted:
  "build_members f5 (noted c) msg ts s = map_option (\<lambda>(ms, w). (ms, w, snd s)) (build_members f5 c msg ts (fst s))"
proof (induction ts arbitrary: s)
  case Nil
  show ?case by simp
next
  case (Cons t ts)
  have "getNodeByAddress (noted c) a s = map_option (\<lambda>(n, w). (n, w, snd s)) (getNodeByAddress c a (fst s))" for a
    by (simp add: getNodeByAddress_def noted_simps split: prod.split sum.split option.split)
  with Cons show ?case
    by (cases "getNodeByAddress c (tgt_Host t) (fst s)")
      (auto split: prod.splits option.splits bind_splits)
qed

lemma createPool_noted: "createPool f5 (noted c) msg s = Some (r, s') \<Longrightarrow> pool_stage s s'"
  by (auto simp: createPool_def buildPoolMembersFromMessage_def build_members_noted noted_simps pool_stage_def
      Let_def split: option.splits bind_splits prod.splits)

lemma updatePoolMembers_noted: "updatePoolMembers f5 (noted c) pool msg s = Some (r, s') \<Longrightarrow> pool_stage s s'"
  by (auto simp: updatePoolMembers_def poolMembersNeedsUpdate_def buildPoolMembersFromMessage_def
      build_members_noted noted_simps pool_stage_def
      split: option.splits bind_splits prod.splits sum.splits if_splits)

lemma upsertPool_noted:
  assumes "upsertPool f5 (noted c) msg s = Some (r, s')"
  shows "pool_stage s s'"
proof -
  obtain q v where q: "cli_GetPool (noted c) (addPartitionToName f5 (svc_Name (msg_Service msg))) s = (q, v)"
    "snd v = snd s"
    by (simp add: noted_simps)
  have "pool_stage v s'"
    using assms q(1)
    by (auto simp: upsertPool_def Let_def pool_stage_same split: sum.splits option.splits bind_splits prod.splits
        dest: createPool_noted updatePoolMembers_noted)
  with q(2) show ?thesis by (simp add: pool_stage_def)
qed

section \<open>Pool members\<close>

text \<open>
  Members as the device lists them, for targets \<open>ts\<close>: the path of a member is that of its folder and
  the name it was given, which ends in a colon and the port.
\<close>

definition listed_as :: "bigip_PoolMember \<Rightarrow> Target \<Rightarrow> bool" where
  "listed_as m t \<longleftrightarrow> pm_Address m = tgt_Host t \<and> pm_Ratio m = tgt_Weight t \<and>
     (\<exists>path. pm_FullPath m = path @ '':'' @ Itoa (uint (tgt_Port t)))"

lemma Atoi_port_full [simp]: "Atoi (Itoa (uint (p :: 32 word))) = (uint p, None)"
proof -
  have "uint p < 2 ^ 32" using uint_lt2p [of p] by simp
  then have "int_min \<le> uint p" "uint p \<le> int_max"
    by (simp_all add: int_min_def int_max_def order_trans [OF _ uint_ge_0])
  then show ?thesis by (simp add: Atoi_Itoa)
qed

lemma member_port_listed: "listed_as m t \<Longrightarrow> member_port (pm_FullPath m) = Itoa (uint (tgt_Port t))"
proof -
  assume "listed_as m t"
  then obtain folder where "pm_FullPath m = folder @ CHR '':'' # Itoa (uint (tgt_Port t))"
    by (auto simp: listed_as_def)
  then show ?thesis by (simp add: member_port_def LastIndex_append nat_add_distrib)
qed

lemma read_members_listed:
  "list_all2 listed_as ms ts \<Longrightarrow> elems acc @ ts \<noteq> [] \<Longrightarrow> (acc = None \<longrightarrow> ts \<noteq> []) \<Longrightarrow>
    read_members c acc ms = Inr (Some (elems acc @ ts))"
proof (induction ms ts arbitrary: acc rule: list_all2_induct)
  case Nil
  then show ?case by (cases acc) auto
next
  case (Cons m ms t ts)
  have t: "\<lparr>tgt_Host = pm_Address m, tgt_Port = tgt_Port t, tgt_Weight = pm_Ratio m\<rparr> = t"
    using Cons.hyps(1) by (simp add: listed_as_def)
  show ?case using Cons.IH [of "append_slice acc t"] by (simp add: member_port_listed [OF Cons.hyps(1)] t)
qed

lemma read_members_targets:
  "list_all2 listed_as ms ts \<Longrightarrow> read_members c None ms = Inr (if ts = [] then None else Some ts)"
  using read_members_listed [of ms ts None c] by (cases ts) auto

text \<open>The members built for a message are listed for its targets once they have a path.\<close>

definition filed :: "string \<Rightarrow> bigip_PoolMember \<Rightarrow> bigip_PoolMember" where
  "filed folder m = m\<lparr>pm_FullPath := folder @ pm_Name m\<rparr>"

lemma build_members_listed:
  assumes "build_members f5 c msg ts w = Some (ms, w')"
  shows "list_all2 listed_as (map (filed folder) ms) ts"
  using assms
proof (induction ts arbitrary: ms w)
  case (Cons t ts)
  then obtain n w1 ms' where n: "getNodeByAddress c (tgt_Host t) w = Some (n, w1)"
    and ms: "build_members f5 c msg ts w1 = Some (ms', w')" "ms = pool_member f5 msg n t # ms'"
    by (auto split: bind_splits)
  have "\<And>x. n = Some x \<Longrightarrow> nd_Address x = tgt_Host t"
    using n by (auto simp: getNodeByAddress_def find_Some_iff split: prod.splits sum.splits option.splits)
  then have "listed_as (filed folder (pool_member f5 msg n t)) t"
    by (cases n) (auto simp: listed_as_def filed_def pool_member_def)
  then show ?case using Cons.IH [OF ms(1)] ms(2) by simp
qed simp

end
