(* ===== verification/F5_Props.thy ===== *)
theory F5_Props
  imports F5_Device Provisioner
begin

text \<open>
  The properties of the F5 provisioner (\<open>src/provisioner/loadbalancer/f5ltm\<close>): what its handlers ask
  the device for in each update mode, in which order, and what they answer.
\<close>

section \<open>Answers\<close>

lemma createPool_frame: "createPool f5 c m w = Some ((p, e), w') \<Longrightarrow> p = newPoolFromService f5 m"
  by (auto simp: createPool_def Let_def split: option.splits bind_splits prod.splits)

lemma HandleVSUpdate_frame: "HandleVSUpdate f5 c m w = Some (r, w') \<Longrightarrow> r\<lparr>msg_Error := msg_Error m\<rparr> = m"
  by (auto simp: HandleVSUpdate_def Let_def split: option.splits bind_splits prod.splits sum.splits if_splits)

lemma handleGlobalPolicyUpdate_frame:
  "handleGlobalPolicyUpdate f5 c m w = Some (r, w') \<Longrightarrow> r\<lparr>msg_Error := msg_Error m\<rparr> = m"
  by (auto simp: handleGlobalPolicyUpdate_def drop_draft_def Let_def
      split: option.splits bind_splits prod.splits sum.splits if_splits)

lemma f5_handleUpdate_frame:
  assumes "lists_answered c"
  shows "\<exists>r w'. f5_handleUpdate f5 c m w = Some (r, w') \<and> r\<lparr>msg_Error := msg_Error m\<rparr> = m"
proof -
  obtain r w' where "HandleVSUpdate f5 c m w = Some (r, w')"
    using HandleVSUpdate_returns [OF assms, of f5 m w] by fastforce
  moreover obtain q v' where "handleGlobalPolicyUpdate f5 c m w = Some (q, v')"
    using handleGlobalPolicyUpdate_returns [OF assms, of f5 m w] by fastforce
  ultimately show ?thesis
    by (auto simp: f5_handleUpdate_def dest: HandleVSUpdate_frame handleGlobalPolicyUpdate_frame)
qed

lemma handleVSDelete_frame:
  "handleVSDelete f5 c m w = (r, w') \<Longrightarrow> r\<lparr>msg_Error := msg_Error m\<rparr> = m\<lparr>msg_Action := UpdateAction\<rparr>"
  by (auto simp: handleVSDelete_def Let_def split: option.splits prod.splits)

lemma handleGlobalPolicyDelete_frame: "handleGlobalPolicyDelete f5 c m w = (r, w') \<Longrightarrow> r\<lparr>msg_Error := msg_Error m\<rparr> = m"
  by (auto simp: handleGlobalPolicyDelete_def drop_draft_def Let_def split: option.splits prod.splits)

lemma f5_handleDelete_frame:
  "\<exists>r w'. f5_handleDelete f5 c m w = (r, w') \<and>
    r\<lparr>msg_Error := msg_Error m\<rparr> = (if f5_UpdateMode f5 = ''vs'' then m\<lparr>msg_Action := UpdateAction\<rparr> else m)"
proof -
  obtain r1 w1 where r1: "handleVSDelete f5 c m w = (r1, w1)" by fastforce
  obtain r2 w2 where r2: "handleGlobalPolicyDelete f5 c m w = (r2, w2)" by fastforce
  show ?thesis using handleVSDelete_frame [OF r1] handleGlobalPolicyDelete_frame [OF r2]
    by (simp add: f5_handleDelete_def r1 r2)
qed

lemma f5_receive_request:
  assumes "lists_answered c" and "msg_Action m \<in> {AddAction, UpdateAction, DeleteAction}"
  shows "\<exists>r w'. f5_receive f5 c m (wg, w) = Some ([r], wg, w') \<and>
    r\<lparr>msg_Error := msg_Error m\<rparr> =
      (if msg_Action m = DeleteAction \<and> f5_UpdateMode f5 = ''vs'' then m\<lparr>msg_Action := UpdateAction\<rparr> else m)"
proof -
  let ?w = "snd (cli_RefreshTokenSession c 600000000000 w)"
  obtain r w1 where u: "f5_handleUpdate f5 c m ?w = Some (r, w1)" "r\<lparr>msg_Error := msg_Error m\<rparr> = m"
    using f5_handleUpdate_frame [OF assms(1)] by blast
  obtain q w2 where d: "f5_handleDelete f5 c m ?w = (q, w2)" "q\<lparr>msg_Error := msg_Error m\<rparr> =
      (if f5_UpdateMode f5 = ''vs'' then m\<lparr>msg_Action := UpdateAction\<rparr> else m)"
    using f5_handleDelete_frame [of f5 c m ?w] by blast
  show ?thesis using u d assms(2) by (auto simp: f5_receive_def)
qed

lemma f5_one_answer:
  assumes "lists_answered c" and "core_request m"
  shows "\<exists>r s'. f5_receive f5 c m s = Some ([r], s') \<and> lists_answered c \<and> answers r m"
proof -
  obtain wg w where s: "s = (wg, w)" by (cases s)
  have "msg_Action m \<in> {AddAction, UpdateAction, DeleteAction}" using assms(2) by (auto simp: core_request_def)
  from f5_receive_request [OF assms(1) this] obtain r w' where r: "f5_receive f5 c m s = Some ([r], wg, w')"
    "r\<lparr>msg_Error := msg_Error m\<rparr> =
      (if msg_Action m = DeleteAction \<and> f5_UpdateMode f5 = ''vs'' then m\<lparr>msg_Action := UpdateAction\<rparr> else m)"
    using s by blast
  have "msg_Action r = msg_Action (r\<lparr>msg_Error := msg_Error m\<rparr>)" "msg_Service r = msg_Service (r\<lparr>msg_Error := msg_Error m\<rparr>)"
    by simp_all
  then have "answers r m" unfolding r(2) answers_def by (auto split: if_splits)
  with r(1) assms(1) show ?thesis by blast
qed

interpretation ltm: provisioner "\<lambda>s. True" "\<lambda>s. lists_answered c" "f5_receive f5 c" for f5 c
  by unfold_locales (rule f5_one_answer)

section \<open>Properties\<close>

text \<open>A device that knows nothing and accepts everything, and a service for it.\<close>

definition demo_f5 :: BigIP where
  "demo_f5 = \<lparr>f5_Endpoint = ''https://lb'', f5_User = ''u'', f5_Password = ''p'', f5_AuthProvider = ''tmos'',
     f5_HttpPort = 80, f5_HttpsPort = 443, f5_MonitorName = ''tcp'',
     f5_LoadBalancingMode = ''least-connections-member'', f5_Partition = ''interlook'', f5_UpdateMode = ''policy'',
     f5_GlobalHTTPPolicy = ''http'', f5_GlobalSSLPolicy = ''https'', f5_ObjectDescriptionSuffix = ''(auto)''\<rparr>"

definition demo_device :: "unit f5Cli" where
  "demo_device =
     \<lparr>cli_AddPool = \<lambda>p w. (None, w), cli_AddRuleToPolicy = \<lambda>n r w. (None, w), cli_AddVirtualServer = \<lambda>v w. (None, w),
      cli_CreateDraftFromPolicy = \<lambda>n w. (None, w), cli_DeletePolicy = \<lambda>n w. (None, w),
      cli_DeletePool = \<lambda>n w. (None, w), cli_DeleteVirtualServer = \<lambda>n w. (None, w),
      cli_GetPolicy = \<lambda>n w. (Inr (Some []), w), cli_GetPool = \<lambda>n w. (Inr None, w),
      cli_GetVirtualServer = \<lambda>n w. (Inr None, w), cli_ModifyPolicyRule = \<lambda>n m r w. (None, w),
      cli_ModifyPool = \<lambda>n p w. (None, w), cli_ModifyVirtualServer = \<lambda>n v w. (None, w),
      cli_Nodes = \<lambda>w. (Inr (Some []), w), cli_PoolMembers = \<lambda>n w. (Inr (Some []), w),
      cli_PublishDraftPolicy = \<lambda>n w. (None, w), cli_RefreshTokenSession = \<lambda>d w. (None, w),
      cli_RemoveRuleFromPolicy = \<lambda>m n w. (None, w), cli_UpdatePoolMembers = \<lambda>n ms w. (None, w),
      cli_Quote = \<lambda>s. s\<rparr>"

definition demo_add :: Message where
  "demo_add = zero_Message\<lparr>msg_Action := AddAction, msg_Service := zero_Service\<lparr>svc_Name := ''web'',
     svc_PublicIP := ''10.0.0.5'', svc_DNSAliases := Some [''web.test''],
     svc_Targets := Some [\<lparr>tgt_Host = ''10.1.1.1'', tgt_Port = 8080, tgt_Weight = 1\<rparr>]\<rparr>\<rparr>"

lemma demo_add_simps [simp]:
  "msg_Action demo_add = AddAction" "msg_Error demo_add = ''''" "svc_Name (msg_Service demo_add) = ''web''"
  "svc_PublicIP (msg_Service demo_add) = ''10.0.0.5''" "svc_TLS (msg_Service demo_add) = False"
  "svc_Targets (msg_Service demo_add) = Some [\<lparr>tgt_Host = ''10.1.1.1'', tgt_Port = 8080, tgt_Weight = 1\<rparr>]"
  "svc_DNSAliases (msg_Service demo_add) = Some [''web.test'']"
  by (simp_all add: demo_add_def zero_Message_def zero_Service_def)

lemma demo_f5_simps [simp]:
  "f5_Partition demo_f5 = ''interlook''" "f5_UpdateMode demo_f5 = ''policy''"
  "f5_HttpPort demo_f5 = 80" "f5_GlobalHTTPPolicy demo_f5 = ''http''"
  by (simp_all add: demo_f5_def)

lemma demo_device_answers: "lists_answered demo_device"
  by (simp add: lists_answered_def demo_device_def)

text \<open>
  The load balancer answers each add, update or delete request with exactly one message: the
  request itself but for its error text (and, for a deletion in \<open>vs\<close> mode, the action \<open>update\<close>). Any
  other message is not answered and leaves the wait group, which \<open>Stop\<close> waits for, one higher.
\<close>

theorem f5_answers:
  assumes "lists_answered c"
  shows "if msg_Action m \<in> {AddAction, UpdateAction, DeleteAction}
    then \<exists>r w'. f5_receive f5 c m (wg, w) = Some ([r], wg, w') \<and>
      r\<lparr>msg_Error := msg_Error m\<rparr> =
        (if msg_Action m = DeleteAction \<and> f5_UpdateMode f5 = ''vs'' then m\<lparr>msg_Action := UpdateAction\<rparr> else m)
    else f5_receive f5 c m (wg, w) = Some ([], wg + 1, snd (cli_RefreshTokenSession c 600000000000 w))"
  using f5_receive_request [OF assms, of m f5 wg w] by (auto simp: f5_receive_def)

theorem f5_answers_witness:
  "\<exists>r w'. f5_receive demo_f5 demo_device demo_add (0, ()) = Some ([r], 0, w') \<and> svc_Name (msg_Service r) = ''web''"
proof -
  obtain r w' where r: "f5_receive demo_f5 demo_device demo_add (0, ()) = Some ([r], 0, w')"
    "r\<lparr>msg_Error := ''''\<rparr> = demo_add"
    using f5_answers [OF demo_device_answers, of demo_add demo_f5 0 "()"] by auto
  have "svc_Name (msg_Service r) = svc_Name (msg_Service (r\<lparr>msg_Error := ''''\<rparr>))" by simp
  with r show ?thesis by (metis demo_add_simps(3))
qed

lemmas demo_runs = f5_receive_def f5_handleUpdate_def f5_handleDelete_def handleGlobalPolicyUpdate_def
  HandleVSUpdate_def upsertPool_def createPool_def createVirtualServer_def buildPoolMembersFromMessage_def
  getNodeByAddress_def policyNeedsUpdate_def drop_draft_def getGlobalPolicyInfo_def noted_simps demo_device_def Let_def


lemma demo_vs_run:
  "\<exists>log. f5_receive (demo_f5\<lparr>f5_UpdateMode := ''vs''\<rparr>) (noted demo_device) demo_add (0, (), []) =
     Some ([demo_add], 0, (), log) \<and> length log = 4"
  by (simp add: demo_runs)

section \<open>Policy mode\<close>

definition policy_edit :: "BigIP \<Rightarrow> Message \<Rightarrow> string \<Rightarrow> f5_change \<Rightarrow> bool" where
  "policy_edit f5 m draft e \<longleftrightarrow>
     e = ChModifyRule draft (svc_Name (msg_Service m)) (buildPolicyRuleFromMsg f5 m) \<or>
     e = ChAddRule draft (buildPolicyRuleFromMsg f5 m)"

text \<open>The changes to a policy that an add or update request may ask for, and the answer \<open>r\<close> to it.\<close>

fun draft_steps :: "(f5_change \<Rightarrow> bool) \<Rightarrow> string \<Rightarrow> string \<Rightarrow> string \<Rightarrow> Message \<Rightarrow> Message \<Rightarrow> f5_log \<Rightarrow> bool" where
  "draft_steps edit policy draft path m r [] = True"
| "draft_steps edit policy draft path m r [(a, Some e)] = (a = ChCreateDraft policy \<and> msg_Error r \<noteq> '''')"
| "draft_steps edit policy draft path m r [(a, None), (b, Some e), (d, _)] =
     (a = ChCreateDraft policy \<and> edit b \<and> d = ChDeletePolicy draft \<and> msg_Error r \<noteq> '''')"
| "draft_steps edit policy draft path m r [(a, None), (b, None), (p, e), (d, _)] =
     (a = ChCreateDraft policy \<and> edit b \<and> p = ChPublishDraft path \<and> d = ChDeletePolicy draft \<and>
      (if e = None then r = m else msg_Error r \<noteq> ''''))"
| "draft_steps edit policy draft path m r _ = False"

definition draft_protocol :: "BigIP \<Rightarrow> Message \<Rightarrow> Message \<Rightarrow> f5_log \<Rightarrow> bool" where
  "draft_protocol f5 m r log \<longleftrightarrow>
     (case getGlobalPolicyInfo f5 (svc_TLS (msg_Service m)) of (policy, draft, path) \<Rightarrow>
        draft_steps (policy_edit f5 m draft) (addPartitionToName f5 policy) draft path m r log)"

lemma draft_protocol_Nil [simp]: "draft_protocol f5 m r []"
  by (simp add: draft_protocol_def split: prod.split)

lemma option_cases_eq: "(case x of None \<Rightarrow> (a, b) | Some e \<Rightarrow> (f e, g e)) =
    (case x of None \<Rightarrow> a | Some e \<Rightarrow> f e, case x of None \<Rightarrow> b | Some e \<Rightarrow> g e)"
  by (cases x) simp_all




text \<open>
  A deletion in policy mode: a draft of the policy is made; if that succeeds, the rule of the
  service is removed from the draft, the draft is published whether or not the removal succeeded,
  the pool is deleted exactly if the publication succeeded, and the draft is deleted last. The
  answer names the last of these steps that failed (the deletion of the draft aside).
\<close>

theorem f5_policy_delete:
  assumes "f5_UpdateMode f5 = ''policy''" and "msg_Action m = DeleteAction"
    and "getGlobalPolicyInfo f5 (svc_TLS (msg_Service m)) = (policy, draft, path)"
    and "cli_CreateDraftFromPolicy c (addPartitionToName f5 policy) (snd (cli_RefreshTokenSession c 600000000000 w)) = (a, w1)"
    and "cli_RemoveRuleFromPolicy c (svc_Name (msg_Service m)) draft w1 = (b, w2)"
    and "cli_PublishDraftPolicy c path w2 = (p, w3)"
    and "cli_DeletePool c (addPartitionToName f5 (svc_Name (msg_Service m))) w3 = (x, w4)"
  shows "\<exists>err log w' d. f5_receive f5 (noted c) m (wg, w, l) = Some ([m\<lparr>msg_Error := err\<rparr>], wg, w', l @ log) \<and>
    (case a of
       Some e \<Rightarrow> log = [(ChCreateDraft (addPartitionToName f5 policy), Some e)] \<and>
         err = ''error creating '' @ path @ '' policy '' @ e
     | None \<Rightarrow>
         log = [(ChCreateDraft (addPartitionToName f5 policy), None),
                (ChRemoveRule (svc_Name (msg_Service m)) draft, b), (ChPublishDraft path, p)] @
               (if p = None then [(ChDeletePool (addPartitionToName f5 (svc_Name (msg_Service m))), x)] else []) @
               [(ChDeletePolicy draft, d)] \<and>
         err = (case p of
             Some e \<Rightarrow> ''could not publish draft '' @ path @ '' '' @ e
           | None \<Rightarrow> (case x of
                 Some e \<Rightarrow> e
               | None \<Rightarrow> (case b of
                     Some e \<Rightarrow> ''error remove rule '' @ svc_Name (msg_Service m) @ '' from policy '' @ e
                   | None \<Rightarrow> msg_Error m))))"
proof -
  note run = f5_receive_def f5_handleDelete_def handleGlobalPolicyDelete_def noted_simps drop_draft_def Let_def
  show ?thesis
  proof (cases a)
    case (Some e)
    then show ?thesis using assms by (simp add: run)
  next
    case None
    show ?thesis
    proof (cases p)
      case (Some e)
      then show ?thesis using assms None by (cases b) (simp_all add: run)
    next
      case _: None
      then show ?thesis using assms None by (cases b; cases x) (simp_all add: run)
    qed
  qed
qed

theorem f5_policy_delete_witness:
  "\<exists>log w'. f5_receive demo_f5 (noted (demo_device\<lparr>cli_RemoveRuleFromPolicy := \<lambda>m n w. (Some ''busy'', w)\<rparr>))
      (demo_add\<lparr>msg_Action := DeleteAction\<rparr>) (0, (), []) =
    Some ([demo_add\<lparr>msg_Action := DeleteAction,
      msg_Error := ''error remove rule web from policy busy''\<rparr>], 0, w', log) \<and> length log = 5"
proof -
  let ?c = "demo_device\<lparr>cli_RemoveRuleFromPolicy := \<lambda>m n w. (Some ''busy'', w)\<rparr>"
  let ?m = "demo_add\<lparr>msg_Action := DeleteAction\<rparr>"
  have info: "getGlobalPolicyInfo demo_f5 (svc_TLS (msg_Service ?m)) = (''http'', ''~interlook~Drafts~http'', ''/interlook/Drafts/http'')"
    by (simp add: getGlobalPolicyInfo_def addPartitionToName_def addPartitionToPath_def Let_def)
  have calls: "cli_CreateDraftFromPolicy ?c n w = (None, ())" "cli_RemoveRuleFromPolicy ?c x n w = (Some ''busy'', ())"
    "cli_PublishDraftPolicy ?c n w = (None, ())" "cli_DeletePool ?c n w = (None, ())" for n x w
    by (simp_all add: demo_device_def)
  have act: "msg_Action ?m = DeleteAction" by simp
  from f5_policy_delete [OF demo_f5_simps(2) act info calls(1-4), where wg = 0 and l = "[]"]
  obtain err log w' d where run: "f5_receive demo_f5 (noted ?c) ?m (0, (), []) = Some ([?m\<lparr>msg_Error := err\<rparr>], 0, w', [] @ log)"
    and log: "log = [(ChCreateDraft (addPartitionToName demo_f5 ''http''), None),
      (ChRemoveRule (svc_Name (msg_Service ?m)) ''~interlook~Drafts~http'', Some ''busy''),
      (ChPublishDraft ''/interlook/Drafts/http'', None)] @
      [(ChDeletePool (addPartitionToName demo_f5 (svc_Name (msg_Service ?m))), None)] @
      [(ChDeletePolicy ''~interlook~Drafts~http'', d)]"
    and err: "err = ''error remove rule '' @ svc_Name (msg_Service ?m) @ '' from policy '' @ ''busy''"
    unfolding option.case if_True simp_thms by blast
  have "err = ''error remove rule web from policy busy''" "length log = 5" using err log by simp_all
  with run show ?thesis by auto
qed

section \<open>Virtual server mode\<close>

text \<open>Changes tried one after the other, up to the first error, which is the outcome.\<close>

fun tried :: "f5_change list \<Rightarrow> f5_log \<Rightarrow> string option \<Rightarrow> bool" where
  "tried [] log err = (log = [] \<and> err = None)"
| "tried (x # xs) [] err = False"
| "tried (x # xs) ((y, e) # log) err = (x = y \<and> (if e = None then tried xs log err else log = [] \<and> err = e))"

definition new_virtual_server :: "BigIP \<Rightarrow> Message \<Rightarrow> bigip_VirtualServer" where
  "new_virtual_server f5 m =
     \<lparr>vs_Name = svc_Name (msg_Service m),
      vs_Destination = svc_PublicIP (msg_Service m) @ '':'' @ Itoa (getLBPort f5 m),
      vs_IPProtocol = ''tcp'', vs_Pool = svc_Name (msg_Service m), vs_Partition = f5_Partition f5,
      vs_Description = ''Virtual Server for '' @ svc_Name (msg_Service m) @ '' '' @ f5_ObjectDescriptionSuffix f5,
      vs_SourceAddressTranslation = ''automap''\<rparr>"

lemma createPool_tried:
  assumes "createPool f5 (noted c) m (w, l) = Some ((p, err), w', l')"
  shows "\<exists>ms log. list_all2 listed_as (map (filed folder) ms) (elems (svc_Targets (msg_Service m))) \<and> l' = l @ log \<and>
    tried [ChAddPool (newPoolFromService f5 m),
      ChUpdateMembers (addPartitionToName f5 (svc_Name (msg_Service m))) ms,
      ChModifyPool (addPartitionToName f5 (svc_Name (msg_Service m))) (newPoolFromService f5 m)] log err"
proof -
  let ?ts = "elems (svc_Targets (msg_Service m))" and ?pool = "newPoolFromService f5 m"
  have name: "pl_Name ?pool = svc_Name (msg_Service m)" by (simp add: newPoolFromService_def)
  obtain a w1 where a: "cli_AddPool c ?pool w = (a, w1)" by fastforce
  show ?thesis
  proof (cases a)
    case (Some e)
    have "\<exists>ms. list_all2 listed_as (map (filed folder) ms) ?ts"
    proof (intro exI)
      show "list_all2 listed_as (map (filed folder) (map (pool_member f5 m None) ?ts)) ?ts"
        by (auto simp: list_all2_conv_all_nth listed_as_def filed_def pool_member_def)
    qed
    then show ?thesis using assms a Some by (auto simp: createPool_def noted_simps name Let_def)
  next
    case None
    then obtain ms w2 where ms: "build_members f5 c m ?ts w1 = Some (ms, w2)"
      using assms a
      by (cases "build_members f5 c m ?ts w1")
        (auto simp: createPool_def buildPoolMembersFromMessage_def build_members_noted noted_simps Let_def)
    obtain b w3 where b: "cli_UpdatePoolMembers c (addPartitionToName f5 (svc_Name (msg_Service m))) ms w2 = (b, w3)"
      by fastforce
    obtain x w4 where x: "cli_ModifyPool c (addPartitionToName f5 (svc_Name (msg_Service m))) ?pool w3 = (x, w4)"
      by fastforce
    show ?thesis using assms a None ms b x build_members_listed [OF ms, of folder]
      by (cases b; cases x)
        (auto simp: createPool_def buildPoolMembersFromMessage_def build_members_noted noted_simps name Let_def)
  qed
qed

lemma tried_snoc:
  "tried xs log None \<Longrightarrow> tried (xs @ [y]) (log @ [(y, e)]) e"
  by (induction xs log "None :: string option" rule: tried.induct) (auto split: if_splits)

lemma tried_stop:
  "tried xs log (Some e) \<Longrightarrow> tried (xs @ ys) log (Some e)"
  by (induction xs log "Some e" rule: tried.induct) (auto split: if_splits)

text \<open>
  A new service in \<open>vs\<close> mode: when the device knows no virtual server of the name, the pool is
  added, its members are set to the message's targets, the pool's settings are written again, and
  the virtual server is added, at the public address and the port of the TLS flag - in this order
  and up to the first change that fails. The answer is the request, with that failure's text.
\<close>

theorem f5_vs_create:
  assumes "f5_UpdateMode f5 = ''vs''" and "msg_Action m = AddAction \<or> msg_Action m = UpdateAction"
    and "cli_GetVirtualServer c (addPartitionToName f5 (svc_Name (msg_Service m)))
      (snd (cli_RefreshTokenSession c 600000000000 w)) = (Inr None, w1)"
    and "f5_receive f5 (noted c) m (wg, w, l) = Some (rs, wg', w', l')"
  shows "\<exists>ms log err. list_all2 listed_as (map (filed folder) ms) (elems (svc_Targets (msg_Service m))) \<and>
    l' = l @ log \<and> rs = [case err of None \<Rightarrow> m | Some e \<Rightarrow> m\<lparr>msg_Error := e\<rparr>] \<and>
    tried [ChAddPool (newPoolFromService f5 m),
      ChUpdateMembers (addPartitionToName f5 (svc_Name (msg_Service m))) ms,
      ChModifyPool (addPartitionToName f5 (svc_Name (msg_Service m))) (newPoolFromService f5 m),
      ChAddVirtualServer (new_virtual_server f5 m)] log err"
proof -
  have vs: "createVirtualServer f5 (noted c) m s =
      noting (ChAddVirtualServer (new_virtual_server f5 m)) (cli_AddVirtualServer c (new_virtual_server f5 m)) s" for s
    by (simp add: createVirtualServer_def new_virtual_server_def zero_VirtualServer_def Let_def)
  obtain p err w2 l2 where pool: "createPool f5 (noted c) m (w1, l) = Some ((p, err), w2, l2)"
    using assms
    by (auto simp: f5_receive_def f5_handleUpdate_def HandleVSUpdate_def noted_simps Let_def split: bind_splits)
  then obtain ms log where ms: "list_all2 listed_as (map (filed folder) ms) (elems (svc_Targets (msg_Service m)))"
    and l2: "l2 = l @ log"
    and t: "tried [ChAddPool (newPoolFromService f5 m),
      ChUpdateMembers (addPartitionToName f5 (svc_Name (msg_Service m))) ms,
      ChModifyPool (addPartitionToName f5 (svc_Name (msg_Service m))) (newPoolFromService f5 m)] log err"
    using createPool_tried [OF pool, of folder] by blast
  note run = f5_receive_def f5_handleUpdate_def HandleVSUpdate_def noted_simps Let_def
  show ?thesis
  proof (cases err)
    case (Some e)
    then show ?thesis
      using assms pool ms l2 tried_stop [OF t [unfolded Some], of "[ChAddVirtualServer (new_virtual_server f5 m)]"]
      by (intro exI [of _ ms] exI [of _ log] exI [of _ err]) (auto simp: run)
  next
    case None
    obtain x w3 where x: "cli_AddVirtualServer c (new_virtual_server f5 m) w2 = (x, w3)" by fastforce
    let ?log = "log @ [(ChAddVirtualServer (new_virtual_server f5 m), x)]"
    have "l' = l @ ?log \<and> rs = [case x of None \<Rightarrow> m | Some e \<Rightarrow> m\<lparr>msg_Error := e\<rparr>]"
      using assms pool None l2 x by (cases x) (auto simp: run vs)
    then show ?thesis using ms tried_snoc [OF t [unfolded None], of "ChAddVirtualServer (new_virtual_server f5 m)" x]
      by (intro exI [of _ ms] exI [of _ ?log] exI [of _ x]) simp
  qed
qed

theorem f5_vs_create_witness:
  "\<exists>ms log err. length ms = 1 \<and> length log = 4 \<and>
    tried [ChAddPool (newPoolFromService (demo_f5\<lparr>f5_UpdateMode := ''vs''\<rparr>) demo_add),
      ChUpdateMembers (addPartitionToName (demo_f5\<lparr>f5_UpdateMode := ''vs''\<rparr>) ''web'') ms,
      ChModifyPool (addPartitionToName (demo_f5\<lparr>f5_UpdateMode := ''vs''\<rparr>) ''web'')
        (newPoolFromService (demo_f5\<lparr>f5_UpdateMode := ''vs''\<rparr>) demo_add),
      ChAddVirtualServer (new_virtual_server (demo_f5\<lparr>f5_UpdateMode := ''vs''\<rparr>) demo_add)] log err"
proof -
  let ?f = "demo_f5\<lparr>f5_UpdateMode := ''vs''\<rparr>"
  obtain l where l: "f5_receive ?f (noted demo_device) demo_add (0, (), []) = Some ([demo_add], 0, (), l)" "length l = 4"
    using demo_vs_run by blast
  have "cli_GetVirtualServer demo_device n w = (Inr None, ())" for n w by (simp add: demo_device_def)
  from f5_vs_create [OF _ _ this l(1), of "''/interlook/''"] obtain ms log err where
    "list_all2 listed_as (map (filed ''/interlook/'') ms) (elems (svc_Targets (msg_Service demo_add)))" "l = log"
    "tried [ChAddPool (newPoolFromService ?f demo_add), ChUpdateMembers (addPartitionToName ?f ''web'') ms,
      ChModifyPool (addPartitionToName ?f ''web'') (newPoolFromService ?f demo_add),
      ChAddVirtualServer (new_virtual_server ?f demo_add)] log err"
    by auto
  with l(2) show ?thesis by (intro exI conjI) (auto dest: list_all2_lengthD)
qed

section \<open>Services that are in place\<close>

text \<open>What the device lists is the message's service: its pool, and the rule or the virtual server.\<close>

definition pool_in_place :: "BigIP \<Rightarrow> 'w f5Cli \<Rightarrow> Message \<Rightarrow> 'w \<Rightarrow> 'w \<Rightarrow> bool" where
  "pool_in_place f5 c m w w2 \<longleftrightarrow>
     (\<exists>pool w1 ms. cli_GetPool c (addPartitionToName f5 (svc_Name (msg_Service m))) w = (Inr (Some pool), w1) \<and>
        cli_PoolMembers c (pl_FullPath pool) w1 = (Inr (Some ms), w2) \<and>
        read_members c None ms = Inr (svc_Targets (msg_Service m)))"

lemma upsertPool_in_place:
  "pool_in_place f5 c m w w2 \<Longrightarrow> upsertPool f5 (noted c) m (w, l) = Some (None, w2, l)"
proof -
  have "read_members (noted c) a ms = read_members c a ms" for a ms
    by (induction ms arbitrary: a) (auto split: prod.split option.split)
  then show "pool_in_place f5 c m w w2 \<Longrightarrow> ?thesis"
    by (auto simp: pool_in_place_def upsertPool_def updatePoolMembers_def poolMembersNeedsUpdate_def noted_simps Let_def)
qed

definition rule_in_place :: "BigIP \<Rightarrow> Message \<Rightarrow> bigip_PolicyRule \<Rightarrow> bool" where
  "rule_in_place f5 m r \<longleftrightarrow>
     (\<forall>x\<in>set (pr_Conditions r). prc_HttpHost x \<or> prc_ServerName x \<longrightarrow> prc_Values x = svc_DNSAliases (msg_Service m)) \<and>
     (\<forall>x\<in>set (pr_Actions r). pra_Forward x \<longrightarrow> pra_Pool x = addPartitionToPath f5 (svc_Name (msg_Service m)))"

lemma scan_rules_in_place:
  "\<forall>r\<in>set rs. pr_Name r = svc_Name (msg_Service m) \<longrightarrow> rule_in_place f5 m r \<Longrightarrow>
    scan_rules f5 m found rs = (False, found \<or> (\<exists>r\<in>set rs. pr_Name r = svc_Name (msg_Service m)))"
  by (induction rs arbitrary: found) (auto simp: rule_in_place_def list_ex_iff)

text \<open>The rule that is built for a message is in place for that message.\<close>

lemma built_rule_in_place: "rule_in_place f5 m (buildPolicyRuleFromMsg f5 m)"
  by (auto simp: rule_in_place_def buildPolicyRuleFromMsg_def Let_def)

text \<open>
  C26. A service that is in place is left alone. When the pool's members are the message's targets
  and, in \<open>vs\<close> mode, the virtual server has the message's public address and port or, in \<open>policy\<close>
  mode, the policy has a rule of the service's name and all of that name are as the message wants
  them, an add or update request asks the device for no change and is sent back as it came.
\<close>

theorem f5_in_place_untouched:
  assumes "msg_Action m = AddAction \<or> msg_Action m = UpdateAction"
    and "snd (cli_RefreshTokenSession c 600000000000 w) = w0"
    and "f5_UpdateMode f5 = ''vs'' \<and>
        cli_GetVirtualServer c (addPartitionToName f5 (svc_Name (msg_Service m))) w0 = (Inr (Some vs), w1) \<and>
        Contains (vs_Destination vs) (svc_PublicIP (msg_Service m) @ '':'' @ Itoa (getLBPort f5 m)) \<and>
        pool_in_place f5 c m w1 w2 \<or>
      f5_UpdateMode f5 = ''policy'' \<and> pool_in_place f5 c m w0 w1 \<and>
        cli_GetPolicy c (addPartitionToName f5 (fst (getGlobalPolicyInfo f5 (svc_TLS (msg_Service m))))) w1 =
          (Inr (Some rules), w2) \<and>
        (\<exists>r\<in>set rules. pr_Name r = svc_Name (msg_Service m)) \<and>
        (\<forall>r\<in>set rules. pr_Name r = svc_Name (msg_Service m) \<longrightarrow> rule_in_place f5 m r)"
  shows "f5_receive f5 (noted c) m (wg, w, l) = Some ([m], wg, w2, l)"
  using assms(3)
proof
  assume a: "f5_UpdateMode f5 = ''vs'' \<and>
        cli_GetVirtualServer c (addPartitionToName f5 (svc_Name (msg_Service m))) w0 = (Inr (Some vs), w1) \<and>
        Contains (vs_Destination vs) (svc_PublicIP (msg_Service m) @ '':'' @ Itoa (getLBPort f5 m)) \<and>
        pool_in_place f5 c m w1 w2"
  then have "upsertPool f5 (noted c) m (w1, l) = Some (None, w2, l)" by (simp add: upsertPool_in_place)
  then show ?thesis using a assms(1,2)
    by (auto simp: f5_receive_def f5_handleUpdate_def HandleVSUpdate_def noted_simps Let_def)
next
  assume a: "f5_UpdateMode f5 = ''policy'' \<and> pool_in_place f5 c m w0 w1 \<and>
        cli_GetPolicy c (addPartitionToName f5 (fst (getGlobalPolicyInfo f5 (svc_TLS (msg_Service m))))) w1 =
          (Inr (Some rules), w2) \<and>
        (\<exists>r\<in>set rules. pr_Name r = svc_Name (msg_Service m)) \<and>
        (\<forall>r\<in>set rules. pr_Name r = svc_Name (msg_Service m) \<longrightarrow> rule_in_place f5 m r)"
  then have "upsertPool f5 (noted c) m (w0, l) = Some (None, w1, l)" by (simp add: upsertPool_in_place)
  moreover have "scan_rules f5 m False rules = (False, True)" using a by (subst scan_rules_in_place) auto
  ultimately show ?thesis using a assms(1,2)
    by (auto simp: f5_receive_def f5_handleUpdate_def handleGlobalPolicyUpdate_def policyNeedsUpdate_def
        noted_simps Let_def split: prod.split)
qed

text \<open>A device that has the service already.\<close>

definition demo_member :: bigip_PoolMember where
  "demo_member = \<lparr>pm_Name = ''10.1.1.1:8080'', pm_FullPath = ''/interlook/10.1.1.1:8080'', pm_Address = ''10.1.1.1'',
     pm_Partition = ''interlook'', pm_Ratio = 1, pm_Monitor = ''tcp'', pm_Description = ''''\<rparr>"

definition settled_device :: "unit f5Cli" where
  "settled_device = demo_device
     \<lparr>cli_GetPool := \<lambda>n w. (Inr (Some (newPoolFromService demo_f5 demo_add)), w),
      cli_PoolMembers := \<lambda>n w. (Inr (Some [demo_member]), w),
      cli_GetPolicy := \<lambda>n w. (Inr (Some [buildPolicyRuleFromMsg demo_f5 demo_add]), w)\<rparr>"

lemma demo_member_listed: "listed_as demo_member \<lparr>tgt_Host = ''10.1.1.1'', tgt_Port = 8080, tgt_Weight = 1\<rparr>"
  unfolding listed_as_def
  by (intro conjI exI [of _ "''/interlook/10.1.1.1''"])
    (simp_all add: demo_member_def Itoa_def itoa_nat.simps)

theorem f5_in_place_untouched_witness:
  "f5_receive demo_f5 (noted settled_device) demo_add (0, (), []) = Some ([demo_add], 0, (), [])"
proof (rule f5_in_place_untouched [where vs = zero_VirtualServer and rules = "[buildPolicyRuleFromMsg demo_f5 demo_add]"])
  have "read_members settled_device None [demo_member] =
      Inr (Some [\<lparr>tgt_Host = ''10.1.1.1'', tgt_Port = 8080, tgt_Weight = 1\<rparr>])"
    using read_members_targets [of "[demo_member]" "[\<lparr>tgt_Host = ''10.1.1.1'', tgt_Port = 8080, tgt_Weight = 1\<rparr>]"]
      demo_member_listed by simp
  then have "pool_in_place demo_f5 settled_device demo_add () ()"
    by (simp add: pool_in_place_def settled_device_def)
  moreover have "pr_Name (buildPolicyRuleFromMsg demo_f5 demo_add) = ''web''"
    by (simp add: buildPolicyRuleFromMsg_def)
  ultimately show "f5_UpdateMode demo_f5 = ''vs'' \<and>
      cli_GetVirtualServer settled_device (addPartitionToName demo_f5 (svc_Name (msg_Service demo_add))) () =
        (Inr (Some zero_VirtualServer), ()) \<and>
      Contains (vs_Destination zero_VirtualServer)
        (svc_PublicIP (msg_Service demo_add) @ '':'' @ Itoa (getLBPort demo_f5 demo_add)) \<and>
      pool_in_place demo_f5 settled_device demo_add () () \<or>
    f5_UpdateMode demo_f5 = ''policy'' \<and> pool_in_place demo_f5 settled_device demo_add () () \<and>
      cli_GetPolicy settled_device
        (addPartitionToName demo_f5 (fst (getGlobalPolicyInfo demo_f5 (svc_TLS (msg_Service demo_add))))) () =
        (Inr (Some [buildPolicyRuleFromMsg demo_f5 demo_add]), ()) \<and>
      (\<exists>r\<in>set [buildPolicyRuleFromMsg demo_f5 demo_add]. pr_Name r = svc_Name (msg_Service demo_add)) \<and>
      (\<forall>r\<in>set [buildPolicyRuleFromMsg demo_f5 demo_add]. pr_Name r = svc_Name (msg_Service demo_add) \<longrightarrow>
         rule_in_place demo_f5 demo_add r)"
    by (simp add: built_rule_in_place settled_device_def)
qed simp_all

section \<open>Pool members read back\<close>

text \<open>
  C25. What is written to a pool is read back. When the device lists, in their order, the members
  that were built for the targets \<open>ts\<close> - whatever node names it knows, and whatever the hosts look
  like, IPv6 addresses included - then a message needs an update of the pool exactly if its targets
  are not \<open>ts\<close> in that very order. In particular the message the members were built for needs none.
\<close>

theorem f5_pool_roundtrip:
  assumes "build_members f5 c m ts w = Some (ms, w')"
    and "cli_PoolMembers c (pl_FullPath pool) v = (Inr (Some (map (filed folder) ms)), v')"
  shows "poolMembersNeedsUpdate c pool msg v =
    Some (Inr (svc_Targets (msg_Service msg) \<noteq> (if ts = [] then None else Some ts)), v')"
  by (auto simp: poolMembersNeedsUpdate_def assms(2) read_members_targets [OF build_members_listed [OF assms(1)]])

theorem f5_pool_roundtrip_witness:
  "\<exists>ms. poolMembersNeedsUpdate (demo_device\<lparr>cli_PoolMembers := \<lambda>n w. (Inr (Some ms), w)\<rparr>)
      (newPoolFromService demo_f5 demo_add) demo_add () = Some (Inr False, ())"
proof -
  let ?ts = "[\<lparr>tgt_Host = ''10.1.1.1'', tgt_Port = 8080, tgt_Weight = 1\<rparr>]"
  let ?c = "\<lambda>ms. demo_device\<lparr>cli_PoolMembers := \<lambda>n w. (Inr (Some ms), w)\<rparr>"
  obtain ms where ms: "build_members demo_f5 demo_device demo_add ?ts () = Some (ms, ())"
    using build_members_returns [OF demo_device_answers, of demo_f5 demo_add ?ts "()"] by fastforce
  have "build_members demo_f5 (?c x) demo_add ts w = build_members demo_f5 demo_device demo_add ts w" for x ts w
    by (induction ts arbitrary: w) (simp_all add: getNodeByAddress_def)
  then have "build_members demo_f5 (?c (map (filed ''/interlook/'') ms)) demo_add ?ts () = Some (ms, ())"
    by (rule trans [OF _ ms])
  from f5_pool_roundtrip [OF this, of "newPoolFromService demo_f5 demo_add" "()" "''/interlook/''" "()" demo_add]
  show ?thesis by auto
qed

end
