(* ===== verification/Deployment.thy ===== *)
theory Deployment
  imports IPAlloc Consul KempLM F5_Props
begin

text \<open>
  The core with its provisioners: the address manager, the DNS provisioner and the load balancers
  behind the dispatch on a request's destination, all keeping the contract of \<open>Provisioner\<close>, and
  the run of a whole deployment from a provider's message to the end of the workflow.
\<close>

section \<open>The address manager as a provisioner\<close>

definition ipalloc_handle :: "ipv6_text \<Rightarrow> bool \<Rightarrow> ipalloc provisioner_handler" where
  "ipalloc_handle t writable m i =
     (case ipalloc_receive t writable m i of None \<Rightarrow> None | Some (r, i') \<Rightarrow> Some ([r], i'))"

lemma ipalloc_one_answer:
  assumes "manages t net n i" and "core_request m"
  shows "\<exists>r i'. ipalloc_handle t writable m i = Some ([r], i') \<and> manages t net n i' \<and> answers r m"
  using book.step_good [OF assms(1)] assms(2)
  by (auto simp: ipalloc_handle_def ipalloc_receive_eq [OF assms(1)] ipalloc_reply_def with_address_def
      with_error_def answers_def Let_def split: option.splits)

interpretation ipam: provisioner "\<lambda>s. True" "manages t net n" "ipalloc_handle t writable"
  for t net n writable
  by unfold_locales (rule ipalloc_one_answer)

section \<open>The provisioners together\<close>

definition stack_handle :: "ipv6_text \<Rightarrow> bool \<Rightarrow> 'c catalog \<Rightarrow> 'k network \<Rightarrow> kemp \<Rightarrow> BigIP \<Rightarrow> 'f f5Cli \<Rightarrow>
    (ipalloc \<times> 'c \<times> 'k \<times> nat \<times> 'f) provisioner_handler" where
  "stack_handle t writable c net k f cli m w =
     (case w of (i, cw, kw, fw) \<Rightarrow>
        if msg_Destination m = ''ipam.ipalloc'' then
          map_option (\<lambda>(rs, i). (rs, (i, cw, kw, fw))) (ipalloc_handle t writable m i)
        else if msg_Destination m = ''dns.consul'' then
          (case consul_receive c m cw of (rs, cw) \<Rightarrow> Some (rs, (i, cw, kw, fw)))
        else if msg_Destination m = ''lb.kemplm'' then
          (case kemp_receive net k m kw of (rs, kw) \<Rightarrow> Some (rs, (i, cw, kw, fw)))
        else if msg_Destination m = ''lb.f5ltm'' then
          map_option (\<lambda>(rs, fw). (rs, (i, cw, kw, fw))) (f5_receive f cli m fw)
        else None)"

definition stack_serves :: "string \<Rightarrow> bool" where
  "stack_serves s \<longleftrightarrow> s = ''ipam.ipalloc'' \<or> s = ''dns.consul'' \<or> s = ''lb.kemplm'' \<or> s = ''lb.f5ltm''"

definition stack_sound :: "ipv6_text \<Rightarrow> IPNet \<Rightarrow> nat \<Rightarrow> 'c catalog \<Rightarrow> 'f f5Cli \<Rightarrow>
    ipalloc \<times> 'c \<times> 'k \<times> nat \<times> 'f \<Rightarrow> bool" where
  "stack_sound t net n c cli w \<longleftrightarrow> manages t net n (fst w) \<and> registers_all c \<and> lists_answered cli"

interpretation stack: provisioner stack_serves "stack_sound t ipnet n c cli" "stack_handle t writable c net k f cli"
  for t ipnet n c writable net k f cli
proof (unfold_locales, goal_cases)
  case (1 w m)
  note s = 1(1) and m = 1(2) and d = 1(3)
  obtain i cw kw fw where w: "w = (i, cw, kw, fw)" by (cases w)
  have good: "manages t ipnet n i" "registers_all c" "lists_answered cli" using s w by (simp_all add: stack_sound_def)
  consider "msg_Destination m = ''ipam.ipalloc''" | "msg_Destination m = ''dns.consul''"
    | "msg_Destination m = ''lb.kemplm''" | "msg_Destination m = ''lb.f5ltm''" using d by (auto simp: stack_serves_def)
  then show ?case
  proof cases
    case 1
    then show ?thesis using ipam.one_answer [OF good(1) m, of writable] good w
      by (auto simp: stack_handle_def stack_sound_def)
  next
    case 2
    then show ?thesis using dns.one_answer [OF good(2) m, of cw] good w
      by (auto simp: stack_handle_def stack_sound_def)
  next
    case 3
    then show ?thesis using lb.one_answer [OF _ m, of net k kw] good w
      by (auto simp: stack_handle_def stack_sound_def)
  next
    case 4
    then show ?thesis using ltm.one_answer [OF good(3) m, of f fw] good w
      by (auto simp: stack_handle_def stack_sound_def)
  qed
qed

section \<open>A whole deployment\<close>


text \<open>
  An undeployment comes to an end in the same way. When a provider withdraws a service that is
  \<open>deployed\<close>, its entry is, after at most one request to each provisioner, \<open>undeployed\<close> or stopped at a
  step with that provisioner's error, and not in progress.
\<close>

theorem undeployment_ends:
  assumes "wf_config cfg" and "msg_Sender m \<in> set (chain cfg)" and "is_provider (msg_Sender m)"
    and "msg_Action m = DeleteAction" and "msg_Error m = ''''"
    and "we_State e = deployedState" and "\<not> we_WorkInProgress e"
    and "\<forall>s\<in>set (visited cfg). s \<noteq> undeployedState \<longrightarrow> s \<noteq> deployedState \<longrightarrow> stack_serves s"
    and "manages t ipnet n i" and "registers_all c" and "lists_answered cli"
  shows "\<exists>e1 out e' w'. deliver (initWorkflow cfg) now m e = Some (Inr (e1, out)) \<and>
    drive (length (visited cfg)) cfg (stack_handle t writable c net k f cli) now e1 (i, cw, kw, fw) = Some (e', w') \<and>
    \<not> we_WorkInProgress e' \<and> we_ExpectedState e' = undeployedState \<and>
    (we_State e' = undeployedState \<or> we_State e' \<in> set (visited cfg) \<and> we_Error e' \<noteq> '''')"
proof -
  have top: "we_State e \<in> set (visited cfg)" using assms(6) by (simp add: visited_def chain_def)
  obtain s where s: "next_name cfg (we_State e) True = Some s" "Suc (pos_of cfg s) = pos_of cfg (we_State e)"
    using next_name_down [OF assms(1) top] assms(6) by (auto simp: deployedState_def undeployedState_def)
  have v: "s \<in> set (visited cfg)" by (rule next_name_visited [OF assms(1) s(1)])
  have dep: "s \<noteq> deployedState" using s(2) assms(6) by auto
  let ?e = "advance s (setTargetState undeployedState (merge_into (initWorkflow cfg) m e))"
  have d: "deliver (initWorkflow cfg) now m e = enter now '''' ?e"
    using deliver_delete [OF assms(1-4,7) s(1)] assms(5) by simp
  have x: "we_ExpectedState ?e = undeployedState" by (simp add: setTargetState_def)
  show ?thesis
  proof (cases "s = undeployedState")
    case True
    then show ?thesis using d x
      by (subst drive.simps) (simp add: enter_def returns_def isReverse_def)
  next
    case False
    let ?f = "setWIP now True ?e"
    have w: "waiting cfg stack_serves ?f" using v False dep assms(8) by (simp add: waiting_def)
    have "steps_left cfg ?f \<le> length (visited cfg)"
      using pos_of_le_top [OF v] x by (simp add: steps_left_def top_of_def isReverse_def)
    from stack.drive_ends [OF assms(1,8) _ w this, of t ipnet n c cli "(i, cw, kw, fw)" writable net k f now]
    show ?thesis using d x False dep assms(9-11)
      by (auto simp: enter_def returns_def stack_sound_def end_of_def isReverse_def)
  qed
qed

definition kemp_config :: string where
  "kemp_config = ''provider.swarm,ipam.ipalloc,dns.consul,lb.kemplm''"

lemma kemp_config_chain:
  "chain kemp_config = [''undeployed'', ''provider.swarm'', ''ipam.ipalloc'', ''dns.consul'', ''lb.kemplm'', ''deployed'']"
  by (simp add: chain_def kemp_config_def deployedState_def undeployedState_def)

lemma kemp_config_facts:
  "wf_config kemp_config"
  "visited kemp_config = [''undeployed'', ''ipam.ipalloc'', ''dns.consul'', ''lb.kemplm'', ''deployed'']"
  "''provider.swarm'' \<in> set (chain kemp_config)" "is_provider ''provider.swarm''"
  by (simp_all add: wf_config_def visited_def kemp_config_chain is_provider_def HasPrefix_def)

lemma kemp_config_length: "length (visited kemp_config) = 5"
  by (simp add: kemp_config_facts)

lemma kemp_stack:
  "\<forall>s\<in>set (visited kemp_config). s \<noteq> undeployedState \<longrightarrow> s \<noteq> deployedState \<longrightarrow> stack_serves s"
  "manages no_ipv6 small_net 30 (small_book [])" "registers_all (map_catalog [])" "lists_answered demo_device"
  by (simp add: kemp_config_facts stack_serves_def undeployedState_def deployedState_def)
    (rule small_manages, simp_all add: registers_all_def map_catalog_def demo_device_answers)


theorem undeployment_ends_witness:
  "\<exists>e1 out e' w'. deliver (initWorkflow kemp_config) 9 (announce DeleteAction) (zero_entry\<lparr>we_State := deployedState\<rparr>) =
       Some (Inr (e1, out)) \<and>
     drive 5 kemp_config (stack_handle no_ipv6 True (map_catalog []) refusing_device demo_kemp demo_f5 demo_device) 9 e1
       (small_book [], Map.empty, (), 0, ()) = Some (e', w') \<and> \<not> we_WorkInProgress e'"
proof -
  have m: "msg_Sender (announce DeleteAction) \<in> set (chain kemp_config)" "is_provider (msg_Sender (announce DeleteAction))"
    "msg_Action (announce DeleteAction) = DeleteAction" "msg_Error (announce DeleteAction) = ''''"
    by (simp_all add: kemp_config_facts)
  have e: "we_State (zero_entry\<lparr>we_State := deployedState\<rparr>) = deployedState" "\<not> we_WorkInProgress (zero_entry\<lparr>we_State := deployedState\<rparr>)"
    by (simp_all add: zero_entry_def)
  from undeployment_ends [OF kemp_config_facts(1) m e kemp_stack, unfolded kemp_config_length, of 9 True
      refusing_device demo_kemp demo_f5 Map.empty "()" "(0, ())"]
  show ?thesis by blast
qed

end
