(* ===== verification/Provider.thy ===== *)
theory Provider
  imports Comm
begin

text \<open>
  What the core expects of a provider (\<open>src/core/extension.go\<close>, \<open>src/docs/docs/concept.md\<close>): it announces
  services when it polls, and answers a refresh request with the present state of that service. The
  interface is a locale over the rounds of the loop in a provider's \<open>Start\<close>; the theories of the two
  providers show that their models keep it.
\<close>

section \<open>The messages of a provider\<close>

text \<open>
  Both providers read the same labels of a service (one that is missing reads as empty) and start a
  message from them in the same way.
\<close>

definition hostsLabel :: string where "hostsLabel = ''interlook.hosts''"
definition portLabel :: string where "portLabel = ''interlook.port''"
definition sslLabel :: string where "sslLabel = ''interlook.ssl''"

definition label_of :: "(string \<rightharpoonup> string) \<Rightarrow> string \<Rightarrow> string" where
  "label_of labels k = (case labels k of None \<Rightarrow> '''' | Some v \<Rightarrow> v)"

definition service_message :: "string \<Rightarrow> string \<Rightarrow> (string \<rightharpoonup> string) \<Rightarrow> Message" where
  "service_message provider name labels =
     zero_Message\<lparr>msg_Action := AddAction, msg_Service := zero_Service
       \<lparr>svc_Name := name, svc_Provider := provider,
        svc_DNSAliases := Some (Split CHR '','' (label_of labels hostsLabel)),
        svc_TLS := (case ParseBool (label_of labels sslLabel) of None \<Rightarrow> False | Some b \<Rightarrow> b)\<rparr>\<rparr>"

section \<open>The contract\<close>

text \<open>A round of the loop: a tick of the poll timer, or a message of the core.\<close>

datatype provider_event = Tick | Request Message

fun run_events :: "(provider_event \<Rightarrow> 's \<Rightarrow> Message list \<times> 's) \<Rightarrow> provider_event list \<Rightarrow> 's \<Rightarrow> Message list \<times> 's" where
  "run_events step [] s = ([], s)"
| "run_events step (e # es) s =
     (let (out, s) = step e s; (outs, s) = run_events step es s in (out @ outs, s))"

definition refresh_request :: "provider_event \<Rightarrow> bool" where
  "refresh_request e = (case e of Tick \<Rightarrow> False | Request m \<Rightarrow> msg_Action m = RefreshAction)"

lemma refresh_request_simps [simp]:
  "\<not> refresh_request Tick" "refresh_request (Request m) = (msg_Action m = RefreshAction)"
  by (simp_all add: refresh_request_def)

locale service_provider =
  fixes sound :: "'s \<Rightarrow> bool" and step :: "provider_event \<Rightarrow> 's \<Rightarrow> Message list \<times> 's"
  assumes tick_announces: "sound s \<Longrightarrow> step Tick s = (out, s') \<Longrightarrow>
      sound s' \<and> (\<forall>m\<in>set out. msg_Action m = AddAction)"
    and refresh_answered: "sound s \<Longrightarrow> msg_Action q = RefreshAction \<Longrightarrow> step (Request q) s = (out, s') \<Longrightarrow>
      sound s' \<and> (\<exists>m. out = [m] \<and> (msg_Action m = AddAction \<or> m = BuildDeleteMessage (svc_Name (msg_Service q))))"
    and others_ignored: "sound s \<Longrightarrow> msg_Action q \<noteq> RefreshAction \<Longrightarrow> step (Request q) s = ([], s)"
begin

text \<open>A service is only withdrawn in answer to a refresh request for it.\<close>

lemma withdrawn_on_request:
  "sound s \<Longrightarrow> run_events step es s = (out, s') \<Longrightarrow>
    sound s' \<and> (\<forall>m\<in>set out. msg_Action m = AddAction \<or>
      (\<exists>q. Request q \<in> set es \<and> msg_Action q = RefreshAction \<and> m = BuildDeleteMessage (svc_Name (msg_Service q))))"
proof (induction es arbitrary: s out s')
  case (Cons e es)
  obtain o1 s1 o2 s2 where s1: "step e s = (o1, s1)" and s2: "run_events step es s1 = (o2, s2)"
    and out: "out = o1 @ o2" "s' = s2"
    using Cons.prems(2) by (auto simp: Let_def split: prod.splits)
  have "sound s1 \<and> (\<forall>m\<in>set o1. msg_Action m = AddAction \<or>
      (\<exists>q. e = Request q \<and> msg_Action q = RefreshAction \<and> m = BuildDeleteMessage (svc_Name (msg_Service q))))"
  proof (cases e)
    case Tick
    then show ?thesis using tick_announces [OF Cons.prems(1)] s1 by auto
  next
    case (Request q)
    then show ?thesis
      using refresh_answered [OF Cons.prems(1), of q] others_ignored [OF Cons.prems(1), of q] s1 Cons.prems(1)
      by (cases "msg_Action q = RefreshAction") auto
  qed
  moreover from this have "sound s2 \<and> (\<forall>m\<in>set o2. msg_Action m = AddAction \<or>
      (\<exists>q. Request q \<in> set es \<and> msg_Action q = RefreshAction \<and> m = BuildDeleteMessage (svc_Name (msg_Service q))))"
    using Cons.IH [OF _ s2] by simp
  ultimately show ?case unfolding out by auto
qed simp

text \<open>Each refresh request is answered.\<close>

lemma refreshes_counted:
  "sound s \<Longrightarrow> run_events step es s = (out, s') \<Longrightarrow> length (filter refresh_request es) \<le> length out"
proof (induction es arbitrary: s out s')
  case (Cons e es)
  obtain o1 s1 o2 s2 where s1: "step e s = (o1, s1)" and s2: "run_events step es s1 = (o2, s2)" and out: "out = o1 @ o2"
    using Cons.prems(2) by (auto simp: Let_def split: prod.splits)
  have "sound s1"
    using withdrawn_on_request [OF Cons.prems(1), of "[e]" o1 s1] s1 by simp
  then have "length (filter refresh_request es) \<le> length o2" using Cons.IH s2 by blast
  moreover have "refresh_request e \<Longrightarrow> length o1 = 1"
    using refresh_answered [OF Cons.prems(1), of _ o1 s1] s1 by (cases e) fastforce+
  ultimately show ?case unfolding out by auto
qed simp

end

end
