(* ===== verification/Swarm.thy ===== *)
theory Swarm
  imports Provider
begin

text \<open>
  \<open>src/provider/swarm/swarm.go\<close>: the Docker Swarm provider, which lists the services that carry the
  labels of the program, builds a message from each, and answers refresh requests. The Docker client
  is an argument of the model: its methods on a cluster state \<^typ>\<open>'w\<close>, and the operations of
  \<open>filters.Args\<close> on values of a type \<^typ>\<open>'f\<close>.
\<close>

section \<open>Objects of the cluster\<close>

definition swarm_extensionName :: string where "swarm_extensionName = ''provider.swarm''"

record PortConfig =
  pc_Name :: string
  pc_Protocol :: string
  pc_TargetPort :: "32 word"
  pc_PublishedPort :: "32 word"
  pc_PublishMode :: string

definition zero_PortConfig :: PortConfig where
  "zero_PortConfig = \<lparr>pc_Name = '''', pc_Protocol = '''', pc_TargetPort = 0, pc_PublishedPort = 0, pc_PublishMode = ''''\<rparr>"

text \<open>The fields of the client's structs that the provider reads.\<close>

record swarm_Service =
  ss_Name :: string
  ss_Labels :: "string \<rightharpoonup> string"
  ss_Ports :: "PortConfig slice"

record swarm_Task =
  st_NodeID :: string
  st_Ports :: "PortConfig list"

record swarm_Node =
  sn_Addr :: string

record 'f filter_args =
  flt_NewArgs :: 'f
  flt_Add :: "string \<Rightarrow> string \<Rightarrow> 'f \<Rightarrow> 'f"
  flt_Del :: "string \<Rightarrow> string \<Rightarrow> 'f \<Rightarrow> 'f"

record ('f, 'w) dockerCli =
  dk_ServiceList :: "'f \<Rightarrow> 'w \<Rightarrow> (string + swarm_Service list) \<times> 'w"
  dk_TaskList :: "'f \<Rightarrow> 'w \<Rightarrow> (string + swarm_Task list) \<times> 'w"
  dk_NodeList :: "'f \<Rightarrow> 'w \<Rightarrow> (string + swarm_Node list) \<times> 'w"
  dk_Quote :: "string \<Rightarrow> string"

section \<open>Configuration\<close>

record 'f swarm_provider =
  sw_Endpoint :: string
  sw_LabelSelector :: "string slice"
  sw_TLSCa :: string
  sw_TLSCert :: string
  sw_TLSKey :: string
  sw_PollInterval :: int
  sw_serviceFilters :: 'f

text \<open>
  \<open>init\<close> makes the poll ticker, fills in the default interval, and sets up the label filters; \<open>setCli\<close>
  opens a client unless there is one, with an error that \<open>Start\<close> returns. \<^term>\<open>None\<close> is the panic of
  \<open>time.NewTicker\<close>; the number returned is the interval of the ticker.
\<close>

definition label_filters :: "'f filter_args \<Rightarrow> string list \<Rightarrow> 'f" where
  "label_filters fl selector =
     (let f = foldl (\<lambda>f v. flt_Add fl ''label'' v f) (flt_NewArgs fl) selector
      in flt_Add fl ''label'' portLabel (flt_Add fl ''label'' hostsLabel f))"

definition swarm_init :: "'f filter_args \<Rightarrow> ('f swarm_provider \<Rightarrow> string + 'c) \<Rightarrow> 'c option \<Rightarrow>
    'f swarm_provider \<Rightarrow> (string + 'f swarm_provider \<times> 'c \<times> int) option" where
  "swarm_init fl NewClient cli p = do {
     pollTicker \<leftarrow> NewTicker (sw_PollInterval p);
     let p = (if sw_PollInterval p = 0 then p\<lparr>sw_PollInterval := 15000000000\<rparr> else p);
     let p = p\<lparr>sw_serviceFilters := label_filters fl (elems (sw_LabelSelector p))\<rparr>;
     (case cli of
        Some c \<Rightarrow> Some (Inr (p, c, pollTicker))
      | None \<Rightarrow> (case NewClient p of
            Inl err \<Rightarrow> Some (Inl err)
          | Inr c \<Rightarrow> Some (Inr (p, c, pollTicker))))
   }"

section \<open>Published ports\<close>

record servicePublishConfig =
  spc_ip :: string
  spc_portConfig :: PortConfig

definition getNodeIP :: "'f filter_args \<Rightarrow> ('f, 'w) dockerCli \<Rightarrow> string \<Rightarrow> 'w \<Rightarrow> (string + string) \<times> 'w" where
  "getNodeIP fl c nodeID w =
     (let f = flt_Add fl ''id'' nodeID (flt_NewArgs fl) in
      case dk_NodeList c f w of
        (Inl err, w) \<Rightarrow> (Inl err, w)
      | (Inr node, w) \<Rightarrow>
          if length node \<noteq> 1 then (Inl (''Could not get node '' @ nodeID @ CHR 0x27 # ''s IP''), w)
          else (Inr (sn_Addr (node ! 0)), w))"

text \<open>A task's address with the last of its ports; a task whose node is not found is skipped.\<close>

fun task_configs :: "'f filter_args \<Rightarrow> ('f, 'w) dockerCli \<Rightarrow> swarm_Task list \<Rightarrow> 'w \<Rightarrow> servicePublishConfig list \<times> 'w" where
  "task_configs fl c [] w = ([], w)"
| "task_configs fl c (task # ts) w =
     (case getNodeIP fl c (st_NodeID task) w of
        (Inl err, w) \<Rightarrow> task_configs fl c ts w
      | (Inr addr, w) \<Rightarrow>
          (let pc = \<lparr>spc_ip = addr, spc_portConfig = zero_PortConfig\<rparr>;
               pc = foldl (\<lambda>pc pp. pc\<lparr>spc_portConfig := pp\<rparr>) pc (st_Ports task);
               (rest, w) = task_configs fl c ts w
           in (pc # rest, w)))"

definition getTaskPublishInfo :: "'f filter_args \<Rightarrow> ('f, 'w) dockerCli \<Rightarrow> string \<Rightarrow> 'w \<Rightarrow> (string + servicePublishConfig list) \<times> 'w" where
  "getTaskPublishInfo fl c svcName w =
     (let f = flt_Add fl ''service'' svcName (flt_Add fl ''desired-state'' ''running'' (flt_NewArgs fl)) in
      case dk_TaskList c f w of
        (Inl err, w) \<Rightarrow> (Inl err, w)
      | (Inr tasks, w) \<Rightarrow> (let (configs, w) = task_configs fl c tasks w in (Inr configs, w)))"

section \<open>Messages\<close>

text \<open>
  For each port published through the ingress network at the service's target port, every address
  known so far gets that port; the loop ranges over the list as it was when the port was reached.
\<close>

definition add_ingress :: "int \<Rightarrow> servicePublishConfig list \<Rightarrow> PortConfig \<Rightarrow> servicePublishConfig list" where
  "add_ingress targetPort pub port =
     (if uint (pc_TargetPort port) = targetPort \<and> pc_PublishMode port = ''ingress''
      then foldl (\<lambda>acc spc. acc @ [\<lparr>spc_ip = spc_ip spc,
             spc_portConfig = \<lparr>pc_Name = '''', pc_Protocol = pc_Protocol port, pc_TargetPort = pc_TargetPort port,
               pc_PublishedPort = pc_PublishedPort port, pc_PublishMode = pc_PublishMode port\<rparr>\<rparr>]) pub pub
      else pub)"

definition targets_of :: "servicePublishConfig list \<Rightarrow> Target slice" where
  "targets_of pub =
     foldl (\<lambda>ts pm. if pc_PublishedPort (spc_portConfig pm) \<noteq> 0
         then append_slice ts \<lparr>tgt_Host = spc_ip pm, tgt_Port = pc_PublishedPort (spc_portConfig pm), tgt_Weight = 0\<rparr>
         else ts) None pub"

definition swarm_buildMessage :: "'f filter_args \<Rightarrow> ('f, 'w) dockerCli \<Rightarrow> swarm_Service \<Rightarrow> 'w \<Rightarrow> (Message \<times> string option) \<times> 'w" where
  "swarm_buildMessage fl c service w =
     (let msg = service_message swarm_extensionName (ss_Name service) (ss_Labels service);
          port = label_of (ss_Labels service) portLabel in
      case Atoi port of
        (_, Some err) \<Rightarrow>
          ((msg, Some (''Error converting '' @ port @ '' to int ('' @ atoi_error (dk_Quote c) port err @
             ''). Is '' @ portLabel @ '' correctly specified?'')), w)
      | (targetPort, None) \<Rightarrow>
          (let (info, w) = getTaskPublishInfo fl c (ss_Name service) w;
               pubPortInfo = (case info of Inl err \<Rightarrow> [] | Inr pub \<Rightarrow> pub)
           in case ss_Ports service of
                None \<Rightarrow> ((msg, Some ''service has no published port''), w)
              | Some ports \<Rightarrow>
                  (let pubPortInfo = foldl (add_ingress targetPort) pubPortInfo ports
                   in ((msg\<lparr>msg_Service := (msg_Service msg)\<lparr>svc_Targets := targets_of pubPortInfo\<rparr>\<rparr>, None), w))))"

section \<open>Polling and refreshing\<close>

fun poll_services :: "'f filter_args \<Rightarrow> ('f, 'w) dockerCli \<Rightarrow> swarm_Service list \<Rightarrow> 'w \<Rightarrow> Message list \<times> 'w" where
  "poll_services fl c [] w = ([], w)"
| "poll_services fl c (service # ss) w =
     (let ((msg, err), w) = swarm_buildMessage fl c service w; (rest, w) = poll_services fl c ss w
      in if err \<noteq> None then (rest, w)
         else if length (elems (svc_Targets (msg_Service msg))) = 0 then (rest, w)
         else (msg # rest, w))"

definition getFilteredServices :: "('f, 'w) dockerCli \<Rightarrow> 'f swarm_provider \<Rightarrow> 'w \<Rightarrow> (string + swarm_Service list) \<times> 'w" where
  "getFilteredServices c p w = dk_ServiceList c (sw_serviceFilters p) w"

definition swarm_poll :: "'f filter_args \<Rightarrow> ('f, 'w) dockerCli \<Rightarrow> 'f swarm_provider \<Rightarrow> 'w \<Rightarrow> Message list \<times> 'w" where
  "swarm_poll fl c p w =
     (case getFilteredServices c p w of
        (Inl err, w) \<Rightarrow> ([], w)
      | (Inr services, w) \<Rightarrow> poll_services fl c services w)"

text \<open>The filters are changed for the query and changed back; no service stands for the flag beside it.\<close>

definition swarm_getServiceByName :: "'f filter_args \<Rightarrow> ('f, 'w) dockerCli \<Rightarrow> string \<Rightarrow> 'f swarm_provider \<Rightarrow> 'w \<Rightarrow>
    swarm_Service option \<times> 'f swarm_provider \<times> 'w" where
  "swarm_getServiceByName fl c svcName p w =
     (let p = p\<lparr>sw_serviceFilters := flt_Add fl ''name'' svcName (sw_serviceFilters p)\<rparr>;
          (services, w) = dk_ServiceList c (sw_serviceFilters p) w;
          p = p\<lparr>sw_serviceFilters := flt_Del fl ''name'' svcName (sw_serviceFilters p)\<rparr>
      in case services of
           Inl err \<Rightarrow> (None, p, w)
         | Inr services \<Rightarrow> if length services = 0 then (None, p, w) else (Some (services ! 0), p, w))"

definition swarm_RefreshService :: "'f filter_args \<Rightarrow> ('f, 'w) dockerCli \<Rightarrow> Message \<Rightarrow> 'f swarm_provider \<times> 'w \<Rightarrow>
    Message list \<times> 'f swarm_provider \<times> 'w" where
  "swarm_RefreshService fl c msg s =
     (let (p, w) = s; name = svc_Name (msg_Service msg) in
      case swarm_getServiceByName fl c name p w of
        (Some service, p, w) \<Rightarrow>
          (let ((newMsg, err), w) = swarm_buildMessage fl c service w;
               newMsg = (if svc_Name (msg_Service newMsg) = '''' \<or> length (elems (svc_Targets (msg_Service newMsg))) = 0
                         then BuildDeleteMessage name else newMsg)
           in ([newMsg], p, w))
      | (None, p, w) \<Rightarrow> ([BuildDeleteMessage name], p, w))"

text \<open>A round of the loop of \<open>Start\<close>.\<close>

definition swarm_step :: "'f filter_args \<Rightarrow> ('f, 'w) dockerCli \<Rightarrow> provider_event \<Rightarrow> 'f swarm_provider \<times> 'w \<Rightarrow>
    Message list \<times> 'f swarm_provider \<times> 'w" where
  "swarm_step fl c e s =
     (case e of
        Tick \<Rightarrow> (let (out, w) = swarm_poll fl c (fst s) (snd s) in (out, fst s, w))
      | Request msg \<Rightarrow>
          if msg_Action msg = RefreshAction then swarm_RefreshService fl c msg s else ([], s))"

end
