(* ===== verification/Swarm_Props.thy ===== *)
theory Swarm_Props
  imports Swarm
begin

text \<open>
  The properties of the Docker Swarm provider (\<open>src/provider/swarm/swarm.go\<close>): the messages it builds and
  sends, the contract of a provider that it keeps, and its answers to refresh requests.
\<close>

section \<open>Messages built\<close>

lemma service_message_simps [simp]:
  "msg_Action (service_message p n l) = AddAction" "msg_Error (service_message p n l) = ''''"
  "msg_Sender (service_message p n l) = ''''" "msg_Destination (service_message p n l) = ''''"
  "svc_Name (msg_Service (service_message p n l)) = n" "svc_Provider (msg_Service (service_message p n l)) = p"
  "svc_Targets (msg_Service (service_message p n l)) = None" "svc_PublicIP (msg_Service (service_message p n l)) = ''''"
  "svc_DNSAliases (msg_Service (service_message p n l)) = Some (Split CHR '','' (label_of l hostsLabel))"
  by (simp_all add: service_message_def zero_Message_def zero_Service_def)

text \<open>The targets: those published on a port that is not 0.\<close>

definition published :: "servicePublishConfig \<Rightarrow> bool" where
  "published pm \<longleftrightarrow> pc_PublishedPort (spc_portConfig pm) \<noteq> 0"

definition target_at :: "servicePublishConfig \<Rightarrow> Target" where
  "target_at pm = \<lparr>tgt_Host = spc_ip pm, tgt_Port = pc_PublishedPort (spc_portConfig pm), tgt_Weight = 0\<rparr>"

lemma elems_targets_of: "elems (targets_of pub) = map target_at (filter published pub)"
proof -
  have "elems (foldl (\<lambda>ts pm. if published pm then append_slice ts (target_at pm) else ts) a pub) =
      elems a @ map target_at (filter published pub)" for a
    by (induction pub arbitrary: a) auto
  note fold = this [of None]
  show ?thesis unfolding targets_of_def target_at_def [symmetric] published_def [symmetric] fold by simp
qed

text \<open>A port published through the ingress network at the target port doubles the list.\<close>

definition ingress_at :: "int \<Rightarrow> PortConfig \<Rightarrow> bool" where
  "ingress_at p port \<longleftrightarrow> uint (pc_TargetPort port) = p \<and> pc_PublishMode port = ''ingress''"

definition ingress_config :: "PortConfig \<Rightarrow> servicePublishConfig \<Rightarrow> servicePublishConfig" where
  "ingress_config port spc = \<lparr>spc_ip = spc_ip spc,
     spc_portConfig = \<lparr>pc_Name = '''', pc_Protocol = pc_Protocol port, pc_TargetPort = pc_TargetPort port,
       pc_PublishedPort = pc_PublishedPort port, pc_PublishMode = pc_PublishMode port\<rparr>\<rparr>"

lemma add_ingress_eq: "add_ingress p pub port = (if ingress_at p port then pub @ map (ingress_config port) pub else pub)"
proof -
  have "foldl (\<lambda>acc x. acc @ [f x]) a xs = a @ map f xs" for f :: "servicePublishConfig \<Rightarrow> servicePublishConfig" and a xs
    by (induction xs arbitrary: a) auto
  note fold = this
  show ?thesis unfolding add_ingress_def ingress_at_def ingress_config_def [symmetric] fold by simp
qed

lemma length_add_ingress: "length (foldl (add_ingress p) pub ports) = length pub * 2 ^ length (filter (ingress_at p) ports)"
  by (induction ports arbitrary: pub) (simp_all add: add_ingress_eq)

lemma swarm_buildMessage_frame:
  assumes "swarm_buildMessage fl c s w = ((m, err), w')"
  shows "m\<lparr>msg_Service := (msg_Service m)\<lparr>svc_Targets := None\<rparr>\<rparr> =
    service_message swarm_extensionName (ss_Name s) (ss_Labels s)"
    and "\<forall>t\<in>set (elems (svc_Targets (msg_Service m))). tgt_Port t \<noteq> 0"
    and "err \<noteq> None \<Longrightarrow> svc_Targets (msg_Service m) = None"
proof -
  have "m = service_message swarm_extensionName (ss_Name s) (ss_Labels s) \<and> err \<noteq> None \<or>
      err = None \<and> (\<exists>pub. m = service_message swarm_extensionName (ss_Name s) (ss_Labels s)
        \<lparr>msg_Service := (msg_Service (service_message swarm_extensionName (ss_Name s) (ss_Labels s)))
          \<lparr>svc_Targets := targets_of pub\<rparr>\<rparr>)"
    using assms by (auto simp: swarm_buildMessage_def Let_def split: prod.splits option.splits)
  moreover have "service_message p n l\<lparr>msg_Service := (msg_Service (service_message p n l))\<lparr>svc_Targets := None\<rparr>\<rparr> =
      service_message p n l" for p n l
    by (simp add: service_message_def zero_Message_def zero_Service_def)
  ultimately show "m\<lparr>msg_Service := (msg_Service m)\<lparr>svc_Targets := None\<rparr>\<rparr> =
      service_message swarm_extensionName (ss_Name s) (ss_Labels s)"
    and "\<forall>t\<in>set (elems (svc_Targets (msg_Service m))). tgt_Port t \<noteq> 0"
    and "err \<noteq> None \<Longrightarrow> svc_Targets (msg_Service m) = None"
    by (auto simp: elems_targets_of target_at_def published_def)
qed

text \<open>Without an interval in the configuration the provider panics before it fills in the default.\<close>

lemma swarm_init_needs_interval: "sw_PollInterval p \<le> 0 \<Longrightarrow> swarm_init fl NewClient cli p = None"
  by (simp add: swarm_init_def NewTicker_def)

text \<open>What a message that announces a service looks like.\<close>

definition announces :: "swarm_Service \<Rightarrow> Message \<Rightarrow> bool" where
  "announces s m \<longleftrightarrow> m\<lparr>msg_Service := (msg_Service m)\<lparr>svc_Targets := None\<rparr>\<rparr> =
       service_message swarm_extensionName (ss_Name s) (ss_Labels s) \<and>
     elems (svc_Targets (msg_Service m)) \<noteq> [] \<and>
     (\<forall>t\<in>set (elems (svc_Targets (msg_Service m))). tgt_Port t \<noteq> 0)"

lemma announces_Action: "announces s m \<Longrightarrow> msg_Action m = AddAction"
proof -
  assume "announces s m"
  then have "msg_Action (m\<lparr>msg_Service := (msg_Service m)\<lparr>svc_Targets := None\<rparr>\<rparr>) = AddAction"
    by (simp only: announces_def service_message_simps)
  then show ?thesis by simp
qed

lemma poll_services_announce:
  "\<exists>kept. subseq kept ss \<and> list_all2 announces kept (fst (poll_services fl c ss w))"
proof (induction ss arbitrary: w)
  case Nil
  show ?case by simp
next
  case (Cons s ss)
  obtain m err w1 where b: "swarm_buildMessage fl c s w = ((m, err), w1)" by (metis prod.exhaust)
  obtain rest w2 where r: "poll_services fl c ss w1 = (rest, w2)" by (metis prod.exhaust)
  obtain kept where k: "subseq kept ss" "list_all2 announces kept rest" using Cons [of w1] r by auto
  show ?case
  proof (cases "err = None \<and> elems (svc_Targets (msg_Service m)) \<noteq> []")
    case True
    then have "announces s m" using swarm_buildMessage_frame [OF b] by (simp add: announces_def)
    then have "list_all2 announces (s # kept) (fst (poll_services fl c (s # ss) w))"
      using True b r k(2) by simp
    then show ?thesis using k(1) subseq_Cons2 by blast
  next
    case False
    then have "fst (poll_services fl c (s # ss) w) = rest" using b r by (auto split: if_splits)
    then show ?thesis using k by blast
  qed
qed

text \<open>The documented behaviour of \<open>filters.Args\<close>: a name that was added is taken away by its deletion.\<close>

definition undone :: "'f filter_args \<Rightarrow> 'f \<Rightarrow> bool" where
  "undone fl f \<longleftrightarrow> (\<forall>n. flt_Del fl ''name'' n (flt_Add fl ''name'' n f) = f)"

lemma swarm_refresh_answer:
  assumes "swarm_RefreshService fl c q (p, w) = (out, p', w')"
  shows "(\<exists>m. out = [m] \<and> ((\<exists>s. announces s m) \<or> m = BuildDeleteMessage (svc_Name (msg_Service q)))) \<and>
    p' = p\<lparr>sw_serviceFilters := flt_Del fl ''name'' (svc_Name (msg_Service q))
      (flt_Add fl ''name'' (svc_Name (msg_Service q)) (sw_serviceFilters p))\<rparr>"
proof -
  obtain so p1 w1 where g: "swarm_getServiceByName fl c (svc_Name (msg_Service q)) p w = (so, p1, w1)"
    by (metis prod.exhaust)
  have p1: "p1 = p\<lparr>sw_serviceFilters := flt_Del fl ''name'' (svc_Name (msg_Service q))
      (flt_Add fl ''name'' (svc_Name (msg_Service q)) (sw_serviceFilters p))\<rparr>"
    using g by (auto simp: swarm_getServiceByName_def Let_def split: prod.splits sum.splits if_splits)
  show ?thesis
  proof (cases so)
    case None
    then show ?thesis using assms g p1 by (auto simp: swarm_RefreshService_def Let_def)
  next
    case (Some s)
    obtain m err w2 where b: "swarm_buildMessage fl c s w1 = ((m, err), w2)" by (metis prod.exhaust)
    then show ?thesis using assms g p1 Some swarm_buildMessage_frame [OF b]
      by (auto simp: swarm_RefreshService_def announces_def Let_def split: if_splits)
  qed
qed

interpretation swarm: service_provider "\<lambda>s. True" "swarm_step fl c" for fl c
proof (unfold_locales, goal_cases)
  case (1 s out s')
  have "\<forall>m\<in>set (fst (poll_services fl c ss w)). msg_Action m = AddAction" for ss w
  proof -
    obtain kept where "list_all2 announces kept (fst (poll_services fl c ss w))"
      using poll_services_announce [of ss fl c w] by blast
    then show ?thesis by (induction rule: list_all2_induct) (auto intro: announces_Action)
  qed
  then show ?case using 1(2)
    by (auto simp: swarm_step_def swarm_poll_def getFilteredServices_def Let_def split: prod.splits sum.splits)
      (metis fst_conv)
next
  case (2 s q out s')
  obtain p w p' w' where s: "s = (p, w)" "s' = (p', w')" by (metis prod.exhaust)
  have "swarm_RefreshService fl c q (p, w) = (out, p', w')" using 2 s by (simp add: swarm_step_def)
  from swarm_refresh_answer [OF this] announces_Action show ?case by blast
qed (simp add: swarm_step_def)

section \<open>Properties\<close>

text \<open>A cluster of two nodes that runs one service twice, published at port 30001 of every node.\<close>

definition demo_filters :: "(string \<times> string) list filter_args" where
  "demo_filters = \<lparr>flt_NewArgs = [], flt_Add = \<lambda>k v f. (k, v) # f, flt_Del = \<lambda>k v f. remove1 (k, v) f\<rparr>"

definition demo_service :: swarm_Service where
  "demo_service = \<lparr>ss_Name = ''web'',
     ss_Labels = [hostsLabel \<mapsto> ''web.test'', portLabel \<mapsto> ''80'', sslLabel \<mapsto> ''true''],
     ss_Ports = Some [\<lparr>pc_Name = '''', pc_Protocol = ''tcp'', pc_TargetPort = 80, pc_PublishedPort = 30001,
       pc_PublishMode = ''ingress''\<rparr>]\<rparr>"

definition demo_cluster :: "((string \<times> string) list, unit) dockerCli" where
  "demo_cluster =
     \<lparr>dk_ServiceList = \<lambda>f w. (Inr [demo_service], w),
      dk_TaskList = \<lambda>f w. (Inr [\<lparr>st_NodeID = ''10.1.1.1'', st_Ports = []\<rparr>, \<lparr>st_NodeID = ''10.1.1.2'', st_Ports = []\<rparr>], w),
      dk_NodeList = \<lambda>f w. (Inr [\<lparr>sn_Addr = snd (hd f)\<rparr>], w),
      dk_Quote = \<lambda>s. s\<rparr>"

definition demo_swarm :: "(string \<times> string) list swarm_provider" where
  "demo_swarm = \<lparr>sw_Endpoint = ''tcp://c'', sw_LabelSelector = None, sw_TLSCa = '''', sw_TLSCert = '''', sw_TLSKey = '''',
     sw_PollInterval = 5000000000, sw_serviceFilters = label_filters demo_filters []\<rparr>"

lemma demo_labels:
  "label_of (ss_Labels demo_service) portLabel = ''80''" "label_of (ss_Labels demo_service) hostsLabel = ''web.test''"
  by (simp_all add: demo_service_def label_of_def hostsLabel_def portLabel_def sslLabel_def)

lemma demo_port: "Atoi ''80'' = (80, None)"
  by (simp add: Atoi_def ParseInt_def digit_val_digits int_max_def)

definition demo_configs :: "servicePublishConfig list" where
  "demo_configs = [\<lparr>spc_ip = ''10.1.1.1'', spc_portConfig = zero_PortConfig\<rparr>,
     \<lparr>spc_ip = ''10.1.1.2'', spc_portConfig = zero_PortConfig\<rparr>]"

lemma demo_tasks: "getTaskPublishInfo demo_filters demo_cluster n w = (Inr demo_configs, ())"
  by (simp add: getTaskPublishInfo_def getNodeIP_def demo_filters_def demo_cluster_def demo_configs_def Let_def)

lemma demo_filters_undone: "undone demo_filters f"
  by (simp add: undone_def demo_filters_def)

text \<open>
  C28. What a poll sends: for a listing that fails nothing, otherwise the announcements of some of the
  services listed, in their order and each at most once. An announcement is an add message of this
  provider with the service's name, the list of its host names, its TLS flag, no public address and
  no error, and with at least one target; no target has port 0.
\<close>

theorem swarm_poll_announces:
  assumes "dk_ServiceList c (sw_serviceFilters p) w = (r, w1)"
  shows "\<exists>out w'. swarm_step fl c Tick (p, w) = (out, p, w') \<and>
    (case r of Inl err \<Rightarrow> out = []
     | Inr services \<Rightarrow> \<exists>kept. subseq kept services \<and> list_all2 announces kept out)"
proof (cases r)
  case (Inl err)
  then show ?thesis using assms by (simp add: swarm_step_def swarm_poll_def getFilteredServices_def)
next
  case (Inr services)
  then show ?thesis using assms poll_services_announce [of services fl c w1]
    by (auto simp: swarm_step_def swarm_poll_def getFilteredServices_def split: prod.splits)
qed

theorem swarm_poll_announces_witness:
  "\<exists>out w' kept. swarm_step demo_filters demo_cluster Tick (demo_swarm, ()) = (out, demo_swarm, w') \<and>
     subseq kept [demo_service] \<and> list_all2 announces kept out"
proof -
  have "dk_ServiceList demo_cluster (sw_serviceFilters demo_swarm) () = (Inr [demo_service], ())"
    by (simp add: demo_cluster_def)
  from swarm_poll_announces [OF this, of demo_filters] show ?thesis by auto
qed

text \<open>
  C27. A service is only withdrawn in answer to a refresh request for it, whatever the cluster says
  and in whatever order polls and requests come: every message is an add message or the delete
  message for a service that the core has asked about. Each such request is answered.
\<close>

theorem swarm_withdraws_on_request:
  assumes "run_events (swarm_step fl c) es s = (out, s')"
  shows "(\<forall>m\<in>set out. msg_Action m = AddAction \<or>
      (\<exists>q. Request q \<in> set es \<and> msg_Action q = RefreshAction \<and> m = BuildDeleteMessage (svc_Name (msg_Service q)))) \<and>
    length (filter refresh_request es) \<le> length out"
  using swarm.withdrawn_on_request [OF TrueI assms] swarm.refreshes_counted [OF TrueI assms] by simp

theorem swarm_withdraws_on_request_witness:
  "\<exists>out s'. run_events (swarm_step demo_filters (demo_cluster\<lparr>dk_ServiceList := \<lambda>f w. (Inl ''down'', w)\<rparr>))
      [Tick, Request (zero_Message\<lparr>msg_Action := RefreshAction\<rparr>)] (demo_swarm, ()) = (out, s') \<and> 1 \<le> length out"
proof -
  obtain out s' where r: "run_events (swarm_step demo_filters (demo_cluster\<lparr>dk_ServiceList := \<lambda>f w. (Inl ''down'', w)\<rparr>))
      [Tick, Request (zero_Message\<lparr>msg_Action := RefreshAction\<rparr>)] (demo_swarm, ()) = (out, s')"
    by (rule prod.exhaust)
  have "1 \<le> length out" using swarm_withdraws_on_request [OF r] by simp
  with r show ?thesis by blast
qed

text \<open>
  A refresh request is answered with one message, and the filters are as before. If the listing
  by name fails or is empty, the answer withdraws the service; otherwise it announces the first
  service listed - which is not compared with the name asked for - or withdraws the service asked
  for when that first one has no target.
\<close>

theorem swarm_refresh_answers:
  assumes "msg_Action q = RefreshAction" and "undone fl (sw_serviceFilters p)"
    and "dk_ServiceList c (flt_Add fl ''name'' (svc_Name (msg_Service q)) (sw_serviceFilters p)) w = (r, w1)"
  shows "\<exists>m w'. swarm_step fl c (Request q) (p, w) = ([m], p, w') \<and>
    (case r of Inr (s # ss) \<Rightarrow>
        if elems (svc_Targets (msg_Service (fst (fst (swarm_buildMessage fl c s w1))))) = [] \<or> ss_Name s = ''''
        then m = BuildDeleteMessage (svc_Name (msg_Service q)) else announces s m
     | _ \<Rightarrow> m = BuildDeleteMessage (svc_Name (msg_Service q)) \<and> w' = w1)"
proof -
  let ?n = "svc_Name (msg_Service q)"
  have u: "p\<lparr>sw_serviceFilters := flt_Del fl ''name'' ?n (flt_Add fl ''name'' ?n (sw_serviceFilters p))\<rparr> = p"
    using assms(2) by (simp add: undone_def)
  show ?thesis
  proof (cases "\<exists>s ss. r = Inr (s # ss)")
    case True
    then obtain s ss where r: "r = Inr (s # ss)" by blast
    then have g: "swarm_getServiceByName fl c ?n p w = (Some s, p, w1)"
      using assms(3) u by (simp add: swarm_getServiceByName_def)
    obtain b err w2 where b: "swarm_buildMessage fl c s w1 = ((b, err), w2)" by (metis prod.exhaust)
    have n: "svc_Name (msg_Service b) = ss_Name s"
    proof -
      have "svc_Name (msg_Service (b\<lparr>msg_Service := (msg_Service b)\<lparr>svc_Targets := None\<rparr>\<rparr>)) = ss_Name s"
        unfolding swarm_buildMessage_frame(1) [OF b] by simp
      then show ?thesis by simp
    qed
    then show ?thesis using assms(1) r g b swarm_buildMessage_frame [OF b]
      by (auto simp: swarm_step_def swarm_RefreshService_def announces_def)
  next
    case False
    then have "swarm_getServiceByName fl c ?n p w = (None, p, w1)"
      using assms(3) u by (auto simp: swarm_getServiceByName_def neq_Nil_conv split: sum.splits)
    then show ?thesis using assms(1) False
      by (auto simp: swarm_step_def swarm_RefreshService_def Let_def split: sum.splits list.splits)
  qed
qed

theorem swarm_refresh_answers_witness:
  "\<exists>m. swarm_step demo_filters (demo_cluster\<lparr>dk_ServiceList := \<lambda>f w. (Inr [], w)\<rparr>)
      (Request (zero_Message\<lparr>msg_Action := RefreshAction, msg_Service := zero_Service\<lparr>svc_Name := ''web''\<rparr>\<rparr>)) (demo_swarm, ()) =
    ([m], demo_swarm, ()) \<and> m = BuildDeleteMessage ''web''"
proof -
  let ?q = "zero_Message\<lparr>msg_Action := RefreshAction, msg_Service := zero_Service\<lparr>svc_Name := ''web''\<rparr>\<rparr>"
  let ?c = "demo_cluster\<lparr>dk_ServiceList := \<lambda>f w. (Inr [], w)\<rparr>"
  have "msg_Action ?q = RefreshAction" by simp
  moreover have "dk_ServiceList ?c f () = (Inr [], ())" for f by simp
  ultimately show ?thesis using swarm_refresh_answers [OF _ demo_filters_undone, of ?q ?c demo_swarm "()" "Inr []" "()"] by simp
qed

lemma count_published:
  assumes "\<forall>port\<in>set ports. ingress_at p port \<longrightarrow> pc_PublishedPort port \<noteq> 0"
  shows "length (filter published (foldl (add_ingress p) pub ports)) =
    length (filter published pub) + length pub * (2 ^ length (filter (ingress_at p) ports) - 1)"
  using assms
proof (induction ports arbitrary: pub)
  case (Cons port ports)
  show ?case
  proof (cases "ingress_at p port")
    case True
    then have "filter published (map (ingress_config port) pub) = map (ingress_config port) pub"
      using Cons.prems by (simp add: filter_eq_Cons_iff filter_id_conv published_def ingress_config_def)
    then show ?thesis using Cons True by (simp add: add_ingress_eq algebra_simps diff_mult_distrib)
  qed (use Cons in \<open>simp add: add_ingress_eq\<close>)
qed simp

text \<open>
  C29. How many targets a service gets: each of its running tasks with a known node counts once if it
  publishes a port itself, and each of the \<open>k\<close> ports that the service publishes through the ingress
  network at its target port doubles the list, so that \<open>n\<close> tasks give \<open>n * (2 ^ k - 1)\<close> further targets,
  repetitions included (they become weights in the core).
\<close>

theorem swarm_target_count:
  assumes "Atoi (label_of (ss_Labels s) portLabel) = (p, None)" and "ss_Ports s = Some ports"
    and "getTaskPublishInfo fl c (ss_Name s) w = (Inr configs, w1)"
    and "\<forall>port\<in>set ports. ingress_at p port \<longrightarrow> pc_PublishedPort port \<noteq> 0"
  shows "\<exists>m. swarm_buildMessage fl c s w = ((m, None), w1) \<and>
    length (elems (svc_Targets (msg_Service m))) =
      length (filter published configs) + length configs * (2 ^ length (filter (ingress_at p) ports) - 1)"
  using assms count_published [OF assms(4), of configs]
  by (simp add: swarm_buildMessage_def elems_targets_of Let_def)

theorem swarm_target_count_witness:
  "\<exists>m. swarm_buildMessage demo_filters demo_cluster demo_service () = ((m, None), ()) \<and>
     length (elems (svc_Targets (msg_Service m))) = 2"
proof -
  have a: "Atoi (label_of (ss_Labels demo_service) portLabel) = (80, None)" by (simp add: demo_labels demo_port)
  have i: "ingress_at 80 \<lparr>pc_Name = '''', pc_Protocol = ''tcp'', pc_TargetPort = 80, pc_PublishedPort = 30001,
      pc_PublishMode = ''ingress''\<rparr>" by (simp add: ingress_at_def)
  from swarm_target_count [OF a _ demo_tasks] i show ?thesis
    by (simp add: demo_service_def demo_configs_def published_def zero_PortConfig_def)
qed

end
