(* ===== verification/Kubernetes.thy ===== *)
theory Kubernetes
  imports Provider "HOL-Library.Word"
begin

text \<open>
  \<open>src/provider/kubernetes/kubernetes.go\<close>: the Kubernetes provider, which lists the services that carry
  the labels of the program and announces those of type \<open>NodePort\<close> at the hosts of their pods. The
  client of \<open>k8s.io/client-go\<close> is an argument of the model, its methods on a cluster state \<^typ>\<open>'w\<close>; it
  returns lists and services that are not nil unless there is an error.
\<close>

section \<open>Objects of the cluster\<close>

definition k8s_extensionName :: string where "k8s_extensionName = ''provider.kubernetes''"

text \<open>
  The fields of the client's structs that the provider reads. The ports are signed 32-bit integers. A
  selector is a Go map, given by its entries in the order in which the range over it visits them.
\<close>

record k8s_ServicePort =
  kp_Port :: "32 word"
  kp_NodePort :: "32 word"

record k8s_Service =
  ks_Name :: string
  ks_Labels :: "string \<rightharpoonup> string"
  ks_Type :: string
  ks_Ports :: "k8s_ServicePort list"
  ks_Selector :: "(string \<times> string) list"

record k8s_Pod =
  pod_HostIP :: string

record 'w k8sCli =
  k8_ListServices :: "string \<Rightarrow> 'w \<Rightarrow> (string + k8s_Service list) \<times> 'w"
  k8_GetService :: "string \<Rightarrow> 'w \<Rightarrow> (string + k8s_Service) \<times> 'w"
  k8_ListPods :: "string \<Rightarrow> 'w \<Rightarrow> (string + k8s_Pod list) \<times> 'w"
  k8_ServerVersion :: "'w \<Rightarrow> string option \<times> 'w"

section \<open>Configuration\<close>

record k8s_Extension =
  ke_Name :: string
  ke_Endpoint :: string
  ke_LabelSelector :: "string slice"
  ke_TLSCa :: string
  ke_TLSCert :: string
  ke_TLSKey :: string
  ke_PollInterval :: int
  ke_listOptions :: string

text \<open>The default interval, the ticker (whose interval is returned; \<^term>\<open>None\<close> is its panic), the label selector.\<close>

definition k8s_init :: "k8s_Extension \<Rightarrow> (k8s_Extension \<times> int) option" where
  "k8s_init p = do {
     let p = (if ke_PollInterval p = 0 then p\<lparr>ke_PollInterval := 15000000000\<rparr> else p);
     pollTicker \<leftarrow> NewTicker (ke_PollInterval p);
     let p = p\<lparr>ke_listOptions := hostsLabel @ '','' @ portLabel\<rparr>;
     let p = (if length (elems (ke_LabelSelector p)) > 0
              then p\<lparr>ke_listOptions := ke_listOptions p @ '','' @ Join '','' (elems (ke_LabelSelector p))\<rparr> else p);
     Some (p, pollTicker)
   }"

text \<open>
  What \<open>Start\<close> does before its loop: \<open>init\<close>, the connection unless there is a client (by
  \<open>kubernetes.NewForConfig\<close>), and a first request for the server's version.
\<close>

definition k8s_start :: "(k8s_Extension \<Rightarrow> string + 'w k8sCli) \<Rightarrow> 'w k8sCli option \<Rightarrow> k8s_Extension \<Rightarrow> 'w \<Rightarrow>
    ((string + k8s_Extension \<times> 'w k8sCli \<times> int) \<times> 'w) option" where
  "k8s_start connect cli p w = do {
     (p, pollTicker) \<leftarrow> k8s_init p;
     (case (case cli of Some c \<Rightarrow> Inr c | None \<Rightarrow> connect p) of
        Inl err \<Rightarrow> Some (Inl err, w)
      | Inr c \<Rightarrow> (case k8_ServerVersion c w of
            (Some err, w) \<Rightarrow> Some (Inl err, w)
          | (None, w) \<Rightarrow> Some (Inr (p, c, pollTicker), w)))
   }"

section \<open>Messages\<close>

text \<open>The node port of the last of the ports whose number is the label's text.\<close>

definition node_port :: "k8s_Service \<Rightarrow> 32 word" where
  "node_port service =
     foldl (\<lambda>targetPort port.
         if Itoa (sint (kp_Port port)) = label_of (ks_Labels service) portLabel then kp_NodePort port else targetPort)
       0 (ks_Ports service)"

text \<open>\<open>uint32\<close> of a signed 32-bit integer keeps its bits.\<close>

definition k8s_buildMessage :: "'w k8sCli \<Rightarrow> k8s_Service \<Rightarrow> 'w \<Rightarrow> (Message \<times> string option) \<times> 'w" where
  "k8s_buildMessage c service w =
     (let msg = service_message k8s_extensionName (ks_Name service) (ks_Labels service);
          targetPort = node_port service in
      if length (ks_Selector service) > 0 then
        (let labelSelect = map (\<lambda>(k, v). k @ ''='' @ v) (ks_Selector service) in
         case k8_ListPods c (Join '','' labelSelect) w of
           (Inl err, w) \<Rightarrow> ((msg, Some (''error getting pods: '' @ err)), w)
         | (Inr pods, w) \<Rightarrow>
             if length pods = 0 then ((msg, Some (''no pod found for service '' @ ks_Name service)), w)
             else (let targets = foldl (\<lambda>ts pod. append_slice ts
                         \<lparr>tgt_Host = pod_HostIP pod, tgt_Port = targetPort, tgt_Weight = 0\<rparr>) None pods
                   in ((msg\<lparr>msg_Service := (msg_Service msg)\<lparr>svc_Targets := targets\<rparr>\<rparr>, None), w)))
      else ((msg, None), w))"

section \<open>Polling and refreshing\<close>

text \<open>The message is sent whether or not building it failed.\<close>

fun k8s_poll_services :: "'w k8sCli \<Rightarrow> k8s_Service list \<Rightarrow> 'w \<Rightarrow> Message list \<times> 'w" where
  "k8s_poll_services c [] w = ([], w)"
| "k8s_poll_services c (svc # ss) w =
     (if ks_Type svc = ''NodePort'' then
        (let ((msg, err), w) = k8s_buildMessage c svc w; (rest, w) = k8s_poll_services c ss w
         in (msg # rest, w))
      else k8s_poll_services c ss w)"

definition k8s_poll :: "'w k8sCli \<Rightarrow> k8s_Extension \<Rightarrow> 'w \<Rightarrow> Message list \<times> 'w" where
  "k8s_poll c p w =
     (case k8_ListServices c (ke_listOptions p) w of
        (Inl err, w) \<Rightarrow> ([], w)
      | (Inr items, w) \<Rightarrow> k8s_poll_services c items w)"

definition k8s_getServiceByName :: "'w k8sCli \<Rightarrow> string \<Rightarrow> 'w \<Rightarrow> k8s_Service option \<times> 'w" where
  "k8s_getServiceByName c svcName w =
     (case k8_GetService c svcName w of
        (Inl err, w) \<Rightarrow> (None, w)
      | (Inr svc, w) \<Rightarrow> (Some svc, w))"

definition k8s_RefreshService :: "'w k8sCli \<Rightarrow> Message \<Rightarrow> 'w \<Rightarrow> Message list \<times> 'w" where
  "k8s_RefreshService c msg w =
     (let name = svc_Name (msg_Service msg) in
      case k8s_getServiceByName c name w of
        (Some svc, w) \<Rightarrow>
          (let ((res, err), w) = k8s_buildMessage c svc w;
               res = (case err of
                   Some err \<Rightarrow> res\<lparr>msg_Error := ''Error building message for '' @ name @ '': '' @ err\<rparr>
                 | None \<Rightarrow> res)
           in ([res], w))
      | (None, w) \<Rightarrow> ([BuildDeleteMessage name], w))"

definition k8s_step :: "'w k8sCli \<Rightarrow> k8s_Extension \<Rightarrow> provider_event \<Rightarrow> 'w \<Rightarrow> Message list \<times> 'w" where
  "k8s_step c p e w =
     (case e of
        Tick \<Rightarrow> k8s_poll c p w
      | Request msg \<Rightarrow> if msg_Action msg = RefreshAction then k8s_RefreshService c msg w else ([], w))"

end
