(* ===== verification/Kubernetes_Props.thy ===== *)
theory Kubernetes_Props
  imports Kubernetes
begin

text \<open>
  The properties of the Kubernetes provider (\<open>src/provider/kubernetes/kubernetes.go\<close>): the messages it
  builds and sends, the ports in them, and the contract of a provider that it keeps.
\<close>

section \<open>Messages built\<close>

lemma k8s_targets: "elems (foldl (\<lambda>ts pod. append_slice ts (f pod)) None pods) = map f pods"
  by (simp add: elems_foldl_append)

text \<open>
  The message for a service: the pods' hosts at the service's node port, or no targets if there is no
  selector, or if building it failed, because the pods are not listed or there is none.
\<close>

definition k8s_announces :: "k8s_Service \<Rightarrow> Message \<Rightarrow> bool" where
  "k8s_announces s m \<longleftrightarrow> m\<lparr>msg_Service := (msg_Service m)\<lparr>svc_Targets := None\<rparr>\<rparr> =
       service_message k8s_extensionName (ks_Name s) (ks_Labels s) \<and>
     (\<forall>t\<in>set (elems (svc_Targets (msg_Service m))). tgt_Port t = node_port s)"

lemma k8s_buildMessage_announces:
  assumes "k8s_buildMessage c s w = ((m, err), w')"
  shows "k8s_announces s m" and "err \<noteq> None \<Longrightarrow> svc_Targets (msg_Service m) = None"
  using assms
  by (auto simp: k8s_buildMessage_def k8s_announces_def k8s_targets service_message_def zero_Message_def
      zero_Service_def Let_def split: prod.splits sum.splits if_splits)

lemma k8s_announces_Action: "k8s_announces s m \<Longrightarrow> msg_Action m = AddAction"
proof -
  assume "k8s_announces s m"
  then have "msg_Action (m\<lparr>msg_Service := (msg_Service m)\<lparr>svc_Targets := None\<rparr>\<rparr>) = AddAction"
    by (simp add: k8s_announces_def service_message_def)
  then show ?thesis by simp
qed

lemma k8s_poll_services_announce:
  "list_all2 k8s_announces (filter (\<lambda>s. ks_Type s = ''NodePort'') ss) (fst (k8s_poll_services c ss w))"
proof (induction ss arbitrary: w)
  case (Cons s ss)
  obtain m err w1 where b: "k8s_buildMessage c s w = ((m, err), w1)" by (metis prod.exhaust)
  show ?case using Cons [of w] Cons [of w1] b k8s_buildMessage_announces(1) [OF b] by (auto split: prod.split)
qed simp

lemma k8s_refresh_answer:
  "\<exists>m w'. k8s_RefreshService c q w = ([m], w') \<and>
    (msg_Action m = AddAction \<or> m = BuildDeleteMessage (svc_Name (msg_Service q)))"
proof (cases "k8s_getServiceByName c (svc_Name (msg_Service q)) w")
  case (Pair so w1)
  show ?thesis
  proof (cases so)
    case None
    then show ?thesis using Pair by (simp add: k8s_RefreshService_def Let_def)
  next
    case (Some s)
    obtain m err w2 where b: "k8s_buildMessage c s w1 = ((m, err), w2)" by (metis prod.exhaust)
    then show ?thesis using Pair Some k8s_announces_Action [OF k8s_buildMessage_announces(1) [OF b]]
      by (cases err) (simp_all add: k8s_RefreshService_def Let_def)
  qed
qed

interpretation k8s: service_provider "\<lambda>s. True" "k8s_step c p" for c p
proof (unfold_locales, goal_cases)
  case (1 w out w')
  have "\<forall>m\<in>set (fst (k8s_poll_services c ss v)). msg_Action m = AddAction" for ss v
    using k8s_poll_services_announce [of ss c v] by (induction rule: list_all2_induct) (auto intro: k8s_announces_Action)
  then show ?case using 1(2)
    by (auto simp: k8s_step_def k8s_poll_def split: prod.splits sum.splits) (metis fst_conv)
next
  case (2 w q out w')
  then show ?case using k8s_refresh_answer [of c q w] by (auto simp: k8s_step_def)
qed (simp add: k8s_step_def)

section \<open>Ports\<close>

definition asked_port :: "k8s_Service \<Rightarrow> k8s_ServicePort \<Rightarrow> bool" where
  "asked_port s port \<longleftrightarrow> Itoa (sint (kp_Port port)) = label_of (ks_Labels s) portLabel"

lemma node_port_cases:
  "(\<exists>port\<in>set (ks_Ports s). asked_port s port \<and> node_port s = kp_NodePort port) \<or>
   (\<forall>port\<in>set (ks_Ports s). \<not> asked_port s port) \<and> node_port s = 0"
proof -
  have "(\<exists>port\<in>set ports. asked_port s port \<and>
        foldl (\<lambda>a port. if asked_port s port then kp_NodePort port else a) a ports = kp_NodePort port) \<or>
      (\<forall>port\<in>set ports. \<not> asked_port s port) \<and>
        foldl (\<lambda>a port. if asked_port s port then kp_NodePort port else a) a ports = a" for a ports
  proof (induction ports arbitrary: a)
    case (Cons port ports)
    show ?case using Cons [of a] Cons [of "kp_NodePort port"] by (cases "asked_port s port") auto
  qed simp
  then show ?thesis unfolding node_port_def asked_port_def by blast
qed

text \<open>A signed 32-bit integer that is not negative is the same number unsigned.\<close>

lemma uint_of_nonneg: "0 \<le> sint (x :: 32 word) \<Longrightarrow> uint x = sint x"
  using uint_sint [of x] sint_lt [of x] by (simp add: take_bit_int_eq_self)


section \<open>Properties\<close>

text \<open>A cluster with one service of type \<open>NodePort\<close> and the pods given.\<close>

definition demo_node_service :: k8s_Service where
  "demo_node_service = \<lparr>ks_Name = ''web'', ks_Labels = [hostsLabel \<mapsto> ''web.test'', portLabel \<mapsto> ''80''],
     ks_Type = ''NodePort'', ks_Ports = [\<lparr>kp_Port = 80, kp_NodePort = 30080\<rparr>], ks_Selector = [(''app'', ''web'')]\<rparr>"

definition demo_k8s :: "k8s_Pod list \<Rightarrow> unit k8sCli" where
  "demo_k8s pods = \<lparr>k8_ListServices = \<lambda>l w. (Inr [demo_node_service], w), k8_GetService = \<lambda>n w. (Inl ''refused'', w),
     k8_ListPods = \<lambda>l w. (Inr pods, w), k8_ServerVersion = \<lambda>w. (None, w)\<rparr>"

definition demo_extension :: k8s_Extension where
  "demo_extension = \<lparr>ke_Name = ''kubernetes'', ke_Endpoint = ''https://k8s'', ke_LabelSelector = None, ke_TLSCa = '''',
     ke_TLSCert = '''', ke_TLSKey = '''', ke_PollInterval = 5000000000,
     ke_listOptions = hostsLabel @ '','' @ portLabel\<rparr>"

text \<open>
  What a poll sends: one message for every service of type \<open>NodePort\<close> in the listing, in its
  order, and none for the others. It is an add message of this provider with the service's name, host
  names and TLS flag, without an error text; its targets are at the service's node port. A service
  whose message could not be built, because its pods are not listed or there is none, is announced
  all the same, without targets.
\<close>

theorem k8s_poll_announces:
  assumes "k8_ListServices c (ke_listOptions p) w = (Inr items, w1)"
  shows "\<exists>out w'. k8s_step c p Tick w = (out, w') \<and>
    list_all2 k8s_announces (filter (\<lambda>s. ks_Type s = ''NodePort'') items) out"
  using assms k8s_poll_services_announce [of items c w1]
  by (cases "k8s_poll_services c items w1") (simp add: k8s_step_def k8s_poll_def)

theorem k8s_poll_announces_witness:
  "\<exists>m w'. k8s_step (demo_k8s []) demo_extension Tick () = ([m], w') \<and> k8s_announces demo_node_service m"
proof -
  have "k8_ListServices (demo_k8s []) (ke_listOptions demo_extension) () = (Inr [demo_node_service], ())"
    by (simp add: demo_k8s_def)
  from k8s_poll_announces [OF this] show ?thesis by (auto simp: demo_node_service_def list_all2_Cons1)
qed

text \<open>
  C30. The ports announced: with node ports that are not negative, as the cluster assigns them, every
  target of a service is at the number of a node port of one of its ports, below \<open>2 ^ 31\<close>, whose own
  number is the label's; the conversion from signed to unsigned changes nothing. When no port has
  that number, every target is at port 0.
\<close>

theorem k8s_port_bounds:
  assumes "k8s_buildMessage c s w = ((m, err), w')" and "\<forall>port\<in>set (ks_Ports s). 0 \<le> sint (kp_NodePort port)"
    and "t \<in> set (elems (svc_Targets (msg_Service m)))"
  shows "uint (tgt_Port t) < 2 ^ 31 \<and>
    (if \<exists>port\<in>set (ks_Ports s). asked_port s port
     then \<exists>port\<in>set (ks_Ports s). asked_port s port \<and> uint (tgt_Port t) = sint (kp_NodePort port)
     else tgt_Port t = 0)"
proof -
  have t: "tgt_Port t = node_port s"
    using k8s_buildMessage_announces(1) [OF assms(1)] assms(3) by (simp add: k8s_announces_def)
  from node_port_cases [of s] show ?thesis
  proof (elim disjE bexE conjE)
    fix port
    assume "port \<in> set (ks_Ports s)" and p: "asked_port s port" "node_port s = kp_NodePort port"
    then have "uint (tgt_Port t) = sint (kp_NodePort port)" using assms(2) t uint_of_nonneg by simp
    then show ?thesis using p \<open>port \<in> _\<close> sint_lt [of "kp_NodePort port"] by auto
  next
    assume "\<forall>port\<in>set (ks_Ports s). \<not> asked_port s port" and "node_port s = 0"
    then show ?thesis using t by simp
  qed
qed

theorem k8s_port_bounds_witness:
  "\<exists>m t. k8s_buildMessage (demo_k8s [\<lparr>pod_HostIP = ''10.1.1.1''\<rparr>]) demo_node_service () = ((m, None), ()) \<and>
     t \<in> set (elems (svc_Targets (msg_Service m))) \<and> uint (tgt_Port t) < 2 ^ 31"
proof -
  obtain m where b: "k8s_buildMessage (demo_k8s [\<lparr>pod_HostIP = ''10.1.1.1''\<rparr>]) demo_node_service () = ((m, None), ())"
    and t: "\<lparr>tgt_Host = ''10.1.1.1'', tgt_Port = node_port demo_node_service, tgt_Weight = 0\<rparr>
      \<in> set (elems (svc_Targets (msg_Service m)))"
    by (simp add: k8s_buildMessage_def demo_k8s_def Let_def) (simp add: demo_node_service_def)
  have "\<forall>port\<in>set (ks_Ports demo_node_service). 0 \<le> sint (kp_NodePort port)"
    by (simp add: demo_node_service_def)
  from k8s_port_bounds [OF b this t] b t show ?thesis by blast
qed

text \<open>
  A \<open>Get\<close> by name that names no namespace is refused by the client (\<open>an empty namespace may not be set
  when a resource name is provided\<close>); then every refresh request withdraws its service.
\<close>

lemma k8s_refresh_withdraws:
  assumes "\<forall>n w. \<exists>err w'. k8_GetService c n w = (Inl err, w')" and "msg_Action q = RefreshAction"
  shows "\<exists>w'. k8s_step c p (Request q) w = ([BuildDeleteMessage (svc_Name (msg_Service q))], w')"
proof -
  obtain err w' where "k8_GetService c (svc_Name (msg_Service q)) w = (Inl err, w')" using assms(1) by blast
  then show ?thesis using assms(2) by (simp add: k8s_step_def k8s_RefreshService_def k8s_getServiceByName_def Let_def)
qed

end
