(* ===== verification/Provider_Core.thy ===== *)
theory Provider_Core
  imports Server Swarm_Props Kubernetes_Props
begin

text \<open>
  The providers with the core: what the core does with the messages the providers of
  \<open>src/provider/swarm\<close> and \<open>src/provider/kubernetes\<close> send, from the refresh request of
  \<open>src/core/server.go\<close> over the listener to the handlers of \<open>src/core/transition.go\<close>.
\<close>

section \<open>Messages without targets at the listener\<close>

text \<open>The message as the listener hands it on: tagged, and with the weights of its targets set.\<close>

definition listened :: "string list \<Rightarrow> string \<Rightarrow> Message \<Rightarrow> Message" where
  "listened order sender m = SetTargetWeight order (m\<lparr>msg_Sender := sender\<rparr>)"

lemma listened_frame [simp]:
  "msg_Sender (listened order p m) = p" "msg_Action (listened order p m) = msg_Action m"
  "msg_Error (listened order p m) = msg_Error m"
  "svc_Name (msg_Service (listened order p m)) = svc_Name (msg_Service m)"
  "svc_DNSAliases (msg_Service (listened order p m)) = svc_DNSAliases (msg_Service m)"
  "svc_TLS (msg_Service (listened order p m)) = svc_TLS (msg_Service m)"
  by (simp_all add: listened_def SetTargetWeight_def Let_def)

lemma listened_no_targets:
  assumes "svc_Targets (msg_Service m) = None"
  shows "target_orders (m\<lparr>msg_Sender := p\<rparr>) order \<longleftrightarrow> order = []"
    and "svc_Targets (msg_Service (listened [] p m)) = None"
  using assms by (auto simp: target_orders_def map_order_def weight_map_def listened_def SetTargetWeight_def Let_def)

text \<open>The step after a provider is a provisioner or the end.\<close>

lemma next_from_provider:
  assumes "wf_config cfg" and "p \<in> set (chain cfg)" and "is_provider p" and "next_name cfg p False = Some s"
  shows "s \<noteq> undeployedState"
proof -
  obtain xs where r: "visited cfg = xs @ route_after cfg p" "xs \<noteq> []" "route_after cfg p \<noteq> []"
    "next_name cfg p False = Some (hd (route_after cfg p))"
    using route_after_split [OF assms(1-3)] by blast
  then obtain rest where "visited cfg = xs @ s # rest" using assms(4) by (metis list.collapse option.inject)
  then show ?thesis using visited_inner(1) [OF assms(1)] r(2) by blast
qed

section \<open>Properties\<close>

text \<open>
  C31. A deployed service is withdrawn when the provider that is asked does not know it, whichever
  provider announced it. The refresh request goes to the first provider in the iteration order of
  the extensions, here the Swarm provider; when its cluster lists no service of that name, it answers
  with the delete message, and the listener's message makes the core undeploy the service: the
  entry turns to \<open>undeployed\<close> and one delete request goes to the last provisioner. The entry keeps no
  trace of the provider that the service came from.
\<close>

theorem unknown_service_withdrawn:
  assumes "wf_config cfg" and "''provider.swarm'' \<in> set (chain cfg)"
    and "srv_extensions srv ''provider.swarm'' = Some ProviderExtension"
    and "srv_channels srv ''provider.swarm'' = Some ch"
    and "we_State e = deployedState" and "\<not> we_WorkInProgress e"
    and "next_name cfg deployedState True = Some st" and "st \<noteq> undeployedState"
    and "undone fl (sw_serviceFilters p)"
    and "dk_ServiceList c (flt_Add fl ''name'' (svc_Name (we_Service e)) (sw_serviceFilters p)) w = (Inr [], w1)"
  shows "\<exists>q m e' d.
    srv_channels (fst (refreshService (''provider.swarm'' # others) (svc_Name (we_Service e)) srv)) ''provider.swarm'' =
      Some (ch @ [q]) \<and>
    swarm_step fl c (Request q) (p, w) = ([m], p, w1) \<and>
    deliver (initWorkflow cfg) now (listened [] ''provider.swarm'' m) e = Some (Inr (e', [d])) \<and>
    we_ExpectedState e' = undeployedState \<and> we_State e' = st \<and> we_WorkInProgress e' \<and>
    msg_Action d = DeleteAction \<and> msg_Destination d = st \<and> msg_Service d = we_Service e'"
proof -
  let ?n = "svc_Name (we_Service e)" and ?q = "refresh_msg (svc_Name (we_Service e))"
  let ?m = "BuildDeleteMessage (svc_Name (we_Service e))"
  have q: "msg_Action ?q = RefreshAction" "svc_Name (msg_Service ?q) = ?n" by (simp_all add: refresh_msg_def)
  have ch: "srv_channels (fst (refreshService (''provider.swarm'' # others) ?n srv)) ''provider.swarm'' = Some (ch @ [?q])"
    using assms(3,4) by (simp add: sendMessageToExtension_def)
  have "swarm_getServiceByName fl c ?n p w = (None, p, w1)"
    using assms(9,10) by (simp add: swarm_getServiceByName_def undone_def)
  then have st: "swarm_step fl c (Request ?q) (p, w) = ([?m], p, w1)"
    using q by (simp add: swarm_step_def swarm_RefreshService_def Let_def)
  let ?l = "listened [] ''provider.swarm'' ?m"
  have sd: "st \<noteq> deployedState"
    using next_name_down [OF assms(1), of deployedState] assms(7) by auto
  have d: "deliver (initWorkflow cfg) now ?l e = enter now '''' (advance st (setTargetState undeployedState
      (merge_into (initWorkflow cfg) ?l e)))"
    using deliver_delete [OF assms(1), of ?l e st now] assms(2,5-7) by (simp add: is_provider_def HasPrefix_def)
  show ?thesis
    using ch st d assms(8) sd
    by (intro exI [of _ ?q] exI [of _ ?m]) (simp add: enter_def returns_def isReverse_def setTargetState_def request_msg_def)
qed


definition withdraw_conf :: core_config where
  "withdraw_conf = \<lparr>cc_WorkflowSteps = doc_config, cc_ServiceWIPTimeout = 90, cc_ServiceMaxLastUpdated = 90,
     cc_CleanUndeployedServiceAfter = 600\<rparr>"

theorem unknown_service_withdrawn_witness:
  "\<exists>q m e' d.
    srv_channels (fst (refreshService [''provider.swarm''] ''web'' ((initServer withdraw_conf)
      \<lparr>srv_extensions := [''provider.swarm'' \<mapsto> ProviderExtension], srv_channels := [''provider.swarm'' \<mapsto> []]\<rparr>)))
      ''provider.swarm'' = Some [q] \<and>
    swarm_step demo_filters (demo_cluster\<lparr>dk_ServiceList := \<lambda>f w. (Inr [], w)\<rparr>) (Request q) (demo_swarm, ()) =
      ([m], demo_swarm, ()) \<and>
    deliver (initWorkflow doc_config) 9 (listened [] ''provider.swarm'' m)
      (zero_entry\<lparr>we_State := deployedState, we_ExpectedState := deployedState,
        we_Service := zero_Service\<lparr>svc_Name := ''web''\<rparr>\<rparr>) = Some (Inr (e', [d])) \<and>
    msg_Destination d = ''lb.f5ltm''"
proof -
  let ?srv = "(initServer withdraw_conf)\<lparr>srv_extensions := [''provider.swarm'' \<mapsto> ProviderExtension],
    srv_channels := [''provider.swarm'' \<mapsto> []]\<rparr>"
  let ?e = "zero_entry\<lparr>we_State := deployedState, we_ExpectedState := deployedState,
    we_Service := zero_Service\<lparr>svc_Name := ''web''\<rparr>\<rparr>"
  let ?c = "demo_cluster\<lparr>dk_ServiceList := \<lambda>f w. (Inr [], w)\<rparr>"
  have n: "svc_Name (we_Service ?e) = ''web''" by simp
  have srv: "srv_extensions ?srv ''provider.swarm'' = Some ProviderExtension"
    "srv_channels ?srv ''provider.swarm'' = Some []" by simp_all
  have e: "we_State ?e = deployedState" "\<not> we_WorkInProgress ?e" by (simp_all add: zero_entry_def)
  have nx: "next_name doc_config deployedState True = Some ''lb.f5ltm''"
    using nav.next_backward [OF doc_config_wf, of "[''undeployed'', ''ipam.ipalloc'']" "''lb.f5ltm''" deployedState "[]"]
    by (simp add: doc_config_visited deployedState_def)
  have u: "''lb.f5ltm'' \<noteq> undeployedState" by (simp add: undeployedState_def)
  have l: "dk_ServiceList ?c f () = (Inr [], ())" for f by simp
  from unknown_service_withdrawn [OF doc_config_wf doc_provider(1) srv e nx u demo_filters_undone, of ?c demo_swarm "()" "()"
      "[]" 9, unfolded n] l show ?thesis
    by auto
qed

text \<open>
  A Kubernetes service whose pods are gone is deployed with no targets. A poll announces a service
  of type \<open>NodePort\<close> that has a selector but no pod; the core, whatever the entry's state, gives the
  entry the empty list of targets and sends the add request for it to the first provisioner.
\<close>

theorem empty_service_deployed:
  assumes "wf_config cfg" and "''provider.kubernetes'' \<in> set (chain cfg)"
    and "next_name cfg ''provider.kubernetes'' False = Some st" and "st \<noteq> deployedState"
    and "k8_ListServices c (ke_listOptions p) w = (Inr [s], w1)" and "ks_Type s = ''NodePort''"
    and "ks_Selector s \<noteq> []" and "\<forall>l w. fst (k8_ListPods c l w) = Inr []"
  shows "\<exists>m w' e' d. k8s_step c p Tick w = ([m], w') \<and>
    deliver (initWorkflow cfg) now (listened [] ''provider.kubernetes'' m) e = Some (Inr (e', [d])) \<and>
    we_State e' = st \<and> we_ExpectedState e' = deployedState \<and> we_WorkInProgress e' \<and> we_Error e' = '''' \<and>
    svc_Targets (we_Service e') = None \<and> svc_Name (we_Service e') = ks_Name s \<and>
    msg_Action d = AddAction \<and> msg_Destination d = st \<and> msg_Service d = we_Service e'"
proof -
  let ?m = "service_message k8s_extensionName (ks_Name s) (ks_Labels s)"
  let ?l = "listened [] ''provider.kubernetes'' ?m"
  obtain w2 where "k8_ListPods c (Join '','' (map (\<lambda>(k, v). k @ ''='' @ v) (ks_Selector s))) w1 = (Inr [], w2)"
    using assms(8) by (metis prod.collapse)
  then have "\<exists>err w'. k8s_buildMessage c s w1 = ((?m, Some err), w')"
    using assms(7) by (simp add: k8s_buildMessage_def)
  then have step: "\<exists>w'. k8s_step c p Tick w = ([?m], w')"
    using assms(5,6) by (auto simp: k8s_step_def k8s_poll_def)
  have m: "msg_Action ?m = AddAction" "msg_Error ?m = ''''" "svc_Targets (msg_Service ?m) = None"
      "svc_Name (msg_Service ?m) = ks_Name s"
    by (simp_all add: service_message_def zero_Message_def zero_Service_def)
  have pr: "is_provider ''provider.kubernetes''" by (simp add: is_provider_def HasPrefix_def)
  have d: "deliver (initWorkflow cfg) now ?l e = enter now '''' (advance st (setState ?l False
      (setTargetState deployedState (setLastUpdate now (merge_into (initWorkflow cfg) ?l e)))))"
    using deliver_add [OF assms(1), of ?l st now e] assms(2,3) pr m by simp
  have su: "st \<noteq> undeployedState" by (rule next_from_provider [OF assms(1,2) pr assms(3)])
  have "svc_Targets (we_Service (updateService ?l e)) = None" "svc_Name (we_Service (updateService ?l e)) = ks_Name s"
    using listened_no_targets(2) [OF m(3)] m(1,4) by (simp_all add: updateService_def HasPrefix_def)
  then show ?thesis
    using step d su assms(4)
    by (intro exI [of _ ?m])
      (auto simp: enter_def returns_def isReverse_def setTargetState_def setState_def setLastUpdate_def merge_into_def
        setTransition_def request_msg_def)
qed


definition k8s_config :: string where
  "k8s_config = ''provider.kubernetes,ipam.ipalloc,lb.f5ltm''"

lemma k8s_config_chain:
  "chain k8s_config = [''undeployed'', ''provider.kubernetes'', ''ipam.ipalloc'', ''lb.f5ltm'', ''deployed'']"
  by (simp add: chain_def k8s_config_def deployedState_def undeployedState_def)

lemma k8s_config_facts:
  "wf_config k8s_config" "''provider.kubernetes'' \<in> set (chain k8s_config)"
  "visited k8s_config = [''undeployed'', ''ipam.ipalloc'', ''lb.f5ltm'', ''deployed'']"
  "next_name k8s_config ''provider.kubernetes'' False = Some ''ipam.ipalloc''"
proof -
  show wf: "wf_config k8s_config" and p: "''provider.kubernetes'' \<in> set (chain k8s_config)"
    and "visited k8s_config = [''undeployed'', ''ipam.ipalloc'', ''lb.f5ltm'', ''deployed'']"
    by (simp_all add: wf_config_def visited_def k8s_config_chain is_provider_def HasPrefix_def)
  have "route_after k8s_config ''provider.kubernetes'' = [''ipam.ipalloc'', ''lb.f5ltm'', ''deployed'']"
    by (simp add: route_after_def k8s_config_chain is_provider_def HasPrefix_def)
  then show "next_name k8s_config ''provider.kubernetes'' False = Some ''ipam.ipalloc''"
    using route_after_split [OF wf p] by (auto simp: is_provider_def HasPrefix_def)
qed

theorem empty_service_deployed_witness:
  "\<exists>m w' e' d. k8s_step (demo_k8s []) demo_extension Tick () = ([m], w') \<and>
    deliver (initWorkflow k8s_config) 9 (listened [] ''provider.kubernetes'' m) zero_entry = Some (Inr (e', [d])) \<and>
    svc_Targets (we_Service e') = None \<and> msg_Destination d = ''ipam.ipalloc''"
proof -
  have "''ipam.ipalloc'' \<noteq> deployedState" by (simp add: deployedState_def)
  moreover have "k8_ListServices (demo_k8s []) (ke_listOptions demo_extension) () = (Inr [demo_node_service], ())"
    "\<forall>l w. fst (k8_ListPods (demo_k8s []) l w) = Inr []"
    by (simp_all add: demo_k8s_def)
  moreover have "ks_Type demo_node_service = ''NodePort''" "ks_Selector demo_node_service \<noteq> []"
    by (simp_all add: demo_node_service_def)
  ultimately show ?thesis
    using empty_service_deployed [OF k8s_config_facts(1,2,4), of "demo_k8s []" demo_extension "()" demo_node_service "()" 9 zero_entry]
    by blast
qed

end
