(* ===== verification/Ext_Start.thy ===== *)
theory Ext_Start
  imports Deployment Provider_Core
begin

text \<open>
  The \<open>Start\<close> and \<open>Stop\<close> methods of the extensions (the interface \<open>Extension\<close> of
  \<open>src/core/extension.go\<close>): an initialisation, then a loop around a \<open>select\<close> that handles a message or a
  tick, or ends because \<open>Stop\<close> has written to the channel \<open>shutdown\<close>.
\<close>

section \<open>The loop\<close>

text \<open>
  Where a call of \<open>Start\<close> stands after some events: in its loop, returned (with an error or nil), or at
  a wait group that is never done.
\<close>

datatype start_end = Running | Ended "string option" | Hanging

text \<open>An event is \<^term>\<open>None\<close> for the shutdown; \<^term>\<open>None\<close> as the result is a panic or a handler that does not return.\<close>

fun select_loop :: "('e \<Rightarrow> 's \<Rightarrow> (Message list \<times> 's) option) \<Rightarrow> ('s \<Rightarrow> start_end) \<Rightarrow> 'e option list \<Rightarrow> 's \<Rightarrow>
    (Message list \<times> 's \<times> start_end) option" where
  "select_loop handle stop [] s = Some ([], s, Running)"
| "select_loop handle stop (None # es) s = Some ([], s, stop s)"
| "select_loop handle stop (Some e # es) s = do {
     (out, s) \<leftarrow> handle e s;
     (outs, s, r) \<leftarrow> select_loop handle stop es s;
     Some (out @ outs, s, r)
   }"

section \<open>The extensions\<close>




text \<open>The F5 provisioner waits for its wait group, whose count is a part of its state.\<close>

definition f5_Start :: "(string \<Rightarrow> string \<Rightarrow> string \<Rightarrow> string \<Rightarrow> string + 'w f5Cli) \<Rightarrow> 'w f5Cli option \<Rightarrow> BigIP \<Rightarrow>
    Message option list \<Rightarrow> 'w \<Rightarrow> (Message list \<times> (nat \<times> 'w) \<times> start_end) option" where
  "f5_Start NewTokenSession cli f5 events w =
     (case f5_initialize NewTokenSession cli f5 of
        Inl err \<Rightarrow> Some ([], (0, w), Ended (Some err))
      | Inr (f5, c) \<Rightarrow>
          select_loop (f5_receive f5 c) (\<lambda>(wg, w). if wg = 0 then Ended None else Hanging) events (0, w))"



text \<open>
  \<open>Stop\<close> writes to the unbuffered channel \<open>shutdown\<close>, where it meets \<open>Start\<close> only if that is in its loop
  (after the events \<open>es\<close>); otherwise it blocks. The result has the end of \<open>Stop\<close> and where \<open>Start\<close> is
  then. A provider's \<open>Stop\<close> also waits for the wait group that \<open>Start\<close> raises before its loop and lowers
  as it returns.
\<close>

definition send_shutdown :: "('e option list \<Rightarrow> 'r \<Rightarrow> (Message list \<times> 's \<times> start_end) option) \<Rightarrow> 'e list \<Rightarrow> 'r \<Rightarrow>
    start_end \<times> (Message list \<times> 's \<times> start_end) option" where
  "send_shutdown start es w =
     (case start (map Some es) w of
        Some (out, s, Running) \<Rightarrow> (Ended None, start (map Some es @ [None]) w)
      | r \<Rightarrow> (Hanging, r))"





definition f5_Stop :: "(string \<Rightarrow> string \<Rightarrow> string \<Rightarrow> string \<Rightarrow> string + 'w f5Cli) \<Rightarrow> 'w f5Cli option \<Rightarrow> BigIP \<Rightarrow>
    Message list \<Rightarrow> 'w \<Rightarrow> start_end \<times> (Message list \<times> (nat \<times> 'w) \<times> start_end) option" where
  "f5_Stop NewTokenSession cli f5 = send_shutdown (f5_Start NewTokenSession cli f5)"



section \<open>The contract of Stop\<close>

text \<open>
  What \<open>src/docs/docs/extension.md\<close> asks for: a call of \<open>Stop\<close> ends \<open>Start\<close>. If \<open>Start\<close> is in its loop after
  some events, it returns nil at the shutdown, with the messages sent and the state as they are.
\<close>

definition stopped :: "(Message list \<times> 's \<times> start_end) option \<Rightarrow> (Message list \<times> 's \<times> start_end) option" where
  "stopped r = map_option (\<lambda>(out, s, e). (out, s, if e = Running then Ended None else e)) r"

lemma stopped_simps [simp]:
  "stopped None = None" "stopped (Some (out, s, Running)) = Some (out, s, Ended None)"
  "stopped (Some (out, s, Ended err)) = Some (out, s, Ended err)"
  by (simp_all add: stopped_def)




lemma select_loop_shutdown:
  "select_loop handle stop (map Some es @ None # rest) s =
     map_option (\<lambda>(out, s, r). (out, s, stop s)) (select_loop handle stop (map Some es) s)"
proof (induction es arbitrary: s)
  case (Cons e es)
  show ?case
  proof (cases "handle e s")
    case (Some r)
    then obtain out s1 where r: "handle e s = Some (out, s1)" by (cases r) auto
    show ?thesis
      using r Cons.IH [of s1] by (cases "select_loop handle stop (map Some es) s1") (auto split: prod.splits)
  qed simp
qed simp







section \<open>Properties\<close>


text \<open>The F5 provisioner: what its loop sends and counts.\<close>

definition handled_action :: "Message \<Rightarrow> bool" where
  "handled_action m \<longleftrightarrow> msg_Action m \<in> {AddAction, UpdateAction, DeleteAction}"

lemma f5_loop:
  assumes "lists_answered c"
  shows "\<exists>out w'. select_loop (f5_receive f5 c) stop (map Some ms) (wg, w) =
      Some (out, (wg + length (filter (\<lambda>m. \<not> handled_action m) ms), w'), Running) \<and>
    length out = length (filter handled_action ms)"
proof (induction ms arbitrary: wg w)
  case (Cons m ms)
  show ?case
  proof (cases "handled_action m")
    case True
    then obtain r w1 where "f5_receive f5 c m (wg, w) = Some ([r], wg, w1)"
      using f5_receive_request [OF assms, of m f5 wg w] by (auto simp: handled_action_def)
    then show ?thesis using Cons.IH [of wg w1] True by auto
  next
    case False
    then have "f5_receive f5 c m (wg, w) = Some ([], wg + 1, snd (cli_RefreshTokenSession c 600000000000 w))"
      by (auto simp: handled_action_def f5_receive_def)
    then show ?thesis using Cons.IH [of "wg + 1" "snd (cli_RefreshTokenSession c 600000000000 w)"] False by auto
  qed
qed simp

text \<open>
  C39. The F5 provisioner stops only if it has been asked for nothing else than additions, updates and
  deletions. Each of these is answered once; each other message is not answered and leaves its wait
  group one higher, and at the shutdown \<open>Start\<close> returns nil exactly if there was none; otherwise it
  waits for ever, and \<open>Stop\<close> returns nil all the same, against the interface.
\<close>

theorem f5_stop_may_hang:
  assumes "f5_initialize NewTokenSession cli f5 = Inr (f5', c)" and "lists_answered c"
  shows "\<exists>out s. f5_Start NewTokenSession cli f5 (map Some ms @ None # later) w =
      Some (out, s, if \<forall>m\<in>set ms. handled_action m then Ended None else Hanging) \<and>
    f5_Stop NewTokenSession cli f5 ms w =
      (Ended None, Some (out, s, if \<forall>m\<in>set ms. handled_action m then Ended None else Hanging)) \<and>
    length out = length (filter handled_action ms) \<and> fst s = length (filter (\<lambda>m. \<not> handled_action m) ms)"
proof -
  let ?fin = "\<lambda>(wg, w). if wg = 0 then Ended None else Hanging"
  have none: "length (filter (\<lambda>m. \<not> handled_action m) ms) = 0 \<longleftrightarrow> (\<forall>m\<in>set ms. handled_action m)"
    by (simp add: filter_empty_conv)
  have stop: "f5_Start NewTokenSession cli f5 (map Some ms @ None # es) w =
      map_option (\<lambda>(out, s, r). (out, s, ?fin s)) (f5_Start NewTokenSession cli f5 (map Some ms) w)" for es
    using assms(1) by (simp add: f5_Start_def select_loop_shutdown)
  obtain out s where run: "f5_Start NewTokenSession cli f5 (map Some ms) w = Some (out, s, Running)"
    "length out = length (filter handled_action ms)" "fst s = length (filter (\<lambda>m. \<not> handled_action m) ms)"
    using f5_loop [OF assms(2), of f5' ?fin ms 0 w] assms(1) by (auto simp: f5_Start_def)
  have "?fin s = (if \<forall>m\<in>set ms. handled_action m then Ended None else Hanging)"
    using run(3) none by (cases s) auto
  with run show ?thesis by (auto simp: f5_Stop_def send_shutdown_def stop)
qed

theorem f5_stop_may_hang_witness:
  "\<exists>out s. f5_Start (\<lambda>a b c d. Inl ''no session'') (Some demo_device) demo_f5
      (map Some [demo_add, demo_add\<lparr>msg_Action := RefreshAction\<rparr>] @ [None]) () = Some (out, s, Hanging) \<and> length out = 1"
proof -
  have i: "f5_initialize (\<lambda>a b c d. Inl ''no session'') (Some demo_device) demo_f5 = Inr (demo_f5, demo_device)"
    by (simp add: f5_initialize_def demo_f5_def)
  have h: "handled_action demo_add" "\<not> handled_action (demo_add\<lparr>msg_Action := RefreshAction\<rparr>)"
    by (simp_all add: handled_action_def)
  from f5_stop_may_hang [OF i demo_device_answers, of "[demo_add, demo_add\<lparr>msg_Action := RefreshAction\<rparr>]" "[]" "()"]
  show ?thesis using h by auto
qed

end
