(* ===== verification/Startup.thy ===== *)
theory Startup
  imports Lifecycle System_Props
begin

text \<open>
  How the process comes up: \<open>ReadConfig\<close> of \<open>src/config/config.go\<close>, \<open>initServer\<close> and the first step of
  \<open>run\<close> in \<open>src/core/server.go\<close>.
\<close>

section \<open>Configuration\<close>

text \<open>
  The core's section with the interval of the housekeeper, and the sections of the extensions that the
  file has; an extension whose section is missing is a nil pointer in the configuration.
\<close>

record server_config = core_config +
  sc_WorkflowHousekeeperInterval :: int
  sc_sections :: "(string \<times> string) list"

text \<open>Reading the file and \<open>yaml.Unmarshal\<close> are arguments.\<close>

definition ReadConfig :: "(string \<Rightarrow> string + 'b) \<Rightarrow> ('b \<Rightarrow> string + server_config) \<Rightarrow> string \<Rightarrow> string + server_config" where
  "ReadConfig ReadFile Unmarshal filename =
     (case ReadFile filename of
        Inl err \<Rightarrow> Inl err
      | Inr file \<Rightarrow> (case Unmarshal file of Inl err \<Rightarrow> Inl err | Inr cfg \<Rightarrow> Inr cfg))"

section \<open>Start\<close>






section \<open>Properties\<close>


definition demo_server_config :: server_config where
  "demo_server_config = core_config.extend demo_conf \<lparr>sc_WorkflowHousekeeperInterval = 60000000000,
     sc_sections = [(''Provider'', ''Swarm''), (''IPAM'', ''IPAlloc''), (''LB'', ''F5LTM'')]\<rparr>"

lemma demo_server_config_simps [simp]:
  "cc_WorkflowSteps demo_server_config = doc_config" "sc_WorkflowHousekeeperInterval demo_server_config = 60000000000"
  "sc_sections demo_server_config = [(''Provider'', ''Swarm''), (''IPAM'', ''IPAlloc''), (''LB'', ''F5LTM'')]"
  by (simp_all add: demo_server_config_def core_config.extend_def demo_conf_def)



end
