(* ===== verification/Logging.thy ===== *)
theory Logging
  imports Go_Prelude
begin

text \<open>
  \<open>src/log/logger.go\<close>: the log functions that the other packages call. Each finds out who called it and
  hands the message on to the library \<open>logrus\<close> with these fields. The library is an argument: a record
  of its functions on a state of its own.
\<close>

section \<open>The library\<close>

text \<open>A call of the library returns, ends the process (\<open>os.Exit\<close>), or the program panics before.\<close>

datatype 'l outcome = Returns 'l | Exits 'l | Panics

datatype field = StrField string | IntField int

type_synonym log_fields = "(string \<times> field) list"

datatype log_output = Stdout | LogFile string

record ('l, 'lv, 'a) logrus =
  ParseLevel :: "string \<Rightarrow> 'lv \<times> string option"
  SetFormatter :: "string \<Rightarrow> bool \<Rightarrow> 'l \<Rightarrow> 'l"
  SetLevel :: "'lv \<Rightarrow> 'l \<Rightarrow> 'l"
  SetOutput :: "log_output \<Rightarrow> 'l \<Rightarrow> 'l"
  std_Warnf :: "string \<Rightarrow> string list \<Rightarrow> 'l \<Rightarrow> 'l"
  std_Info :: "string list \<Rightarrow> 'l \<Rightarrow> 'l"
  ent_Debugln :: "log_fields \<Rightarrow> 'a list \<Rightarrow> 'l \<Rightarrow> 'l outcome"
  ent_Debugf :: "log_fields \<Rightarrow> string \<Rightarrow> 'a list \<Rightarrow> 'l \<Rightarrow> 'l outcome"
  ent_Infoln :: "log_fields \<Rightarrow> 'a list \<Rightarrow> 'l \<Rightarrow> 'l outcome"
  ent_Infof :: "log_fields \<Rightarrow> string \<Rightarrow> 'a list \<Rightarrow> 'l \<Rightarrow> 'l outcome"
  ent_Warnln :: "log_fields \<Rightarrow> 'a list \<Rightarrow> 'l \<Rightarrow> 'l outcome"
  ent_Warnf :: "log_fields \<Rightarrow> string \<Rightarrow> 'a list \<Rightarrow> 'l \<Rightarrow> 'l outcome"
  ent_Errorln :: "log_fields \<Rightarrow> 'a list \<Rightarrow> 'l \<Rightarrow> 'l outcome"
  ent_Errorf :: "log_fields \<Rightarrow> string \<Rightarrow> 'a list \<Rightarrow> 'l \<Rightarrow> 'l outcome"
  ent_Fatalln :: "log_fields \<Rightarrow> 'a list \<Rightarrow> 'l \<Rightarrow> 'l outcome"
  ent_Fatalf :: "log_fields \<Rightarrow> string \<Rightarrow> 'a list \<Rightarrow> 'l \<Rightarrow> 'l outcome"

section \<open>Initialisation\<close>

text \<open>
  \<open>OpenFile\<close> is the error of opening a file, if there is one. The error of \<open>ParseLevel\<close> is dropped and
  the level it comes with is set.
\<close>

definition log_Init :: "('l, 'lv, 'a) logrus \<Rightarrow> (string \<Rightarrow> string option) \<Rightarrow> string \<Rightarrow> string \<Rightarrow> 'l \<Rightarrow> 'l" where
  "log_Init lg OpenFile file level l =
     (let l = SetFormatter lg ''2006-01-02 15:04:05'' True l;
          logLevel = fst (ParseLevel lg level);
          l = SetLevel lg logLevel l
      in if ToLower file = ''stdout'' \<or> file = [] then std_Info lg [''logger initialized''] (SetOutput lg Stdout l)
         else (case OpenFile file of
             Some err \<Rightarrow>
               std_Info lg [''Logger initialized'']
                 (std_Warnf lg ''Could not access log file (%v), falling back to STDOUT'' [err] (SetOutput lg Stdout l))
           | None \<Rightarrow> std_Info lg [''logger initialized''] (SetOutput lg (LogFile file) l)))"

section \<open>The caller\<close>

text \<open>What the runtime tells about a frame of the stack: the function's name, its file and the line.\<close>

record frame =
  frm_Name :: string
  frm_File :: string
  frm_Line :: int

record callInfo =
  ci_packageName :: string
  ci_fileName :: string
  ci_funcName :: string
  ci_line :: int

text \<open>\<open>path.Split\<close> at the last slash.\<close>

definition path_Split :: "string \<Rightarrow> string \<times> string" where
  "path_Split path =
     (let i = nat (LastIndex CHR ''/'' path + 1) in (take i path, drop i path))"

text \<open>
  \<^term>\<open>None\<close> is a panic: an index out of range, for a name of one part or where the part before the
  last is empty.
\<close>

definition retrieveCallInfo :: "frame \<Rightarrow> callInfo option" where
  "retrieveCallInfo fr =
     (let fileName = snd (path_Split (frm_File fr));
          parts = Split CHR ''.'' (frm_Name fr);
          pl = length parts;
          funcName = parts ! (pl - 1)
      in if pl < 2 \<or> parts ! (pl - 2) = [] then None
         else if parts ! (pl - 2) ! 0 = CHR ''('' then
           Some \<lparr>ci_packageName = Join ''.'' (take (pl - 2) parts), ci_fileName = fileName,
             ci_funcName = parts ! (pl - 2) @ ''.'' @ funcName, ci_line = frm_Line fr\<rparr>
         else
           Some \<lparr>ci_packageName = Join ''.'' (take (pl - 1) parts), ci_fileName = fileName,
             ci_funcName = funcName, ci_line = frm_Line fr\<rparr>)"

section \<open>The log functions\<close>

definition call_fields :: "callInfo \<Rightarrow> log_fields" where
  "call_fields moreInfo =
     [(''filename'', StrField (ci_fileName moreInfo)), (''package'', StrField (ci_packageName moreInfo)),
      (''function'', StrField (ci_funcName moreInfo)), (''line'', IntField (ci_line moreInfo))]"

definition log_Debug :: "('l, 'lv, 'a) logrus \<Rightarrow> frame \<Rightarrow> 'a list \<Rightarrow> 'l \<Rightarrow> 'l outcome" where
  "log_Debug lg fr args l =
     (case retrieveCallInfo fr of None \<Rightarrow> Panics | Some moreInfo \<Rightarrow> ent_Debugln lg (call_fields moreInfo) args l)"

definition log_Debugf :: "('l, 'lv, 'a) logrus \<Rightarrow> frame \<Rightarrow> string \<Rightarrow> 'a list \<Rightarrow> 'l \<Rightarrow> 'l outcome" where
  "log_Debugf lg fr format args l =
     (case retrieveCallInfo fr of None \<Rightarrow> Panics | Some moreInfo \<Rightarrow> ent_Debugf lg (call_fields moreInfo) format args l)"

definition log_Info :: "('l, 'lv, 'a) logrus \<Rightarrow> frame \<Rightarrow> 'a list \<Rightarrow> 'l \<Rightarrow> 'l outcome" where
  "log_Info lg fr args l =
     (case retrieveCallInfo fr of None \<Rightarrow> Panics | Some moreInfo \<Rightarrow> ent_Infoln lg (call_fields moreInfo) args l)"

definition log_Infof :: "('l, 'lv, 'a) logrus \<Rightarrow> frame \<Rightarrow> string \<Rightarrow> 'a list \<Rightarrow> 'l \<Rightarrow> 'l outcome" where
  "log_Infof lg fr format args l =
     (case retrieveCallInfo fr of None \<Rightarrow> Panics | Some moreInfo \<Rightarrow> ent_Infof lg (call_fields moreInfo) format args l)"

definition log_Warn :: "('l, 'lv, 'a) logrus \<Rightarrow> frame \<Rightarrow> 'a list \<Rightarrow> 'l \<Rightarrow> 'l outcome" where
  "log_Warn lg fr args l =
     (case retrieveCallInfo fr of None \<Rightarrow> Panics | Some moreInfo \<Rightarrow> ent_Warnln lg (call_fields moreInfo) args l)"

definition log_Warnf :: "('l, 'lv, 'a) logrus \<Rightarrow> frame \<Rightarrow> string \<Rightarrow> 'a list \<Rightarrow> 'l \<Rightarrow> 'l outcome" where
  "log_Warnf lg fr format args l =
     (case retrieveCallInfo fr of None \<Rightarrow> Panics | Some moreInfo \<Rightarrow> ent_Warnf lg (call_fields moreInfo) format args l)"

definition log_Error :: "('l, 'lv, 'a) logrus \<Rightarrow> frame \<Rightarrow> 'a list \<Rightarrow> 'l \<Rightarrow> 'l outcome" where
  "log_Error lg fr args l =
     (case retrieveCallInfo fr of None \<Rightarrow> Panics | Some moreInfo \<Rightarrow> ent_Errorln lg (call_fields moreInfo) args l)"

definition log_Errorf :: "('l, 'lv, 'a) logrus \<Rightarrow> frame \<Rightarrow> string \<Rightarrow> 'a list \<Rightarrow> 'l \<Rightarrow> 'l outcome" where
  "log_Errorf lg fr format args l =
     (case retrieveCallInfo fr of None \<Rightarrow> Panics | Some moreInfo \<Rightarrow> ent_Errorf lg (call_fields moreInfo) format args l)"

definition log_Fatal :: "('l, 'lv, 'a) logrus \<Rightarrow> frame \<Rightarrow> 'a list \<Rightarrow> 'l \<Rightarrow> 'l outcome" where
  "log_Fatal lg fr args l =
     (case retrieveCallInfo fr of None \<Rightarrow> Panics | Some moreInfo \<Rightarrow> ent_Fatalln lg (call_fields moreInfo) args l)"

definition log_Fatalf :: "('l, 'lv, 'a) logrus \<Rightarrow> frame \<Rightarrow> string \<Rightarrow> 'a list \<Rightarrow> 'l \<Rightarrow> 'l outcome" where
  "log_Fatalf lg fr format args l =
     (case retrieveCallInfo fr of None \<Rightarrow> Panics | Some moreInfo \<Rightarrow> ent_Fatalf lg (call_fields moreInfo) format args l)"

lemmas log_defs =
  log_Debug_def log_Debugf_def log_Info_def log_Infof_def log_Warn_def log_Warnf_def log_Error_def log_Errorf_def
  log_Fatal_def log_Fatalf_def

section \<open>Splitting a name\<close>

lemma Join_append:
  "ps \<noteq> [] \<Longrightarrow> qs \<noteq> [] \<Longrightarrow> Join sep (ps @ qs) = Join sep ps @ sep @ Join sep qs"
proof (induction ps rule: induct_list012)
  case (2 p)
  then show ?case by (cases qs) auto
qed simp_all

lemma last_two_obtain:
  assumes "2 \<le> length xs"
  obtains ys y z where "xs = ys @ [y, z]"
proof (cases xs rule: rev_cases)
  case Nil
  with assms show ?thesis by simp
next
  case (snoc ws z)
  with assms obtain ys y where "ws = ys @ [y]" by (cases ws rule: rev_cases) auto
  with snoc that show ?thesis by simp
qed

text \<open>A function's name, put together again from its package and the name within it.\<close>

lemma call_info_name:
  assumes "retrieveCallInfo fr = Some ci" and "CHR ''('' \<noteq> hd (frm_Name fr)"
  shows "frm_Name fr = ci_packageName ci @ ''.'' @ ci_funcName ci"
proof -
  obtain parts where parts: "Split CHR ''.'' (frm_Name fr) = parts" by simp
  have whole: "Join ''.'' parts = frm_Name fr" using Join_Split [of "CHR ''.''" "frm_Name fr"] parts by simp
  have long: "2 \<le> length parts" "parts ! (length parts - 2) \<noteq> []"
    using assms(1) parts by (auto simp: retrieveCallInfo_def Let_def split: if_splits)
  from long(1) obtain ps p q where split: "parts = ps @ [p, q]" by (rule last_two_obtain)
  have len: "length parts = Suc (Suc (length ps))" by (simp add: split)
  have nonempty: "p \<noteq> []" using long(2) by (simp add: split nth_append)
  have name: "frm_Name fr = Join ''.'' (ps @ [p]) @ ''.'' @ q"
    using whole Join_append [of "ps @ [p]" "[q]" "''.''"] by (simp add: split)
  show ?thesis
  proof (cases "p ! 0 = CHR ''(''")
    case False
    then show ?thesis using assms(1) name parts nonempty
      by (auto simp: retrieveCallInfo_def Let_def split len nth_append)
  next
    case True
    have "ps \<noteq> []"
    proof
      assume "ps = []"
      with name nonempty have "hd (frm_Name fr) = p ! 0" by (simp add: hd_conv_nth nth_append)
      with True assms(2) show False by simp
    qed
    then have "Join ''.'' (ps @ [p]) = Join ''.'' ps @ ''.'' @ p" using Join_append [of ps "[p]" "''.''"] by simp
    then show ?thesis using True assms(1) name parts nonempty
      by (auto simp: retrieveCallInfo_def Let_def split len nth_append)
  qed
qed

lemma call_info_parts:
  assumes "CHR ''.'' \<notin> set p" and "CHR ''.'' \<notin> set q"
  shows "Split CHR ''.'' (pkg @ ''.'' @ p @ ''.'' @ q) = Split CHR ''.'' pkg @ [p, q]"
proof -
  have "Split CHR ''.'' (Join ''.'' (Split CHR ''.'' pkg @ [p, q])) = Split CHR ''.'' pkg @ [p, q]"
    by (rule Split_Join) (use assms Split_pieces_no_sep in auto)
  moreover have "Join ''.'' (Split CHR ''.'' pkg @ [p, q]) = pkg @ ''.'' @ p @ ''.'' @ q"
    by (simp add: Join_append Join_Split)
  ultimately show ?thesis by simp
qed

text \<open>A method of a pointer receiver: the receiver belongs to the function, not to the package.\<close>

lemma call_info_method:
  assumes "CHR ''.'' \<notin> set T" and "CHR ''.'' \<notin> set m" and "frm_Name fr = pkg @ ''.('' @ T @ '').'' @ m"
  shows "retrieveCallInfo fr = Some \<lparr>ci_packageName = pkg, ci_fileName = snd (path_Split (frm_File fr)),
    ci_funcName = ''('' @ T @ '').'' @ m, ci_line = frm_Line fr\<rparr>"
proof -
  have s: "Split CHR ''.'' (frm_Name fr) = Split CHR ''.'' pkg @ [CHR ''('' # T @ '')'', m]"
    using call_info_parts [of "CHR ''('' # T @ '')''" m pkg] assms by simp
  show ?thesis by (simp add: retrieveCallInfo_def s nth_append Join_Split Let_def)
qed

lemma path_Split_base: "CHR ''/'' \<notin> set base \<Longrightarrow> snd (path_Split (dir @ ''/'' @ base)) = base"
  by (simp add: path_Split_def go_string Let_def nat_add_distrib)

text \<open>A name without an empty part in front of its last dot is no panic.\<close>

lemma call_info_defined:
  assumes "Contains (frm_Name fr) ''.''" and "\<not> HasPrefix (frm_Name fr) ''.''" and "\<not> Contains (frm_Name fr) ''..''"
  shows "\<exists>ci. retrieveCallInfo fr = Some ci"
proof -
  obtain parts where parts: "Split CHR ''.'' (frm_Name fr) = parts" by simp
  have whole: "Join ''.'' parts = frm_Name fr" using Join_Split [of "CHR ''.''" "frm_Name fr"] parts by simp
  have dot: "CHR ''.'' \<in> set (frm_Name fr)" using assms(1) by (auto simp: Contains_iff)
  have "2 \<le> length parts"
  proof (rule ccontr)
    assume "\<not> 2 \<le> length parts"
    moreover have "parts \<noteq> []" using parts by auto
    ultimately obtain p where "parts = [p]" by (cases parts; cases "tl parts") auto
    with whole parts dot show False using Split_pieces_no_sep [of p "CHR ''.''" "frm_Name fr"] by simp
  qed
  then obtain ps p q where split: "parts = ps @ [p, q]" by (rule last_two_obtain)
  have "p \<noteq> []"
  proof
    assume "p = []"
    show False
    proof (cases ps rule: rev_cases)
      case Nil
      with \<open>p = []\<close> split whole have "frm_Name fr = ''.'' @ q" by simp
      with assms(2) show False by (simp add: HasPrefix_iff)
    next
      case (snoc rs r)
      have "frm_Name fr = Join ''.'' (rs @ [r]) @ ''..'' @ q"
        using whole split \<open>p = []\<close> snoc Join_append [of "rs @ [r]" "[[], q]" "''.''"] by simp
      with assms(3) show False by (auto simp: Contains_iff)
    qed
  qed
  then show ?thesis by (auto simp: retrieveCallInfo_def Let_def parts split nth_append)
qed

section \<open>Properties\<close>

text \<open>
  C40. The log functions name their caller. For a caller whose name has a package and a function, joined by
  a dot, a call of any of the ten functions reaches the library's method of the same level, with the
  caller's file (without its directory) and line, and with a package and a function that, joined by a dot,
  are the caller's name; the receiver of a pointer method belongs to the function. So no call panics.
\<close>

theorem log_names_caller:
  assumes name: "Contains (frm_Name fr) ''.''" "\<not> HasPrefix (frm_Name fr) ''.''" "\<not> HasPrefix (frm_Name fr) ''(''"
      "\<not> Contains (frm_Name fr) ''..''"
    and path: "frm_File fr = dir @ ''/'' @ base" "CHR ''/'' \<notin> set base"
  shows "\<exists>pkg func. frm_Name fr = pkg @ ''.'' @ func \<and>
    (\<forall>p T m. frm_Name fr = p @ ''.('' @ T @ '').'' @ m \<and> CHR ''.'' \<notin> set T \<and> CHR ''.'' \<notin> set m \<longrightarrow>
      pkg = p \<and> func = ''('' @ T @ '').'' @ m) \<and>
    (let fields = [(''filename'', StrField base), (''package'', StrField pkg), (''function'', StrField func),
           (''line'', IntField (frm_Line fr))]
     in log_Debug lg fr args l = ent_Debugln lg fields args l \<and>
       log_Debugf lg fr fmt args l = ent_Debugf lg fields fmt args l \<and>
       log_Info lg fr args l = ent_Infoln lg fields args l \<and>
       log_Infof lg fr fmt args l = ent_Infof lg fields fmt args l \<and>
       log_Warn lg fr args l = ent_Warnln lg fields args l \<and>
       log_Warnf lg fr fmt args l = ent_Warnf lg fields fmt args l \<and>
       log_Error lg fr args l = ent_Errorln lg fields args l \<and>
       log_Errorf lg fr fmt args l = ent_Errorf lg fields fmt args l \<and>
       log_Fatal lg fr args l = ent_Fatalln lg fields args l \<and>
       log_Fatalf lg fr fmt args l = ent_Fatalf lg fields fmt args l)"
proof -
  obtain ci where ci: "retrieveCallInfo fr = Some ci" using call_info_defined [OF name(1,2,4)] by blast
  have fields: "ci_fileName ci = base" "ci_line ci = frm_Line fr"
    using ci path_Split_base [OF path(2)] path(1) by (auto simp: retrieveCallInfo_def Let_def split: if_splits)
  have "frm_Name fr \<noteq> []" using name(1) by auto
  with name(3) have "CHR ''('' \<noteq> hd (frm_Name fr)" by (cases "frm_Name fr") (auto simp: HasPrefix_iff)
  from call_info_name [OF ci this]
  have "frm_Name fr = ci_packageName ci @ ''.'' @ ci_funcName ci" .
  moreover have "\<forall>p T m. frm_Name fr = p @ ''.('' @ T @ '').'' @ m \<and> CHR ''.'' \<notin> set T \<and> CHR ''.'' \<notin> set m \<longrightarrow>
      ci_packageName ci = p \<and> ci_funcName ci = ''('' @ T @ '').'' @ m"
    using ci call_info_method by fastforce
  moreover have "call_fields ci = [(''filename'', StrField base), (''package'', StrField (ci_packageName ci)),
      (''function'', StrField (ci_funcName ci)), (''line'', IntField (frm_Line fr))]"
    using fields by (simp add: call_fields_def)
  ultimately show ?thesis
    by - (rule exI [of _ "ci_packageName ci"], rule exI [of _ "ci_funcName ci"], simp only: log_defs ci option.case Let_def simp_thms)
qed

text \<open>A library that keeps the calls it gets, and the frame of a call in the F5 provisioner.\<close>

definition demo_logrus :: "((log_fields \<times> string list) list, nat, string) logrus" where
  "demo_logrus = \<lparr>ParseLevel = (\<lambda>s. if s = ''info'' then (4, None) else (0, Some ''not a valid logrus Level'')),
     SetFormatter = (\<lambda>_ _ l. l), SetLevel = (\<lambda>_ l. l), SetOutput = (\<lambda>_ l. l), std_Warnf = (\<lambda>_ _ l. l), std_Info = (\<lambda>_ l. l),
     ent_Debugln = (\<lambda>f a l. Returns (l @ [(f, a)])), ent_Debugf = (\<lambda>f m a l. Returns (l @ [(f, m # a)])),
     ent_Infoln = (\<lambda>f a l. Returns (l @ [(f, a)])), ent_Infof = (\<lambda>f m a l. Returns (l @ [(f, m # a)])),
     ent_Warnln = (\<lambda>f a l. Returns (l @ [(f, a)])), ent_Warnf = (\<lambda>f m a l. Returns (l @ [(f, m # a)])),
     ent_Errorln = (\<lambda>f a l. Returns (l @ [(f, a)])), ent_Errorf = (\<lambda>f m a l. Returns (l @ [(f, m # a)])),
     ent_Fatalln = (\<lambda>f a l. Exits (l @ [(f, a)])), ent_Fatalf = (\<lambda>f m a l. Exits (l @ [(f, m # a)]))\<rparr>"

definition demo_frame :: frame where
  "demo_frame = \<lparr>frm_Name = ''interlook/f5ltm.(*BigIP).Start'', frm_File = ''/go/f5ltm.go'', frm_Line = 130\<rparr>"

theorem log_names_caller_witness:
  "log_Debug demo_logrus demo_frame [''hello''] [] =
     Returns [([(''filename'', StrField ''f5ltm.go''), (''package'', StrField ''interlook/f5ltm''),
       (''function'', StrField ''(*BigIP).Start''), (''line'', IntField 130)], [''hello''])]"
proof -
  have h: "Contains (frm_Name demo_frame) ''.''" "\<not> HasPrefix (frm_Name demo_frame) ''.''"
    "\<not> HasPrefix (frm_Name demo_frame) ''(''" "\<not> Contains (frm_Name demo_frame) ''..''"
    by (simp_all add: demo_frame_def HasPrefix_def)
  have m: "frm_Name demo_frame = ''interlook/f5ltm'' @ ''.('' @ ''*BigIP'' @ '').'' @ ''Start''"
    "CHR ''.'' \<notin> set ''*BigIP''" "CHR ''.'' \<notin> set ''Start''"
    "frm_File demo_frame = ''/go'' @ ''/'' @ ''f5ltm.go''" "CHR ''/'' \<notin> set ''f5ltm.go''" "frm_Line demo_frame = 130"
    by (simp_all add: demo_frame_def)
  obtain pkg func where
    n: "\<forall>p T m. frm_Name demo_frame = p @ ''.('' @ T @ '').'' @ m \<and> CHR ''.'' \<notin> set T \<and> CHR ''.'' \<notin> set m \<longrightarrow>
      pkg = p \<and> func = ''('' @ T @ '').'' @ m"
    and c: "log_Debug demo_logrus demo_frame [''hello''] [] =
      ent_Debugln demo_logrus [(''filename'', StrField ''f5ltm.go''), (''package'', StrField pkg),
        (''function'', StrField func), (''line'', IntField (frm_Line demo_frame))] [''hello''] []"
    using log_names_caller [OF h m(4,5), of demo_logrus "[''hello'']" "[]" "''''"] by (auto simp: Let_def)
  from n m(1-3) have "pkg = ''interlook/f5ltm'' \<and> func = ''('' @ ''*BigIP'' @ '').'' @ ''Start''" by blast
  with c show ?thesis by (simp add: demo_logrus_def m(6))
qed

text \<open>An initialised logger keeps the level that comes with an error of \<open>ParseLevel\<close>.\<close>

theorem log_init_ignores_level_error:
  "ParseLevel lg level = (lv, Some err) \<Longrightarrow> ParseLevel lg level' = (lv, None) \<Longrightarrow>
     log_Init lg OpenFile file level l = log_Init lg OpenFile file level' l"
  by (simp add: log_Init_def)

end
